(* ===== verification/Prelude.thy ===== *)
theory Prelude
  imports Main
begin

text \<open>
  Shared vocabulary of the development: the Python string primitives that both copies of
  \<open>confluence_publish.py\<close> call (\<open>str.strip\<close>, \<open>str.split\<close>,
  \<open>str.splitlines\<close>, \<open>str.join\<close>, \<open>str.lower\<close>, \<open>html.escape\<close>,
  \<open>str.startswith\<close>, \<open>f"{n}"\<close> and \<open>f"{n:02d}"\<close>), written as executable
  HOL functions on \<open>string\<close> (\<open>char list\<close>), with the lemmas the component
  theories share. A Python \<open>str\<close> is a sequence of code points; the model reads
  a document as a sequence of 8-bit characters and is exact on ASCII text: the Unicode
  members of Python's whitespace, line-break, letter and case classes beyond ASCII are
  not modelled.
\<close>

named_theorems pystr "evaluation and shape rules of the Python string primitives"

abbreviation NL :: char where "NL \<equiv> CHR 0x0A"
abbreviation CR :: char where "CR \<equiv> CHR 0x0D"
abbreviation DQ :: char where "DQ \<equiv> CHR 0x22"
abbreviation SQ :: char where "SQ \<equiv> CHR 0x27"
abbreviation BSL :: char where "BSL \<equiv> CHR 0x5C"
abbreviation BQ :: char where "BQ \<equiv> CHR 0x60"

section \<open>Character classes\<close>

text \<open>\<open>str.isspace\<close> on ASCII: space, \<open>\t \n \v \f \r\<close> and \<open>\x1c\<close>..\<open>\x1f\<close>;
  this is also what \<open>\s\<close> matches in a \<open>str\<close> pattern of \<open>re\<close>.\<close>

definition is_space :: "char \<Rightarrow> bool" where
  "is_space c \<longleftrightarrow>
     (let n = of_char c :: nat in n = 32 \<or> (9 \<le> n \<and> n \<le> 13) \<or> (28 \<le> n \<and> n \<le> 31))"

text \<open>The line boundaries of \<open>str.splitlines\<close> on ASCII: \<open>\n \r \v \f \x1c \x1d \x1e\<close>
  (and \<open>\r\n\<close> as one boundary).\<close>

definition is_linebreak :: "char \<Rightarrow> bool" where
  "is_linebreak c \<longleftrightarrow>
     (let n = of_char c :: nat in (10 \<le> n \<and> n \<le> 13) \<or> (28 \<le> n \<and> n \<le> 30))"

definition is_upper :: "char \<Rightarrow> bool" where
  "is_upper c \<longleftrightarrow> (let n = of_char c :: nat in 65 \<le> n \<and> n \<le> 90)"

definition is_lower :: "char \<Rightarrow> bool" where
  "is_lower c \<longleftrightarrow> (let n = of_char c :: nat in 97 \<le> n \<and> n \<le> 122)"

definition is_digit :: "char \<Rightarrow> bool" where
  "is_digit c \<longleftrightarrow> (let n = of_char c :: nat in 48 \<le> n \<and> n \<le> 57)"

text \<open>ASCII case mapping of \<open>str.lower\<close> and \<open>str.upper\<close>: bit 5 of the code.\<close>

definition lower_char :: "char \<Rightarrow> char" where
  "lower_char c = (case c of Char b0 b1 b2 b3 b4 b5 b6 b7 \<Rightarrow>
     (if is_upper c then Char b0 b1 b2 b3 b4 True b6 b7 else c))"

definition upper_char :: "char \<Rightarrow> char" where
  "upper_char c = (case c of Char b0 b1 b2 b3 b4 b5 b6 b7 \<Rightarrow>
     (if is_lower c then Char b0 b1 b2 b3 b4 False b6 b7 else c))"

definition lower :: "string \<Rightarrow> string" where
  "lower s = map lower_char s"

section \<open>strip, startswith, endswith\<close>

definition lstrip :: "string \<Rightarrow> string" where
  "lstrip s = dropWhile is_space s"

definition rstrip :: "string \<Rightarrow> string" where
  "rstrip s = rev (dropWhile is_space (rev s))"

definition strip :: "string \<Rightarrow> string" where
  "strip s = rstrip (lstrip s)"

text \<open>\<open>s.strip(chars)\<close> and \<open>s.rstrip(chars)\<close> with an explicit character set.\<close>

definition rstrip_chars :: "char list \<Rightarrow> string \<Rightarrow> string" where
  "rstrip_chars cs s = rev (dropWhile (\<lambda>c. c \<in> set cs) (rev s))"

definition strip_chars :: "char list \<Rightarrow> string \<Rightarrow> string" where
  "strip_chars cs s = rstrip_chars cs (dropWhile (\<lambda>c. c \<in> set cs) s)"

definition startswith :: "string \<Rightarrow> string \<Rightarrow> bool" where
  "startswith s p \<longleftrightarrow> take (length p) s = p"

definition endswith :: "string \<Rightarrow> string \<Rightarrow> bool" where
  "endswith s p \<longleftrightarrow> length p \<le> length s \<and> drop (length s - length p) s = p"

section \<open>split, splitlines, join\<close>

text \<open>\<open>s.split(d)\<close> for a one-character separator: one piece more than separators.\<close>

fun split_on_acc :: "char \<Rightarrow> string \<Rightarrow> string \<Rightarrow> string list" where
  "split_on_acc d acc [] = [acc]"
| "split_on_acc d acc (c # cs) =
     (if c = d then acc # split_on_acc d [] cs else split_on_acc d (acc @ [c]) cs)"

definition split_on :: "char \<Rightarrow> string \<Rightarrow> string list" where
  "split_on d s = split_on_acc d [] s"

text \<open>\<open>s.split(d, 1)\<close> when \<open>d\<close> occurs in \<open>s\<close> (the callers test \<open>d in s\<close> first).\<close>

definition split_once :: "char \<Rightarrow> string \<Rightarrow> string \<times> string" where
  "split_once d s = (takeWhile (\<lambda>c. c \<noteq> d) s, drop 1 (dropWhile (\<lambda>c. c \<noteq> d) s))"

text \<open>\<open>s.splitlines(keepends=k)\<close>: a final line without terminator is kept when it is not
  empty; \<open>\r\n\<close> is one boundary.\<close>

fun splitlines_acc :: "bool \<Rightarrow> string \<Rightarrow> string \<Rightarrow> string list" where
  "splitlines_acc k acc [] = (if acc = [] then [] else [acc])"
| "splitlines_acc k acc (c # cs) =
     (if c = CR \<and> cs \<noteq> [] \<and> hd cs = NL
      then (acc @ (if k then [CR, NL] else [])) # splitlines_acc k [] (tl cs)
      else if is_linebreak c then (acc @ (if k then [c] else [])) # splitlines_acc k [] cs
      else splitlines_acc k (acc @ [c]) cs)"

definition splitlines :: "bool \<Rightarrow> string \<Rightarrow> string list" where
  "splitlines k s = splitlines_acc k [] s"

text \<open>\<open>sep.join(xs)\<close>.\<close>

fun py_join :: "string \<Rightarrow> string list \<Rightarrow> string" where
  "py_join sep [] = []"
| "py_join sep [x] = x"
| "py_join sep (x # y # xs) = x @ sep @ py_join sep (y # xs)"

section \<open>html.escape and number formatting\<close>

text \<open>\<open>html.escape(s)\<close> (with \<open>quote=True\<close>): its five successive \<open>str.replace\<close> calls,
  \<open>&\<close> first, act as one substitution per character.\<close>

definition escape_char :: "char \<Rightarrow> string" where
  "escape_char c =
     (if c = CHR ''&'' then ''&amp;''
      else if c = CHR ''<'' then ''&lt;''
      else if c = CHR ''>'' then ''&gt;''
      else if c = DQ then ''&quot;''
      else if c = SQ then ''&#x27;''
      else [c])"

definition html_escape :: "string \<Rightarrow> string" where
  "html_escape s = concat (map escape_char s)"

definition digit_char :: "nat \<Rightarrow> char" where
  "digit_char d =
     (if d = 0 then CHR ''0'' else if d = 1 then CHR ''1'' else if d = 2 then CHR ''2''
      else if d = 3 then CHR ''3'' else if d = 4 then CHR ''4'' else if d = 5 then CHR ''5''
      else if d = 6 then CHR ''6'' else if d = 7 then CHR ''7'' else if d = 8 then CHR ''8''
      else CHR ''9'')"

text \<open>\<open>f"{n}"\<close> for a non-negative int.\<close>

fun string_of_nat :: "nat \<Rightarrow> string" where
  "string_of_nat n =
     (if n < 10 then [digit_char n] else string_of_nat (n div 10) @ [digit_char (n mod 10)])"

declare string_of_nat.simps [simp del]

text \<open>\<open>f"{n:02d}"\<close> for a non-negative int: zero-padded to two digits.\<close>

definition pad2 :: "nat \<Rightarrow> string" where
  "pad2 n = (if n < 10 then CHR ''0'' # string_of_nat n else string_of_nat n)"

text \<open>\<open>int(s)\<close> on a string of decimal digits: the inverse of \<open>string_of_nat\<close>.\<close>

definition digit_val :: "char \<Rightarrow> nat" where
  "digit_val c = of_char c - 48"

definition read_nat :: "string \<Rightarrow> nat" where
  "read_nat s = foldl (\<lambda>a c. 10 * a + digit_val c) 0 s"

text \<open>\<open>f"{i}"\<close> for an int.\<close>

definition string_of_int :: "int \<Rightarrow> string" where
  "string_of_int i = (if i < 0 then CHR ''-'' # string_of_nat (nat (- i)) else string_of_nat (nat i))"

text \<open>\<open>p in s\<close> for strings: \<open>p\<close> occurs in \<open>s\<close> as a substring.\<close>

fun contains :: "string \<Rightarrow> string \<Rightarrow> bool" where
  "contains p [] \<longleftrightarrow> p = []"
| "contains p (c # cs) \<longleftrightarrow> startswith (c # cs) p \<or> contains p cs"

section \<open>Shared lemmas\<close>

lemma concat_splitlines_acc [pystr]: "concat (splitlines_acc True acc s) = acc @ s"
  by (induction True acc s rule: splitlines_acc.induct) (auto simp: neq_Nil_conv)

corollary concat_splitlines [pystr]: "concat (splitlines True s) = s"
  by (simp add: splitlines_def concat_splitlines_acc)

lemma splitlines_acc_no_break:
  "l \<in> set (splitlines_acc False acc s) \<Longrightarrow> \<forall>c\<in>set acc. \<not> is_linebreak c \<Longrightarrow>
   c \<in> set l \<Longrightarrow> \<not> is_linebreak c"
proof (induction False acc s arbitrary: l rule: splitlines_acc.induct)
  case (1 acc)
  then show ?case by (auto split: if_splits)
next
  case (2 acc c cs)
  then show ?case by (auto split: if_splits)
qed

lemma split_on_acc_nonempty [simp]: "split_on_acc d acc s \<noteq> []"
  by (induction d acc s rule: split_on_acc.induct) auto

lemma py_join_Cons_nonempty: "xs \<noteq> [] \<Longrightarrow> py_join sep (x # xs) = x @ sep @ py_join sep xs"
  by (cases xs) auto

lemma py_join_split_on_acc [pystr]: "py_join [d] (split_on_acc d acc s) = acc @ s"
  by (induction d acc s rule: split_on_acc.induct) (simp_all add: py_join_Cons_nonempty)

lemma length_split_on_acc [pystr]: "length (split_on_acc d acc s) = Suc (count_list s d)"
  by (induction d acc s rule: split_on_acc.induct) auto

lemma lstrip_hd: "lstrip s \<noteq> [] \<Longrightarrow> \<not> is_space (hd (lstrip s))"
  unfolding lstrip_def using hd_dropWhile by blast

lemma html_escape_Nil [simp]: "html_escape [] = []"
  and html_escape_Cons [simp]: "html_escape (c # s) = escape_char c @ html_escape s"
  and html_escape_append [simp]: "html_escape (s @ t) = html_escape s @ html_escape t"
  by (simp_all add: html_escape_def)

lemma escape_char_markup_free [pystr]:
  "CHR ''<'' \<notin> set (escape_char c)" "CHR ''>'' \<notin> set (escape_char c)"
  "DQ \<notin> set (escape_char c)" "SQ \<notin> set (escape_char c)"
  by (simp_all add: escape_char_def)

lemma html_escape_markup_free [pystr]:
  "CHR ''<'' \<notin> set (html_escape s)" "CHR ''>'' \<notin> set (html_escape s)"
  "DQ \<notin> set (html_escape s)" "SQ \<notin> set (html_escape s)"
  by (induction s) (simp_all add: escape_char_markup_free)

lemma digit_val_digit_char [simp]: "d < 10 \<Longrightarrow> digit_val (digit_char d) = d"
  by (auto simp: digit_val_def digit_char_def)

lemma read_nat_string_of_nat [pystr]: "read_nat (string_of_nat n) = n"
proof (induction n rule: string_of_nat.induct)
  case (1 n)
  then show ?case
    by (subst string_of_nat.simps) (auto simp: read_nat_def)
qed

lemma read_nat_pad2 [pystr]: "read_nat (pad2 n) = n"
proof -
  have "read_nat (CHR ''0'' # s) = read_nat s" for s
    by (simp add: read_nat_def digit_val_def)
  then show ?thesis by (simp add: pad2_def read_nat_string_of_nat)
qed

lemma pad2_inj: "pad2 m = pad2 n \<Longrightarrow> m = n"
  by (metis read_nat_pad2)

lemma startswith_iff: "startswith s p \<longleftrightarrow> (\<exists>r. s = p @ r)"
  unfolding startswith_def by (metis append_eq_conv_conj append_take_drop_id)

lemma dropWhile_idem: "dropWhile P (dropWhile P xs) = dropWhile P xs"
  by (induction xs) auto

lemma rstrip_append: "u = rstrip u @ rev (takeWhile is_space (rev u))"
proof -
  have "rev u = takeWhile is_space (rev u) @ dropWhile is_space (rev u)" by simp
  then have "u = rev (dropWhile is_space (rev u)) @ rev (takeWhile is_space (rev u))"
    by (metis rev_append rev_rev_ident)
  then show ?thesis by (simp add: rstrip_def)
qed

lemma lstrip_rstrip_of_lstrip: "lstrip (rstrip (lstrip s)) = rstrip (lstrip s)"
proof (cases "rstrip (lstrip s) = []")
  case True
  then show ?thesis by (simp add: lstrip_def)
next
  case False
  have "lstrip s = rstrip (lstrip s) @ rev (takeWhile is_space (rev (lstrip s)))"
    by (rule rstrip_append)
  with False have "hd (rstrip (lstrip s)) = hd (lstrip s)" "lstrip s \<noteq> []"
    by (metis hd_append2, auto)
  with False lstrip_hd [of s] show ?thesis
    by (cases "rstrip (lstrip s)") (auto simp: lstrip_def)
qed

lemma strip_idem: "strip (strip s) = strip s"
  by (simp add: strip_def lstrip_rstrip_of_lstrip) (simp add: rstrip_def dropWhile_idem)

lemma rstrip_idem: "rstrip (rstrip s) = rstrip s"
  by (simp add: rstrip_def dropWhile_idem)

lemma lstrip_rstrip: "lstrip (rstrip s) = rstrip (lstrip s)"
proof (cases "lstrip s = []")
  case True
  then have "\<forall>c\<in>set s. is_space c" by (simp add: lstrip_def)
  then have d: "dropWhile is_space s = []" "dropWhile is_space (rev s) = []"
    by (simp_all add: dropWhile_eq_Nil_conv)
  show ?thesis
    unfolding lstrip_def rstrip_def by (simp only: d rev.simps(1) dropWhile.simps(1))
next
  case False
  let ?x = "takeWhile is_space s"
  have s: "s = ?x @ lstrip s" by (simp add: lstrip_def)
  have c: "hd (lstrip s) \<in> set (rev (lstrip s))" "\<not> is_space (hd (lstrip s))"
    using False lstrip_hd by auto
  have "rstrip s = ?x @ rstrip (lstrip s)"
    by (subst s) (simp add: rstrip_def dropWhile_append1 [where P = is_space, OF c])
  moreover have "\<forall>c\<in>set ?x. is_space c" by (auto dest: set_takeWhileD)
  ultimately have "lstrip (rstrip s) = lstrip (rstrip (lstrip s))"
    by (simp add: lstrip_def dropWhile_append2)
  then show ?thesis by (simp add: lstrip_rstrip_of_lstrip)
qed

lemma strip_rstrip: "strip (rstrip s) = strip s"
  by (simp add: strip_def lstrip_rstrip rstrip_idem)

lemma splitlines_acc_single:
  "\<forall>c\<in>set s. \<not> is_linebreak c \<Longrightarrow> acc @ s \<noteq> [] \<Longrightarrow> splitlines_acc k acc s = [acc @ s]"
  by (induction s arbitrary: acc) (auto simp: is_linebreak_def)

lemma splitlines_single:
  "\<forall>c\<in>set s. \<not> is_linebreak c \<Longrightarrow> s \<noteq> [] \<Longrightarrow> splitlines k s = [s]"
  by (simp add: splitlines_def splitlines_acc_single)

lemma lstrip_Cons_space [simp]: "is_space c \<Longrightarrow> lstrip (c # s) = lstrip s"
  by (simp add: lstrip_def)

lemma lstrip_Cons_nonspace [simp]: "\<not> is_space c \<Longrightarrow> lstrip (c # s) = c # s"
  by (simp add: lstrip_def)

lemma rstrip_snoc_space [simp]: "is_space c \<Longrightarrow> rstrip (s @ [c]) = rstrip s"
  by (simp add: rstrip_def)

lemma rstrip_snoc_nonspace [simp]: "\<not> is_space c \<Longrightarrow> rstrip (s @ [c]) = s @ [c]"
  by (simp add: rstrip_def)

lemma strip_Nil [simp]: "strip [] = []"
  by (simp add: strip_def lstrip_def rstrip_def)

lemma strip_eq_self:
  assumes "\<not> is_space (hd s)" "\<not> is_space (last s)" "s \<noteq> []"
  shows "strip s = s"
proof -
  obtain c r where s: "s = c # r" using assms(3) by (cases s) auto
  obtain q d where t: "s = q @ [d]" using assms(3) by (cases s rule: rev_cases) auto
  have "lstrip s = s" using assms(1) s by simp
  moreover have "rstrip s = s" using assms(2) t by simp
  ultimately show ?thesis by (simp add: strip_def)
qed

lemma strip_self_ends:
  assumes "strip s = s" "s \<noteq> []"
  shows "\<not> is_space (hd s)" "\<not> is_space (last s)"
proof -
  have l: "length (lstrip s) \<le> length s" "length (rstrip s) \<le> length s" for s
    unfolding lstrip_def rstrip_def length_rev
    by (rule length_dropWhile_le, metis length_dropWhile_le length_rev)
  show "\<not> is_space (hd s)"
  proof
    assume "is_space (hd s)"
    with assms(2) have "length (lstrip s) < length s"
      by (cases s) (auto simp: lstrip_def intro: le_less_trans [OF length_dropWhile_le])
    then have "length (strip s) < length s" using l(2) [of "lstrip s"] by (simp add: strip_def)
    with assms(1) show False by simp
  qed
  show "\<not> is_space (last s)"
  proof
    assume sp: "is_space (last s)"
    obtain q d where s: "s = q @ [d]" using assms(2) by (cases s rule: rev_cases) auto
    have "length (rstrip (lstrip s)) \<le> length (lstrip s)" by (rule l(2))
    moreover have "lstrip s = lstrip q @ [d] \<or> lstrip s = []"
      using s by (simp add: lstrip_def dropWhile_append) 
    ultimately have "length (strip s) < length s"
      using sp s l(1) [of q] l(2) [of "lstrip q"] by (auto simp: strip_def)
    with assms(1) show False by simp
  qed
qed

lemma strip_snoc_space: "is_space c \<Longrightarrow> strip (s @ [c]) = strip s"
  by (cases "\<forall>x\<in>set s. is_space x")
     (auto simp: strip_def lstrip_def dropWhile_append dropWhile_eq_Nil_conv rstrip_def
           dest: set_dropWhileD)

lemma strip_Cons_space: "is_space c \<Longrightarrow> strip (c # s) = strip s"
  by (simp add: strip_def)

lemma splitlines_acc_line:
  "\<forall>c\<in>set l. \<not> is_linebreak c \<Longrightarrow>
   splitlines_acc k acc (l @ NL # r) = (acc @ l @ (if k then [NL] else [])) # splitlines_acc k [] r"
  by (induction l arbitrary: acc) (auto simp: is_linebreak_def)

lemma digit_char_is_digit: "is_digit (digit_char d)"
  by (simp add: digit_char_def is_digit_def)

lemma string_of_nat_digits: "c \<in> set (string_of_nat n) \<Longrightarrow> is_digit c"
proof (induction n rule: string_of_nat.induct)
  case (1 n)
  then show ?case
    by (cases "n < 10") (auto simp: string_of_nat.simps [of n] digit_char_is_digit)
qed

lemma string_of_nat_nonempty: "string_of_nat n \<noteq> []"
  by (simp add: string_of_nat.simps [of n])

end
