(* ===== verification/Document.thy ===== *)
theory Document
  imports Prelude "HOL-Library.Sublist"
begin

text \<open>
  The document model of the skills copy: \<open>parse_labels\<close> (lines 87-100),
  \<open>parse_front_matter\<close> (lines 103-131), \<open>derive_title\<close> (lines 134-143),
  \<open>merge_labels\<close> (lines 458-467), \<open>parse_document\<close> (lines 702-718) and the
  \<open>Document\<close> dataclass (lines 26-33). The file system is not modelled: a document is
  its path (a string) and the text \<open>path.read_text()\<close> returns. The metadata dictionary
  is a map from keys to values; the regular expression of \<open>derive_title\<close> is modelled by
  the search it performs, backtracking included.
\<close>

section \<open>Labels\<close>

text \<open>\<open>parse_labels\<close>: \<open>None\<close> and the empty string give no labels; an enclosing
  pair of brackets is removed; each comma-separated item is stripped of whitespace, then
  of double quotes, then of single quotes, and kept when non-empty.\<close>

definition clean_label :: "string \<Rightarrow> string" where
  "clean_label item = strip_chars [SQ] (strip_chars [DQ] (strip item))"

definition parse_labels :: "string option \<Rightarrow> string list" where
  "parse_labels raw =
     (case raw of
        None \<Rightarrow> []
      | Some r \<Rightarrow>
          if r = [] then []
          else (let v0 = strip r;
                    v = (if startswith v0 ''['' \<and> endswith v0 '']'' then take (length v0 - 2) (drop 1 v0) else v0)
                in filter (\<lambda>l. l \<noteq> []) (map clean_label (split_on CHR '','' v))))"

text \<open>The loop of \<open>merge_labels\<close>: the set of lower-cased labels seen, the result so far,
  the labels still to read.\<close>

fun merge_loop :: "string set \<Rightarrow> string list \<Rightarrow> string list \<Rightarrow> string list" where
  "merge_loop seen result [] = result"
| "merge_loop seen result (label # ls) =
     (let lowered = lower label in
      if lowered \<in> seen then merge_loop seen result ls
      else merge_loop (insert lowered seen) (result @ [label]) ls)"

definition merge_labels :: "string list \<Rightarrow> string list \<Rightarrow> string list" where
  "merge_labels base extra = merge_loop {} [] (base @ extra)"

text \<open>The reference: keep each label and drop the later labels equal to it up to case.\<close>

fun dedup_ci :: "string list \<Rightarrow> string list" where
  "dedup_ci [] = []"
| "dedup_ci (x # xs) = x # dedup_ci (filter (\<lambda>y. lower y \<noteq> lower x) xs)"


section \<open>Front matter\<close>

text \<open>The search for the closing delimiter: \<open>for i in range(1, len(lines))\<close>.\<close>

fun find_close :: "nat \<Rightarrow> string list \<Rightarrow> nat option" where
  "find_close i [] = None"
| "find_close i (l # ls) = (if strip l = ''---'' then Some i else find_close (Suc i) ls)"

text \<open>The metadata loop: later keys override earlier ones (\<open>metadata[key] = value\<close>).\<close>

fun meta_loop :: "(string \<rightharpoonup> string) \<Rightarrow> string list \<Rightarrow> (string \<rightharpoonup> string)" where
  "meta_loop m [] = m"
| "meta_loop m (raw # rs) =
     (let line = strip raw in
      if line = [] \<or> startswith line ''#'' \<or> CHR '':'' \<notin> set line then meta_loop m rs
      else (case split_once CHR '':'' line of (k, v) \<Rightarrow> meta_loop (m(strip k \<mapsto> strip v)) rs))"

definition parse_front_matter :: "string \<Rightarrow> (string \<rightharpoonup> string) \<times> string" where
  "parse_front_matter text =
     (if \<not> startswith text (''---'' @ [NL]) \<and> \<not> startswith text (''---'' @ [CR, NL]) then (Map.empty, text)
      else (let lines = splitlines True text in
            if lines = [] \<or> strip (hd lines) \<noteq> ''---'' then (Map.empty, text)
            else (case find_close 1 (drop 1 lines) of
                    None \<Rightarrow> (Map.empty, text)
                  | Some end_idx \<Rightarrow>
                      (let front = concat (take (end_idx - 1) (drop 1 lines));
                           body = concat (drop (end_idx + 1) lines)
                       in (meta_loop Map.empty (splitlines False front), body)))))"

section \<open>Title\<close>

text \<open>\<open>re.search(r"^#\s+(.+?)\s*$", body, flags=re.MULTILINE)\<close> tried at one line start
  \<open>s\<close> (the text from that position on): the group \<open>(.+?)\<close> when the pattern matches
  there. \<open>\s+\<close> takes the whole run of white space after \<open>#\<close>, line breaks included.
  If a character follows the run, the lazy group ends where only white space is left on
  that line. If the run reaches the end of the text, \<open>\s+\<close> gives back characters:
  the group is then the last character of the run after its first that is not a newline.\<close>

definition heading_at :: "string \<Rightarrow> string option" where
  "heading_at s =
     (case s of
        [] \<Rightarrow> None
      | c # r \<Rightarrow>
          if c \<noteq> CHR ''#'' then None
          else (let w = takeWhile is_space r; rest = dropWhile is_space r in
                if w = [] then None
                else if rest \<noteq> [] then Some (rstrip (takeWhile (\<lambda>ch. ch \<noteq> NL) rest))
                else (case filter (\<lambda>ch. ch \<noteq> NL) (rev (tl w)) of
                        [] \<Rightarrow> None
                      | ch # _ \<Rightarrow> Some [ch])))"

text \<open>The search tries the line starts in order: the start of the text and every position
  after a newline (\<open>^\<close> under \<open>re.MULTILINE\<close>).\<close>

function title_search :: "string \<Rightarrow> string option" where
  "title_search s =
     (case heading_at s of
        Some g \<Rightarrow> Some g
      | None \<Rightarrow> if NL \<in> set s then title_search (tl (dropWhile (\<lambda>ch. ch \<noteq> NL) s)) else None)"
  by pat_completeness auto
termination
proof (relation "measure length")
  fix s :: string
  assume "NL \<in> set s"
  then have "dropWhile (\<lambda>ch. ch \<noteq> NL) s \<noteq> []" by (simp add: dropWhile_eq_Nil_conv)
  then show "(tl (dropWhile (\<lambda>ch. ch \<noteq> NL) s), s) \<in> measure length"
    using length_dropWhile_le [of "\<lambda>ch. ch \<noteq> NL" s] by (cases "dropWhile (\<lambda>ch. ch \<noteq> NL) s") auto
qed simp

text \<open>\<open>re.sub(r"[-_]+", " ", s)\<close>: a run of hyphens and underscores becomes one space; the
  flag says whether the previous character was in such a run.\<close>

fun sub_seps :: "bool \<Rightarrow> string \<Rightarrow> string" where
  "sub_seps prev [] = []"
| "sub_seps prev (c # cs) =
     (if c = CHR ''-'' \<or> c = CHR ''_'' then (if prev then sub_seps True cs else CHR '' '' # sub_seps True cs)
      else c # sub_seps False cs)"

text \<open>\<open>str.title()\<close>: a letter is upper-cased after a non-letter and lower-cased after a
  letter; the flag says whether the previous character was a letter.\<close>

fun title_case :: "bool \<Rightarrow> string \<Rightarrow> string" where
  "title_case prev [] = []"
| "title_case prev (c # cs) =
     (if is_upper c \<or> is_lower c then (if prev then lower_char c else upper_char c) # title_case True cs
      else c # title_case False cs)"

text \<open>\<open>Path.stem\<close>: the last path component without its last suffix
  (\<open>name[:i]\<close> for the last dot \<open>i\<close> when \<open>0 < i < len(name) - 1\<close>).\<close>

definition path_stem :: "string \<Rightarrow> string" where
  "path_stem p =
     (let name = rev (takeWhile (\<lambda>c. c \<noteq> CHR ''/'') (rev p));
          i = length name - 1 - length (takeWhile (\<lambda>c. c \<noteq> CHR ''.'') (rev name))
      in if CHR ''.'' \<in> set name \<and> 0 < i \<and> i < length name - 1 then take i name else name)"

definition derive_title :: "string \<Rightarrow> string \<Rightarrow> (string \<rightharpoonup> string) \<Rightarrow> string" where
  "derive_title path body metadata =
     (let title = (case metadata ''title'' of Some t \<Rightarrow> t | None \<Rightarrow> []) in
      if title \<noteq> [] then title
      else (case title_search body of
              Some g \<Rightarrow> strip (rstrip_chars ''#'' (strip g))
            | None \<Rightarrow> title_case False (strip (sub_seps False (path_stem path)))))"

section \<open>Documents\<close>

record document =
  path :: string
  title :: string
  body_markdown :: string
  parent_id :: "string option"
  page_id :: "string option"
  labels :: "string list"

text \<open>Python's \<open>a or b\<close> on optional strings: \<open>None\<close> and \<open>""\<close> are false.\<close>

definition py_or :: "string option \<Rightarrow> string option \<Rightarrow> string option" where
  "py_or a b = (case a of Some v \<Rightarrow> if v = [] then b else a | None \<Rightarrow> b)"

definition parse_document :: "string \<Rightarrow> string \<Rightarrow> document" where
  "parse_document p text =
     (case parse_front_matter text of
        (metadata, body) \<Rightarrow>
          \<lparr>path = p, title = derive_title p body metadata, body_markdown = body,
           parent_id = py_or (metadata ''parent_id'') (metadata ''parentId''),
           page_id = py_or (metadata ''confluence_id'') (metadata ''page_id''),
           labels = parse_labels (metadata ''labels'')\<rparr>)"

text \<open>The front matter a writer puts above a body: one \<open>key: value\<close> line per entry. It
  models no code; the round-trip lemma reads it back.\<close>

definition front_line :: "string \<times> string \<Rightarrow> string" where
  "front_line kv = fst kv @ '': '' @ snd kv"

definition render_front :: "(string \<times> string) list \<Rightarrow> string" where
  "render_front kvs = concat (map (\<lambda>kv. front_line kv @ [NL]) kvs)"

definition front_entry_ok :: "string \<times> string \<Rightarrow> bool" where
  "front_entry_ok kv \<longleftrightarrow>
     fst kv \<noteq> [] \<and> strip (fst kv) = fst kv \<and> \<not> startswith (fst kv) ''#'' \<and> CHR '':'' \<notin> set (fst kv)
     \<and> strip (snd kv) = snd kv \<and> list_all (\<lambda>c. \<not> is_linebreak c) (fst kv @ snd kv)"

section \<open>Lemmas\<close>

subsection \<open>Labels\<close>

lemma merge_loop_dedup_ci:
  "merge_loop seen result xs = result @ dedup_ci (filter (\<lambda>y. lower y \<notin> seen) xs)"
  by (induction seen result xs rule: merge_loop.induct) (simp_all add: Let_def filter_filter conj_commute)

lemma set_dedup_ci: "set (dedup_ci xs) \<subseteq> set xs"
  by (induction xs rule: dedup_ci.induct) auto

lemma lower_set_dedup_ci: "lower ` set (dedup_ci xs) = lower ` set xs"
  by (induction xs rule: dedup_ci.induct) auto

lemma distinct_lower_dedup_ci: "distinct (map lower (dedup_ci xs))"
  by (induction xs rule: dedup_ci.induct) (auto dest: set_dedup_ci [THEN subsetD])

lemma subseq_dedup_ci: "subseq (dedup_ci xs) xs"
  by (induction xs rule: dedup_ci.induct) (auto intro: subseq_order.trans)

lemma find_filter_weaken: "(\<And>y. P y \<Longrightarrow> Q y) \<Longrightarrow> find P (filter Q xs) = find P xs"
  by (induction xs) auto

lemma dedup_ci_first:
  "x \<in> set (dedup_ci xs) \<Longrightarrow> find (\<lambda>y. lower y = lower x) xs = Some x"
proof (induction xs rule: dedup_ci.induct)
  case 1
  then show ?case by simp
next
  case (2 z zs)
  show ?case
  proof (cases "x = z")
    case False
    then have x: "x \<in> set (dedup_ci (filter (\<lambda>y. lower y \<noteq> lower z) zs))" using "2.prems" by simp
    then have "lower x \<noteq> lower z" using set_dedup_ci by fastforce
    with "2.IH" [OF x] show ?thesis by (simp add: find_filter_weaken)
  qed simp
qed

subsection \<open>Front matter\<close>

lemma strip_front_line:
  assumes "front_entry_ok kv"
  shows "strip (front_line kv) = fst kv @ CHR '':'' # (if snd kv = [] then [] else CHR '' '' # snd kv)"
proof -
  obtain k v where kv: "kv = (k, v)" by fastforce
  have k: "k \<noteq> []" "strip k = k" "strip v = v" using assms kv by (simp_all add: front_entry_ok_def)
  have hk: "\<not> is_space (hd k)" "\<not> is_space (last k)" using strip_self_ends [OF k(2,1)] by simp_all
  show ?thesis
  proof (cases "v = []")
    case True
    have "strip (k @ '':'') = k @ '':''"
      using hk k(1) by (intro strip_eq_self) (simp_all add: is_space_def)
    then show ?thesis
      using True kv strip_snoc_space [of "CHR '' ''" "k @ '':''"]
      by (simp add: front_line_def is_space_def)
  next
    case False
    have "\<not> is_space (last v)" using strip_self_ends [OF k(3) False] by simp
    then have "strip (k @ '': '' @ v) = k @ '': '' @ v"
      using hk k(1) False by (intro strip_eq_self) simp_all
    then show ?thesis using False kv by (simp add: front_line_def)
  qed
qed

lemma front_line_no_break: "front_entry_ok kv \<Longrightarrow> \<forall>c\<in>set (front_line kv). \<not> is_linebreak c"
  by (auto simp: front_entry_ok_def front_line_def list_all_iff is_linebreak_def)

lemma splitlines_render_front:
  "\<forall>kv\<in>set kvs. front_entry_ok kv \<Longrightarrow>
   splitlines_acc k [] (render_front kvs @ r) = map (\<lambda>kv. front_line kv @ (if k then [NL] else [])) kvs @ splitlines_acc k [] r"
  by (induction kvs) (auto simp: render_front_def splitlines_acc_line front_line_no_break)

lemma splitlines_render_front_end:
  "\<forall>kv\<in>set kvs. front_entry_ok kv \<Longrightarrow> splitlines False (render_front kvs) = map front_line kvs"
  using splitlines_render_front [of kvs False "[]"] by (simp add: splitlines_def)

lemma find_close_front:
  "\<forall>kv\<in>set kvs. front_entry_ok kv \<Longrightarrow>
   find_close i (map (\<lambda>kv. front_line kv @ [NL]) kvs @ (''---'' @ [NL]) # ls) = Some (i + length kvs)"
proof (induction kvs arbitrary: i)
  case Nil
  then show ?case by (simp add: strip_def lstrip_def rstrip_def is_space_def)
next
  case (Cons kv kvs)
  have "strip (front_line kv @ [NL]) = strip (front_line kv)"
    by (rule strip_snoc_space) (simp add: is_space_def)
  then have "CHR '':'' \<in> set (strip (front_line kv @ [NL]))"
    using strip_front_line [of kv] Cons.prems by simp
  then have "strip (front_line kv @ [NL]) \<noteq> ''---''" by auto
  with Cons show ?case by simp
qed

lemma split_once_prefix: "d \<notin> set k \<Longrightarrow> split_once d (k @ d # r) = (k, r)"
  by (simp add: split_once_def takeWhile_append dropWhile_append)

lemma meta_loop_front:
  "\<forall>kv\<in>set kvs. front_entry_ok kv \<Longrightarrow> meta_loop m (map front_line kvs) = m ++ map_of (rev kvs)"
proof (induction kvs arbitrary: m)
  case Nil
  then show ?case by simp
next
  case (Cons kv kvs)
  obtain k v where kv: "kv = (k, v)" by fastforce
  have ok: "front_entry_ok (k, v)" using Cons.prems kv by simp
  then have k: "k \<noteq> []" "strip k = k" "strip v = v" "\<not> startswith k ''#''" "CHR '':'' \<notin> set k"
    by (simp_all add: front_entry_ok_def)
  let ?r = "if v = [] then [] else CHR '' '' # v"
  have line: "strip (front_line (k, v)) = k @ CHR '':'' # ?r" using strip_front_line [OF ok] by simp
  have "\<not> startswith (k @ CHR '':'' # ?r) ''#''"
    using k(1,4) by (cases k) (simp_all add: startswith_def)
  moreover have "strip ?r = v" using k(3) by (simp add: strip_Cons_space is_space_def)
  ultimately have "meta_loop m (map front_line (kv # kvs)) = meta_loop (m(k \<mapsto> v)) (map front_line kvs)"
    using kv line k(2,5) by (simp add: Let_def split_once_prefix)
  with Cons.IH Cons.prems kv show ?case by (simp add: map_of_append)
qed

lemma suffix_concat_drop: "suffix (concat (drop n xs)) (concat xs)"
  by (metis append_take_drop_id concat_append suffix_append suffix_order.refl)

subsection \<open>Properties\<close>

text \<open>C10: The merged labels contain no two labels equal up to case, lose no label up to
  case, keep the order of the input, and each is the first occurrence of its class in the
  defaults followed by the document's labels (the first-seen casing wins).\<close>

theorem merge_labels_spec:
  "distinct (map lower (merge_labels base extra))
   \<and> lower ` set (merge_labels base extra) = lower ` set (base @ extra)
   \<and> subseq (merge_labels base extra) (base @ extra)
   \<and> (\<forall>x\<in>set (merge_labels base extra). find (\<lambda>y. lower y = lower x) (base @ extra) = Some x)"
  by (simp add: merge_labels_def merge_loop_dedup_ci distinct_lower_dedup_ci lower_set_dedup_ci
                subseq_dedup_ci dedup_ci_first)

theorem merge_labels_spec_witness:
  "merge_labels [] [''a'', ''B'', ''A''] = [''a'', ''B''] \<and>
   find (\<lambda>y. lower y = lower ''B'') [''a'', ''B'', ''A''] = Some ''B'' \<and>
   distinct (map lower [''a'', ''B''])"
proof -
  have e: "merge_labels [] [''a'', ''B'', ''A''] = [''a'', ''B'']" by code_simp
  have "''B'' \<in> set [''a'', ''B'']" by simp
  then show ?thesis using merge_labels_spec [of "[]" "[''a'', ''B'', ''A'']"]
    by (simp only: e append_Nil)
qed

text \<open>C11: Front-matter round trip: a block of \<open>key: value\<close> lines between two
  \<open>---\<close> lines, with keys that are non-empty, stripped, without a colon and not starting
  with \<open>#\<close>, and stripped values, parses back to the map of the entries (a later key
  overriding an earlier one) and the body after the block, unchanged.\<close>

theorem front_matter_roundtrip:
  assumes ok: "\<forall>kv\<in>set kvs. front_entry_ok kv"
  shows "parse_front_matter (''---'' @ [NL] @ render_front kvs @ ''---'' @ [NL] @ body) = (map_of (rev kvs), body)"
proof -
  let ?ls = "map (\<lambda>kv. front_line kv @ [NL]) kvs"
  have nb: "\<forall>c\<in>set ''---''. \<not> is_linebreak c" by (simp add: is_linebreak_def)
  have l: "splitlines True (''---'' @ [NL] @ render_front kvs @ ''---'' @ [NL] @ body)
      = (''---'' @ [NL]) # ?ls @ (''---'' @ [NL]) # splitlines True body"
    using splitlines_acc_line [OF nb, of True "[]"] splitlines_render_front [OF ok, of True]
    by (simp add: splitlines_def)
  have d: "strip (''---'' @ [NL]) = ''---''"
    by (simp add: strip_snoc_space is_space_def strip_def lstrip_def rstrip_def)
  have f: "find_close 1 (?ls @ (''---'' @ [NL]) # splitlines True body) = Some (1 + length kvs)"
    using find_close_front [OF ok] by simp
  have "render_front kvs = concat ?ls" by (simp add: render_front_def)
  then show ?thesis
    using l d f splitlines_render_front_end [OF ok] meta_loop_front [OF ok, of Map.empty]
    by (simp add: parse_front_matter_def startswith_def concat_splitlines)
qed

theorem front_matter_roundtrip_witness:
  "parse_front_matter (''---'' @ [NL] @ ''title: Custom'' @ [NL] @ ''labels: [a, B]'' @ [NL] @ ''---'' @ [NL] @ ''Body'')
     = (map_of [(''labels'', ''[a, B]''), (''title'', ''Custom'')], ''Body'')"
proof -
  have ok: "\<forall>kv\<in>set [(''title'', ''Custom''), (''labels'', ''[a, B]'')]. front_entry_ok kv" by code_simp
  have r: "render_front [(''title'', ''Custom''), (''labels'', ''[a, B]'')]
      = ''title: Custom'' @ [NL] @ ''labels: [a, B]'' @ [NL]" by code_simp
  show ?thesis using front_matter_roundtrip [OF ok, of "''Body''"] by (simp only: r rev.simps append.simps)
qed

text \<open>Whatever the text, the body \<open>parse_front_matter\<close> returns is a suffix of it: the
  front matter only ever removes a prefix.\<close>

theorem front_matter_body_suffix: "suffix (snd (parse_front_matter text)) text"
proof -
  have "suffix (concat (drop n (splitlines True text))) text" for n
    using suffix_concat_drop [of n "splitlines True text"] by (simp add: concat_splitlines)
  then show ?thesis
    by (auto simp: parse_front_matter_def Let_def split: option.splits)
qed

end
