(* ===== verification/Client.thy ===== *)
theory Client
  imports Document
begin

text \<open>
  The remote side of the skills copy: the methods of \<open>ConfluenceClient\<close> (lines
  470-662). The wiki service is not part of the repository; the client talks to it
  through one interface: a request (one constructor per endpoint the client calls) goes
  to a server, a function from the server's state and the request to the next state and
  the decoded JSON answer, or to \<open>None\<close> for a response that is not 2xx (the
  \<open>RuntimeError\<close> of \<open>_request\<close> and of the upload). Every lemma about the client
  holds for any server. A client computation threads the server state and the log of the
  requests sent, each with the answer received; a raised exception is a value of the
  sum type.
\<close>

section \<open>Interface\<close>

text \<open>A page object as the client reads it: \<open>id\<close>, \<open>title\<close> and \<open>version.number\<close>
  (absent: \<open>None\<close>).\<close>

record page_json =
  pj_id :: string
  pj_title :: string
  pj_version :: "int option"

text \<open>The requests: the endpoint and the parameters the client puts in the query or the
  payload. An absent \<open>parentId\<close> is \<open>None\<close>.\<close>

datatype request =
    GetSpace string
  | FindPage string string
  | GetPage string
  | CreatePage string string string "string option"
  | UpdatePage string string string int "string option"
  | AddLabels string "string list"
  | FindAttachment string string
  | UploadAttachment string string "string option" string

text \<open>The answers: the \<open>results\<close> of a search (an empty body \<open>{}\<close> has none), one
  page object (\<open>None\<close> for the empty object \<open>{}\<close>, which Python treats as false),
  attachment rows \<open>(id, title)\<close>, the upload's \<open>id\<close> and \<open>results\<close>, or an answer
  the client ignores.\<close>

datatype response =
    RSpaces "string list"
  | RPages "page_json list"
  | RPage "page_json option"
  | RAttachments "(string \<times> string) list"
  | RUpload "string option" "string list"
  | RIgnored

datatype error =
    HttpError request
  | SpaceNotFound string
  | NoAttachmentResult
  | BadResponse request
  | ConversionFailed

type_synonym 'w server = "'w \<Rightarrow> request \<Rightarrow> ('w \<times> response) option"
type_synonym call_log = "(request \<times> response option) list"
type_synonym ('w, 'a) client = "'w \<times> call_log \<Rightarrow> (error + 'a) \<times> 'w \<times> call_log"

section \<open>The client monad\<close>

definition ret :: "'a \<Rightarrow> ('w, 'a) client" where
  "ret x = (\<lambda>s. (Inr x, s))"

definition raise :: "error \<Rightarrow> ('w, 'a) client" where
  "raise e = (\<lambda>s. (Inl e, s))"

definition cbind :: "('w, 'a) client \<Rightarrow> ('a \<Rightarrow> ('w, 'b) client) \<Rightarrow> ('w, 'b) client" where
  "cbind m f = (\<lambda>s. case m s of (Inl e, s') \<Rightarrow> (Inl e, s') | (Inr x, s') \<Rightarrow> f x s')"

text \<open>One HTTP exchange: the request is logged with its answer.\<close>

definition call :: "'w server \<Rightarrow> request \<Rightarrow> ('w, response) client" where
  "call srv q = (\<lambda>(w, log).
     case srv w q of
       None \<Rightarrow> (Inl (HttpError q), w, log @ [(q, None)])
     | Some (w', r) \<Rightarrow> (Inr r, w', log @ [(q, Some r)]))"

section \<open>Client methods\<close>

definition get_space_by_key :: "'w server \<Rightarrow> string \<Rightarrow> ('w, string) client" where
  "get_space_by_key srv key =
     cbind (call srv (GetSpace key)) (\<lambda>r.
       case r of
         RSpaces results \<Rightarrow> if results = [] then raise (SpaceNotFound key) else ret (hd results)
       | _ \<Rightarrow> raise (BadResponse (GetSpace key)))"

text \<open>The first result with exactly the title, else the first result, else none.\<close>

definition pick_page :: "string \<Rightarrow> page_json list \<Rightarrow> page_json option" where
  "pick_page t results =
     (case find (\<lambda>p. pj_title p = t) results of
        Some p \<Rightarrow> Some p
      | None \<Rightarrow> if results = [] then None else Some (hd results))"

definition find_page_by_title :: "'w server \<Rightarrow> string \<Rightarrow> string \<Rightarrow> ('w, page_json option) client" where
  "find_page_by_title srv space_id t =
     cbind (call srv (FindPage space_id t)) (\<lambda>r.
       case r of
         RPages results \<Rightarrow> ret (pick_page t results)
       | _ \<Rightarrow> raise (BadResponse (FindPage space_id t)))"

definition get_page :: "'w server \<Rightarrow> string \<Rightarrow> ('w, page_json option) client" where
  "get_page srv pid =
     cbind (call srv (GetPage pid)) (\<lambda>r.
       case r of RPage p \<Rightarrow> ret p | _ \<Rightarrow> raise (BadResponse (GetPage pid)))"

text \<open>\<open>if parent_id: payload["parentId"] = ...\<close>: an empty parent is left out.\<close>

definition parent_field :: "string option \<Rightarrow> string option" where
  "parent_field p = (case p of Some v \<Rightarrow> if v = [] then None else Some v | None \<Rightarrow> None)"

definition create_page ::
  "'w server \<Rightarrow> string \<Rightarrow> string \<Rightarrow> string \<Rightarrow> string option \<Rightarrow> ('w, page_json option) client" where
  "create_page srv space_id t body_html par =
     (let q = CreatePage space_id t body_html (parent_field par) in
      cbind (call srv q) (\<lambda>r. case r of RPage p \<Rightarrow> ret p | _ \<Rightarrow> raise (BadResponse q)))"

definition update_page ::
  "'w server \<Rightarrow> string \<Rightarrow> string \<Rightarrow> string \<Rightarrow> int \<Rightarrow> string option \<Rightarrow> ('w, page_json option) client" where
  "update_page srv pid t body_html next_version par =
     (let q = UpdatePage pid t body_html next_version (parent_field par) in
      cbind (call srv q) (\<lambda>r. case r of RPage p \<Rightarrow> ret p | _ \<Rightarrow> raise (BadResponse q)))"

definition add_labels :: "'w server \<Rightarrow> string \<Rightarrow> string list \<Rightarrow> ('w, unit) client" where
  "add_labels srv pid ls = (if ls = [] then ret () else cbind (call srv (AddLabels pid ls)) (\<lambda>_. ret ()))"

text \<open>The row whose title is the file name, else the first row, else none.\<close>

definition find_attachment_by_filename :: "'w server \<Rightarrow> string \<Rightarrow> string \<Rightarrow> ('w, string option) client" where
  "find_attachment_by_filename srv pid fname =
     cbind (call srv (FindAttachment pid fname)) (\<lambda>r.
       case r of
         RAttachments rows \<Rightarrow>
           ret (case find (\<lambda>row. snd row = fname) rows of
                  Some row \<Rightarrow> Some (fst row)
                | None \<Rightarrow> if rows = [] then None else Some (fst (hd rows)))
       | _ \<Rightarrow> raise (BadResponse (FindAttachment pid fname)))"

definition safe_filename :: "string \<Rightarrow> string" where
  "safe_filename fname = map (\<lambda>c. if c = DQ then CHR ''_'' else c) fname"

text \<open>The upload: the existing attachment of that name is overwritten (its \<open>/data\<close>
  endpoint), otherwise a new attachment is posted; the answer must carry an \<open>id\<close> or a
  non-empty \<open>results\<close>.\<close>

definition upload_attachment_bytes ::
  "'w server \<Rightarrow> string \<Rightarrow> string \<Rightarrow> string \<Rightarrow> ('w, string) client" where
  "upload_attachment_bytes srv pid fname data =
     cbind (find_attachment_by_filename srv pid fname) (\<lambda>existing.
       (let q = UploadAttachment pid (safe_filename fname) existing data in
        cbind (call srv q) (\<lambda>r.
          case r of
            RUpload oid results \<Rightarrow>
              if oid \<noteq> None \<and> oid \<noteq> Some [] then ret (the oid)
              else if results = [] then raise NoAttachmentResult
              else ret (hd results)
          | _ \<Rightarrow> raise (BadResponse q))))"

section \<open>Kinds of request\<close>

text \<open>The requests that change the wiki: page creation and update, labels, uploads.\<close>

fun is_mutation :: "request \<Rightarrow> bool" where
  "is_mutation (CreatePage _ _ _ _) = True"
| "is_mutation (UpdatePage _ _ _ _ _) = True"
| "is_mutation (AddLabels _ _) = True"
| "is_mutation (UploadAttachment _ _ _ _) = True"
| "is_mutation _ = False"

section \<open>Hoare triples over the call log\<close>

text \<open>\<open>valid P m Q E\<close>: started on a log satisfying \<open>P\<close>, on any server state, \<open>m\<close>
  ends with a log satisfying \<open>Q x\<close> when it returns \<open>x\<close> and \<open>E\<close> when it raises.\<close>

definition valid ::
  "(call_log \<Rightarrow> bool) \<Rightarrow> ('w, 'a) client \<Rightarrow> ('a \<Rightarrow> call_log \<Rightarrow> bool) \<Rightarrow> (call_log \<Rightarrow> bool) \<Rightarrow> bool" where
  "valid P m Q E \<longleftrightarrow>
     (\<forall>w log r w' log'. P log \<longrightarrow> m (w, log) = (r, w', log') \<longrightarrow>
        (case r of Inl e \<Rightarrow> E log' | Inr x \<Rightarrow> Q x log'))"

text \<open>A log property kept by appending any exchange of the request \<open>q\<close>.\<close>

definition keeps :: "(call_log \<Rightarrow> bool) \<Rightarrow> request \<Rightarrow> bool" where
  "keeps I q \<longleftrightarrow> (\<forall>log a. I log \<longrightarrow> I (log @ [(q, a)]))"

named_theorems client_valid "Hoare rules for the client monad and its methods"

section \<open>Lemmas\<close>

lemma validI:
  "(\<And>w log r w' log'. P log \<Longrightarrow> m (w, log) = (r, w', log') \<Longrightarrow> (case r of Inl e \<Rightarrow> E log' | Inr x \<Rightarrow> Q x log'))
   \<Longrightarrow> valid P m Q E"
  by (simp add: valid_def)

lemma validD:
  "valid P m Q E \<Longrightarrow> P log \<Longrightarrow> m (w, log) = (r, w', log') \<Longrightarrow> (case r of Inl e \<Rightarrow> E log' | Inr x \<Rightarrow> Q x log')"
  by (simp add: valid_def)

lemma cbind_ret_left: "cbind (ret x) f = f x"
  by (simp add: cbind_def ret_def)

lemma valid_ret [client_valid]: "(\<And>log. P log \<Longrightarrow> Q x log) \<Longrightarrow> valid P (ret x) Q E"
  by (simp add: valid_def ret_def)

lemma valid_raise [client_valid]: "(\<And>log. P log \<Longrightarrow> E log) \<Longrightarrow> valid P (raise e) Q E"
  by (simp add: valid_def raise_def)

lemma valid_cbind [client_valid]:
  assumes "valid P m R E" "\<And>x. valid (R x) (f x) Q E"
  shows "valid P (cbind m f) Q E"
proof (rule validI)
  fix w log r w' log'
  assume p: "P log" and run: "cbind m f (w, log) = (r, w', log')"
  obtain r1 w1 log1 where m: "m (w, log) = (r1, w1, log1)" by (cases "m (w, log)") auto
  show "case r of Inl e \<Rightarrow> E log' | Inr x \<Rightarrow> Q x log'"
  proof (cases r1)
    case (Inl e)
    then show ?thesis using validD [OF assms(1) p m] run m by (auto simp: cbind_def)
  next
    case (Inr x)
    then have "R x log1" using validD [OF assms(1) p m] by simp
    then show ?thesis using validD [OF assms(2) _ ] run m Inr by (simp add: cbind_def)
  qed
qed

lemma valid_call [client_valid]:
  "(\<And>log. P log \<Longrightarrow> E (log @ [(q, None)])) \<Longrightarrow> (\<And>log r. P log \<Longrightarrow> Q r (log @ [(q, Some r)]))
   \<Longrightarrow> valid P (call srv q) Q E"
  by (auto simp: valid_def call_def split: option.splits)

lemma valid_if [client_valid]:
  "(b \<Longrightarrow> valid P m1 Q E) \<Longrightarrow> (\<not> b \<Longrightarrow> valid P m2 Q E) \<Longrightarrow> valid P (if b then m1 else m2) Q E"
  by simp

lemma valid_conseq:
  "valid P' m Q' E' \<Longrightarrow> (\<And>l. P l \<Longrightarrow> P' l) \<Longrightarrow> (\<And>x l. Q' x l \<Longrightarrow> Q x l) \<Longrightarrow> (\<And>l. E' l \<Longrightarrow> E l)
   \<Longrightarrow> valid P m Q E"
  unfolding valid_def by (fastforce split: sum.splits)

lemma valid_call_keeps: "keeps I q \<Longrightarrow> valid I (call srv q) (\<lambda>_. I) I"
  by (rule valid_call) (simp_all add: keeps_def)

lemma valid_get_page [client_valid]:
  "keeps I (GetPage pid) \<Longrightarrow>
   valid I (get_page srv pid) (\<lambda>p log. I log \<and> (\<exists>l0. log = l0 @ [(GetPage pid, Some (RPage p))])) I"
  unfolding get_page_def
  by (rule valid_cbind [where R = "\<lambda>r log. I log \<and> (\<exists>l0. log = l0 @ [(GetPage pid, Some r)])"])
     (auto simp: keeps_def intro!: valid_call valid_ret valid_raise split: response.splits)

lemma valid_find_page_by_title [client_valid]:
  "keeps I (FindPage sp t) \<Longrightarrow> valid I (find_page_by_title srv sp t) (\<lambda>_. I) I"
  unfolding find_page_by_title_def
  by (rule valid_cbind [OF valid_call_keeps]) (auto intro!: valid_ret valid_raise split: response.splits)

lemma valid_find_attachment [client_valid]:
  "keeps I (FindAttachment pid f) \<Longrightarrow> valid I (find_attachment_by_filename srv pid f) (\<lambda>_. I) I"
  unfolding find_attachment_by_filename_def
  by (rule valid_cbind [OF valid_call_keeps]) (auto intro!: valid_ret valid_raise split: response.splits)

lemma valid_upload_attachment [client_valid]:
  "keeps I (FindAttachment pid f) \<Longrightarrow> (\<And>ex. keeps I (UploadAttachment pid (safe_filename f) ex d)) \<Longrightarrow>
   valid I (upload_attachment_bytes srv pid f d) (\<lambda>_. I) I"
  unfolding upload_attachment_bytes_def Let_def
  by (rule valid_cbind [OF valid_find_attachment], assumption,
      rule valid_cbind [OF valid_call_keeps], blast)
     (auto intro!: valid_ret valid_raise split: response.splits)

lemma valid_create_page [client_valid]:
  "keeps I (CreatePage sp t b (parent_field par)) \<Longrightarrow> valid I (create_page srv sp t b par) (\<lambda>_. I) I"
  unfolding create_page_def Let_def
  by (rule valid_cbind [OF valid_call_keeps]) (auto intro!: valid_ret valid_raise split: response.splits)

lemma valid_update_page [client_valid]:
  "keeps I (UpdatePage pid t b v (parent_field par)) \<Longrightarrow> valid I (update_page srv pid t b v par) (\<lambda>_. I) I"
  unfolding update_page_def Let_def
  by (rule valid_cbind [OF valid_call_keeps]) (auto intro!: valid_ret valid_raise split: response.splits)

lemma valid_add_labels [client_valid]:
  "(ls \<noteq> [] \<Longrightarrow> keeps I (AddLabels pid ls)) \<Longrightarrow> valid I (add_labels srv pid ls) (\<lambda>_. I) I"
  unfolding add_labels_def
  by (cases "ls = []") (auto intro!: valid_ret valid_cbind [OF valid_call_keeps])

end
