(* ===== verification/Inline.thy ===== *)
theory Inline
  imports Prelude
begin

text \<open>
  Inline transformation of \<open>simple_markdown_to_html\<close> (skills copy, lines 274-288;
  the same code at lines 134-148 of the scripts copy): \<open>render_plain_inline\<close> escapes the
  text and then rewrites \<open>**..**\<close> to \<open>strong\<close> and \<open>*..*\<close> to \<open>em\<close> with
  two \<open>re.sub\<close> passes; \<open>render_inline\<close> cuts the text at the back-quoted spans that
  \<open>re.finditer(r"`([^`]+)`")\<close> finds and renders the spans as \<open>code\<close>.
\<close>

section \<open>The lazy delimiter substitution of re.sub\<close>

text \<open>
  \<open>re.sub(r"D(.+?)D", r"<t>\1</t>", s)\<close> for a delimiter \<open>D\<close>: at each position where
  \<open>D\<close> starts, the lazy group takes the fewest characters (at least one, none of them a
  newline, which \<open>.\<close> does not match) after which \<open>D\<close> occurs again; the scan resumes
  after the match, and at a position where no match starts it moves on by one character.
  \<open>lazy_close d acc s\<close> searches for the closing delimiter with \<open>acc\<close> the group so far.
\<close>

fun lazy_close :: "string \<Rightarrow> string \<Rightarrow> string \<Rightarrow> (string \<times> string) option" where
  "lazy_close d acc [] = None"
| "lazy_close d acc (c # cs) =
     (if acc \<noteq> [] \<and> startswith (c # cs) d then Some (acc, drop (length d) (c # cs))
      else if c = NL then None
      else lazy_close d (acc @ [c]) cs)"

lemma lazy_close_shorter:
  "lazy_close d acc s = Some (m, r) \<Longrightarrow> length r < length s \<or> (acc \<noteq> [] \<and> length r \<le> length s)"
  by (induction d acc s rule: lazy_close.induct) (auto split: if_splits)

function sub_delim :: "string \<Rightarrow> string \<Rightarrow> string \<Rightarrow> string" where
  "sub_delim d t [] = []"
| "sub_delim d t (c # cs) =
     (if startswith (c # cs) d
      then (case lazy_close d [] (drop (length d) (c # cs)) of
              Some (m, r) \<Rightarrow> ''<'' @ t @ ''>'' @ m @ ''</'' @ t @ ''>'' @ sub_delim d t r
            | None \<Rightarrow> c # sub_delim d t cs)
      else c # sub_delim d t cs)"
  by pat_completeness auto
termination
  by (relation "measure (\<lambda>(d, t, s). length s)")
     (auto dest!: lazy_close_shorter)

definition render_plain_inline :: "string \<Rightarrow> string" where
  "render_plain_inline text =
     sub_delim ''*'' ''em'' (sub_delim ''**'' ''strong'' (html_escape text))"

section \<open>Code spans\<close>

datatype segment = Plain string | Code string

function inline_segs :: "string \<Rightarrow> string \<Rightarrow> segment list" where
  "inline_segs acc [] = [Plain acc]"
| "inline_segs acc (c # cs) =
     (if c = BQ \<and> takeWhile (\<lambda>x. x \<noteq> BQ) cs \<noteq> [] \<and> dropWhile (\<lambda>x. x \<noteq> BQ) cs \<noteq> []
      then Plain acc # Code (takeWhile (\<lambda>x. x \<noteq> BQ) cs)
             # inline_segs [] (tl (dropWhile (\<lambda>x. x \<noteq> BQ) cs))
      else inline_segs (acc @ [c]) cs)"
  by pat_completeness auto
termination
  by (relation "measure (\<lambda>(acc, s). length s)")
     (auto simp: less_Suc_eq_le le_diff_conv intro: le_SucI length_dropWhile_le)

fun render_segment :: "segment \<Rightarrow> string" where
  "render_segment (Plain s) = render_plain_inline s"
| "render_segment (Code s) = ''<code>'' @ html_escape s @ ''</code>''"

definition render_inline :: "string \<Rightarrow> string" where
  "render_inline text = concat (map render_segment (inline_segs [] text))"

section \<open>Escaping: no markup character escapes the generated tags\<close>

text \<open>
  A string is well escaped over a token list when it splits into tokens of the list and
  single characters that are none of \<open>< > & " '\<close>. The tokens are the entities that
  \<open>html.escape\<close> writes and the tags the renderer generates.
\<close>

definition safe_char :: "char \<Rightarrow> bool" where
  "safe_char c \<longleftrightarrow> c \<noteq> CHR ''<'' \<and> c \<noteq> CHR ''>'' \<and> c \<noteq> CHR ''&'' \<and> c \<noteq> DQ \<and> c \<noteq> SQ"

inductive well_escaped :: "string list \<Rightarrow> string \<Rightarrow> bool" for toks where
  we_nil: "well_escaped toks []"
| we_tok: "t \<in> set toks \<Longrightarrow> well_escaped toks s \<Longrightarrow> well_escaped toks (t @ s)"
| we_chr: "safe_char c \<Longrightarrow> well_escaped toks s \<Longrightarrow> well_escaped toks (c # s)"

definition entities :: "string list" where
  "entities = [''&amp;'', ''&lt;'', ''&gt;'', ''&quot;'', ''&#x27;'']"

definition inline_tokens :: "string list" where
  "inline_tokens = entities @
     [''<strong>'', ''</strong>'', ''<em>'', ''</em>'', ''<code>'', ''</code>'']"

lemma well_escaped_append:
  "well_escaped T a \<Longrightarrow> well_escaped T b \<Longrightarrow> well_escaped T (a @ b)"
proof (induction rule: well_escaped.induct)
  case we_nil
  then show ?case by simp
next
  case (we_tok t s)
  then show ?case using well_escaped.we_tok [of t T "s @ b"] by simp
next
  case (we_chr c s)
  then show ?case by (simp add: well_escaped.we_chr)
qed

lemma well_escaped_token: "t \<in> set T \<Longrightarrow> well_escaped T t"
  using we_tok [OF _ we_nil] by simp

lemma well_escaped_escape_char:
  "set entities \<subseteq> set T \<Longrightarrow> well_escaped T (escape_char c)"
  by (auto simp: escape_char_def entities_def safe_char_def
           intro: well_escaped_token we_chr [OF _ we_nil])

lemma well_escaped_html_escape:
  "set entities \<subseteq> set T \<Longrightarrow> well_escaped T (html_escape s)"
  by (induction s) (auto intro: we_nil well_escaped_append well_escaped_escape_char)

text \<open>A character that occurs in no token marks a cut: a well-escaped string splits there
  into two well-escaped strings.\<close>

definition token_free :: "string list \<Rightarrow> char \<Rightarrow> bool" where
  "token_free T c \<longleftrightarrow> (\<forall>t\<in>set T. c \<notin> set t)"

lemma well_escaped_cut:
  assumes "well_escaped T w" "w = x @ y"
    and "(y \<noteq> [] \<and> token_free T (hd y)) \<or> (x \<noteq> [] \<and> token_free T (last x))"
  shows "well_escaped T x \<and> well_escaped T y"
  using assms
proof (induction arbitrary: x rule: well_escaped.induct)
  case we_nil
  then show ?case by (simp add: well_escaped.we_nil)
next
  case (we_tok t s)
  from we_tok.prems(1) obtain us where
    split: "(t = x @ us \<and> us @ s = y) \<or> (t @ us = x \<and> s = us @ y)"
    by (auto simp: append_eq_append_conv2)
  then show ?case
  proof
    assume a: "t = x @ us \<and> us @ s = y"
    show ?thesis
    proof (cases "us = [] \<or> x = []")
      case True
      then show ?thesis
      proof
        assume "us = []"
        with a have "x = t" "y = s" by auto
        with we_tok.hyps show ?thesis by (simp add: well_escaped_token)
      next
        assume "x = []"
        with a have "y = t @ s" by auto
        with we_tok.hyps \<open>x = []\<close> show ?thesis by (auto intro: well_escaped.intros)
      qed
    next
      case False
      with a we_tok.hyps(1) we_tok.prems(2) show ?thesis
        by (auto simp: token_free_def)
    qed
  next
    assume "t @ us = x \<and> s = us @ y"
    then have b: "t @ us = x" "s = us @ y" by auto
    show ?thesis
    proof (cases us)
      case Nil
      with b we_tok.hyps show ?thesis by (simp add: well_escaped_token)
    next
      case (Cons u us')
      with b we_tok.IH [of us] we_tok.prems(2) we_tok.hyps(1) show ?thesis
        by (auto intro: well_escaped.we_tok)
    qed
  qed
next
  case (we_chr c s)
  show ?case
  proof (cases x)
    case Nil
    with we_chr show ?thesis by (auto intro: well_escaped.intros)
  next
    case (Cons u x')
    with we_chr.prems(1) have x: "x = c # x'" and s: "s = x' @ y" by auto
    show ?thesis
    proof (cases "x' = []")
      case True
      with x s we_chr.hyps show ?thesis by (auto intro: well_escaped.intros)
    next
      case False
      with x we_chr.prems(2) have "(y \<noteq> [] \<and> token_free T (hd y)) \<or> token_free T (last x')"
        by auto
      with False s we_chr.IH [of x'] we_chr.hyps(1) x show ?thesis
        by (auto intro: well_escaped.we_chr)
    qed
  qed
qed

lemma lazy_close_Some:
  "lazy_close d acc s = Some (m, r) \<Longrightarrow> acc @ s = m @ d @ r \<and> m \<noteq> []"
  by (induction d acc s rule: lazy_close.induct)
     (auto simp: startswith_def split: if_splits, metis append_take_drop_id)

lemma well_escaped_sub_delim:
  "d \<noteq> [] \<Longrightarrow> \<forall>c\<in>set d. token_free T c \<Longrightarrow>
   ''<'' @ t @ ''>'' \<in> set T \<Longrightarrow> ''</'' @ t @ ''>'' \<in> set T \<Longrightarrow>
   well_escaped T (p @ s) \<Longrightarrow> well_escaped T (p @ sub_delim d t s)"
proof (induction d t s arbitrary: p rule: sub_delim.induct)
  case (1 d t)
  then show ?case by simp
next
  case (2 d t c cs)
  note side = "2.prems"(1-4)
  show ?case
  proof (cases "startswith (c # cs) d \<and> lazy_close d [] (drop (length d) (c # cs)) \<noteq> None")
    case True
    then obtain m r where lc: "lazy_close d [] (drop (length d) (c # cs)) = Some (m, r)"
      and sw: "startswith (c # cs) d" by auto
    from lc have "drop (length d) (c # cs) = m @ d @ r" by (auto dest: lazy_close_Some)
    with sw have w: "c # cs = d @ m @ d @ r"
      by (metis append_take_drop_id startswith_def)
    have "token_free T (hd d) \<and> token_free T (last d)"
      using side(1,2) by simp
    then have hd_d: "token_free T (hd d)" and last_d: "token_free T (last d)" by auto
    from "2.prems"(5) w have w0: "well_escaped T (p @ (d @ m @ d @ r))" by simp
    have c1: "well_escaped T p \<and> well_escaped T (d @ m @ d @ r)"
      using well_escaped_cut [OF w0 refl] hd_d side(1) by simp
    then have c2: "well_escaped T d \<and> well_escaped T (m @ d @ r)"
      using well_escaped_cut [of T "d @ m @ d @ r" d "m @ d @ r"] last_d side(1) by simp
    then have c3: "well_escaped T m \<and> well_escaped T (d @ r)"
      using well_escaped_cut [of T "m @ d @ r" m "d @ r"] hd_d side(1) by simp
    then have r: "well_escaped T r"
      using well_escaped_cut [of T "d @ r" d r] last_d side(1) by simp
    have "well_escaped T ([] @ sub_delim d t r)"
      using "2.IH"(2) [OF sw lc refl side, of "[]"] r by simp
    moreover have "well_escaped T (''<'' @ t @ ''>'')" "well_escaped T (''</'' @ t @ ''>'')"
      using side(3,4) by (simp_all add: well_escaped_token)
    ultimately have "well_escaped T (p @ (''<'' @ t @ ''>'') @ m @ (''</'' @ t @ ''>'') @ sub_delim d t r)"
      using c1 c3 by (simp only: well_escaped_append append_Nil)
    then show ?thesis
      using lc sw by simp
  next
    case False
    then have eq: "sub_delim d t (c # cs) = c # sub_delim d t cs"
      by (auto split: option.split)
    have "well_escaped T ((p @ [c]) @ sub_delim d t cs)"
    proof (cases "startswith (c # cs) d")
      case True
      with False have "lazy_close d [] (drop (length d) (c # cs)) = None" by (metis option.exhaust)
      from "2.IH"(1) [OF True this side, of "p @ [c]"] "2.prems"(5) show ?thesis by simp
    next
      case False
      from "2.IH"(3) [OF False side, of "p @ [c]"] "2.prems"(5) show ?thesis by simp
    qed
    with eq show ?thesis by simp
  qed
qed

lemma token_free_star: "token_free inline_tokens (CHR ''*'')"
  by (simp add: token_free_def inline_tokens_def entities_def)

lemma well_escaped_render_plain_inline:
  "well_escaped inline_tokens (render_plain_inline s)"
proof -
  have E: "set entities \<subseteq> set inline_tokens" by (auto simp: inline_tokens_def)
  have tags: "''<strong>'' \<in> set inline_tokens" "''</strong>'' \<in> set inline_tokens"
    "''<em>'' \<in> set inline_tokens" "''</em>'' \<in> set inline_tokens"
    by (simp_all add: inline_tokens_def)
  have star: "\<forall>c\<in>set ''**''. token_free inline_tokens c" "\<forall>c\<in>set ''*''. token_free inline_tokens c"
    using token_free_star by simp_all
  have h0: "well_escaped inline_tokens ([] @ html_escape s)"
    using well_escaped_html_escape [OF E] by simp
  have h1: "well_escaped inline_tokens ([] @ sub_delim ''**'' ''strong'' (html_escape s))"
    by (rule well_escaped_sub_delim [OF _ star(1) _ _ h0]) (use tags in simp_all)
  have "well_escaped inline_tokens
      ([] @ sub_delim ''*'' ''em'' (sub_delim ''**'' ''strong'' (html_escape s)))"
    by (rule well_escaped_sub_delim [OF _ star(2) _ _ h1]) (use tags in simp_all)
  then show ?thesis unfolding render_plain_inline_def by (simp only: append_Nil)
qed

text \<open>C6: whatever the text, the inline renderer's output is entities, the
  generated strong, em and code tags, and characters other than \<open>< > & " '\<close>.\<close>

theorem render_inline_well_escaped: "well_escaped inline_tokens (render_inline text)"
proof -
  have seg: "well_escaped inline_tokens (render_segment g)" for g
  proof (cases g)
    case (Plain x)
    then show ?thesis by (simp add: well_escaped_render_plain_inline)
  next
    case (Code x)
    have "well_escaped inline_tokens (html_escape x)"
      by (rule well_escaped_html_escape) (auto simp: inline_tokens_def)
    moreover have "well_escaped inline_tokens ''<code>''"
      and "well_escaped inline_tokens ''</code>''"
      by (simp_all add: well_escaped_token inline_tokens_def)
    ultimately have "well_escaped inline_tokens (''<code>'' @ (html_escape x @ ''</code>''))"
      by (blast intro: well_escaped_append)
    with Code show ?thesis by simp
  qed
  have "well_escaped inline_tokens (concat (map render_segment gs))" for gs
    by (induction gs) (auto intro: we_nil well_escaped_append seg)
  then show ?thesis by (simp add: render_inline_def)
qed

end
