(* ===== verification/Blocks.thy ===== *)
theory Blocks
  imports Inline
begin

text \<open>
  The block emitters of \<open>simple_markdown_to_html\<close> (skills copy): the table helpers
  \<open>split_table_row\<close>, \<open>is_table_separator_cell\<close>, \<open>parse_table_alignment\<close>,
  \<open>looks_like_table_header\<close>, \<open>looks_like_table_row\<close> and
  \<open>render_markdown_table\<close> (lines 191-272), the macro emitters \<open>emit_code_macro\<close>,
  \<open>emit_mermaid_macro\<close>, \<open>emit_mermaid_image_macro\<close> (lines 290-316) and
  \<open>build_mermaid_image_name\<close> (lines 146-150). The table renderer reads
  \<open>alignments[idx]\<close>, which raises \<open>IndexError\<close> past the end: it returns an option.
\<close>

section \<open>Table rows\<close>

text \<open>The character loop of \<open>split_table_row\<close>: cells so far, the current buffer, the
  escape flag, the remaining characters. A backslash escapes the next character and is
  dropped; an unescaped bar ends a cell; each cell is stripped.\<close>

fun split_cells :: "string list \<Rightarrow> string \<Rightarrow> bool \<Rightarrow> string \<Rightarrow> string list" where
  "split_cells cells buf esc [] = cells @ [strip buf]"
| "split_cells cells buf esc (ch # rest) =
     (if esc then split_cells cells (buf @ [ch]) False rest
      else if ch = BSL then split_cells cells buf True rest
      else if ch = CHR ''|'' then split_cells (cells @ [strip buf]) [] False rest
      else split_cells cells (buf @ [ch]) False rest)"

definition split_table_row :: "string \<Rightarrow> string list" where
  "split_table_row line =
     (let raw0 = strip line;
          raw1 = (if startswith raw0 ''|'' then drop 1 raw0 else raw0);
          raw = (if endswith raw1 ''|'' then take (length raw1 - 1) raw1 else raw1)
      in split_cells [] [] False raw)"

text \<open>\<open>re.fullmatch(r":?-{3,}:?", cell.strip())\<close>.\<close>

definition is_table_separator_cell :: "string \<Rightarrow> bool" where
  "is_table_separator_cell cell =
     (let c = strip cell;
          c1 = (if startswith c '':'' then drop 1 c else c);
          c2 = (if endswith c1 '':'' then take (length c1 - 1) c1 else c1)
      in 3 \<le> length c2 \<and> list_all (\<lambda>ch. ch = CHR ''-'') c2)"

datatype align = Center | Right | Left

definition parse_table_alignment :: "string \<Rightarrow> align option" where
  "parse_table_alignment cell =
     (let c = strip cell in
      if startswith c '':'' \<and> endswith c '':'' then Some Center
      else if endswith c '':'' then Some Right
      else if startswith c '':'' then Some Left
      else None)"

fun align_name :: "align \<Rightarrow> string" where
  "align_name Center = ''center''"
| "align_name Right = ''right''"
| "align_name Left = ''left''"

definition looks_like_table_header :: "string \<Rightarrow> string \<Rightarrow> bool" where
  "looks_like_table_header line next_line =
     (let row = strip line; sep = strip next_line in
      if \<not> (startswith row ''|'' \<and> startswith sep ''|'') then False
      else (let header_cells = split_table_row row; sep_cells = split_table_row sep in
            if length header_cells < 2 \<or> length sep_cells \<noteq> length header_cells then False
            else list_all is_table_separator_cell sep_cells))"

definition looks_like_table_row :: "string \<Rightarrow> bool" where
  "looks_like_table_row line =
     (let row = strip line in startswith row ''|'' \<and> CHR ''|'' \<in> set (drop 1 row))"

section \<open>Table rendering\<close>

definition render_cell :: "string \<Rightarrow> string \<Rightarrow> align option \<Rightarrow> string" where
  "render_cell tag content al =
     (let body = render_inline content in
      case al of
        Some a \<Rightarrow> ''<'' @ tag @ '' style='' @ [DQ] @ ''text-align:'' @ align_name a @ '';'' @ [DQ]
                  @ ''>'' @ body @ ''</'' @ tag @ ''>''
      | None \<Rightarrow> ''<'' @ tag @ ''>'' @ body @ ''</'' @ tag @ ''>'')"

text \<open>\<open>for idx, cell in enumerate(cells): out.append(render_cell(tag, cell, alignments[idx]))\<close>:
  \<open>None\<close> is the \<open>IndexError\<close> when a row has more cells than alignments.\<close>

fun render_cells :: "string \<Rightarrow> string list \<Rightarrow> align option list \<Rightarrow> string list option" where
  "render_cells tag [] als = Some []"
| "render_cells tag (c # cs) als =
     (case als of
        [] \<Rightarrow> None
      | a # as \<Rightarrow> map_option (\<lambda>r. render_cell tag c a # r) (render_cells tag cs as))"

text \<open>The padding and truncation of a body row to the header's width (lines 262-265).\<close>

definition fit_row :: "nat \<Rightarrow> string list \<Rightarrow> string list" where
  "fit_row n row_cells =
     (let c1 = (if length row_cells < n then row_cells @ replicate (n - length row_cells) []
                else row_cells)
      in if n < length c1 then take n c1 else c1)"

definition render_row :: "nat \<Rightarrow> align option list \<Rightarrow> string \<Rightarrow> string list option" where
  "render_row n alignments row_line = render_cells ''td'' (fit_row n (split_table_row row_line)) alignments"

fun render_rows :: "nat \<Rightarrow> align option list \<Rightarrow> string list \<Rightarrow> string option" where
  "render_rows n als [] = Some []"
| "render_rows n als (r # rs) =
     (case render_row n als r of
        None \<Rightarrow> None
      | Some tds \<Rightarrow> map_option (\<lambda>rest. ''<tr>'' @ concat tds @ ''</tr>'' @ rest) (render_rows n als rs))"

definition render_markdown_table :: "string list \<Rightarrow> string option" where
  "render_markdown_table table_lines =
     (case table_lines of
        h # s # rows \<Rightarrow>
          (let header_cells = split_table_row h;
               sep_cells = split_table_row s;
               alignments = map parse_table_alignment sep_cells
           in case render_cells ''th'' header_cells alignments of
                None \<Rightarrow> None
              | Some ths \<Rightarrow>
                  (case render_rows (length header_cells) alignments rows of
                     None \<Rightarrow> None
                   | Some trs \<Rightarrow> Some (''<table><thead><tr>'' @ concat ths @ ''</tr></thead><tbody>''
                                       @ trs @ ''</tbody></table>'')))
      | _ \<Rightarrow> None)"

section \<open>Code and diagram macros\<close>

text \<open>\<open>code_text.replace("]]>", "]]]]><![CDATA[>")\<close>: leftmost occurrences, no overlap.\<close>

fun cdata_escape :: "string \<Rightarrow> string" where
  "cdata_escape [] = []"
| "cdata_escape (c # cs) =
     (if startswith (c # cs) '']]>'' then '']]]]><![CDATA[>'' @ cdata_escape (drop 2 cs)
      else c # cdata_escape cs)"

definition emit_code_macro :: "string \<Rightarrow> string \<Rightarrow> string" where
  "emit_code_macro lang code_text =
     (let safe_code = cdata_escape code_text;
          safe_lang = html_escape (if lang = [] then ''none'' else lang)
      in ''<ac:structured-macro ac:name='' @ [DQ] @ ''code'' @ [DQ] @ ''>''
         @ ''<ac:parameter ac:name='' @ [DQ] @ ''language'' @ [DQ] @ ''>'' @ safe_lang
         @ ''</ac:parameter>''
         @ ''<ac:plain-text-body><![CDATA['' @ safe_code @ '']]></ac:plain-text-body>''
         @ ''</ac:structured-macro>'')"

definition emit_mermaid_macro :: "string \<Rightarrow> string" where
  "emit_mermaid_macro code_text =
     (let safe_code = cdata_escape code_text
      in ''<ac:structured-macro ac:name='' @ [DQ] @ ''mermaid'' @ [DQ] @ ''>''
         @ ''<ac:plain-text-body><![CDATA['' @ safe_code @ '']]></ac:plain-text-body>''
         @ ''</ac:structured-macro>'')"

text \<open>\<open>f"{safe_width}"\<close> of \<open>max(240, width)\<close>: never negative.\<close>

definition emit_mermaid_image_macro :: "string \<Rightarrow> int \<Rightarrow> string" where
  "emit_mermaid_image_macro filename width =
     (let safe_filename = html_escape filename;
          safe_width = max 240 width
      in ''<ac:image ac:align='' @ [DQ] @ ''center'' @ [DQ] @ '' ac:width='' @ [DQ]
         @ string_of_nat (nat safe_width) @ [DQ] @ ''>''
         @ ''<ri:attachment ri:filename='' @ [DQ] @ safe_filename @ [DQ] @ '' />''
         @ ''</ac:image>'')"

text \<open>\<open>re.sub(r"[^\w .()-]+", "", prefix)\<close> keeps word characters, space, dot,
  parentheses and hyphen.\<close>

definition name_char :: "char \<Rightarrow> bool" where
  "name_char ch \<longleftrightarrow> is_upper ch \<or> is_lower ch \<or> is_digit ch \<or> ch = CHR ''_''
     \<or> ch = CHR '' '' \<or> ch = CHR ''.'' \<or> ch = CHR ''('' \<or> ch = CHR '')'' \<or> ch = CHR ''-''"

definition build_mermaid_image_name :: "string \<Rightarrow> nat \<Rightarrow> string" where
  "build_mermaid_image_name prefix index =
     (let base0 = strip (filter name_char prefix);
          base = (if base0 = [] then ''Codex Mermaid'' else base0)
      in take 180 (base @ '' Mermaid '' @ pad2 index @ ''.svg''))"

text \<open>The reading an XML parser gives a sequence of CDATA sections: the text up to
  the first \<open>]]>\<close>, and, after \<open>]]><![CDATA[\<close>, the text of the next section.
  This is the decoder the round-trip lemma is stated against; it models no code.\<close>

fun cdata_scan :: "string \<Rightarrow> string \<Rightarrow> string option" where
  "cdata_scan acc [] = None"
| "cdata_scan acc (c # cs) =
     (if startswith (c # cs) '']]>''
      then (if drop 2 cs = [] then Some acc
            else if startswith (drop 2 cs) ''<![CDATA['' then cdata_scan acc (drop 9 (drop 2 cs))
            else None)
      else cdata_scan (acc @ [c]) cs)"

definition cdata_decode :: "string \<Rightarrow> string option" where
  "cdata_decode s = (if startswith s ''<![CDATA['' then cdata_scan [] (drop 9 s) else None)"

section \<open>Lemmas\<close>


lemma length_fit_row: "length (fit_row n cs) = n"
  by (simp add: fit_row_def Let_def)

lemma render_cells_length:
  "render_cells tag cs als = Some rs \<Longrightarrow> length rs = length cs"
  by (induction tag cs als arbitrary: rs rule: render_cells.induct) (auto split: list.splits)

lemma render_cells_Some:
  "length cs \<le> length als \<Longrightarrow> \<exists>rs. render_cells tag cs als = Some rs"
  by (induction tag cs als rule: render_cells.induct) (auto split: list.splits)

lemma split_table_row_strip: "split_table_row (strip l) = split_table_row l"
  by (simp add: split_table_row_def strip_idem)

lemma looks_like_table_header_widths:
  "looks_like_table_header h s \<Longrightarrow>
   length (split_table_row s) = length (split_table_row h) \<and> 2 \<le> length (split_table_row h)"
  by (auto simp: looks_like_table_header_def Let_def split_table_row_strip split: if_splits)

text \<open>C7: Once a header line and a separator line form a table, every body row is
  rendered (no \<open>IndexError\<close>) with exactly as many cells as the header has columns,
  whether the row has fewer cells (padded) or more (truncated).\<close>

theorem table_rows_header_width:
  assumes "looks_like_table_header h s"
  shows "\<exists>tds. render_row (length (split_table_row h)) (map parse_table_alignment (split_table_row s)) r
               = Some tds \<and> length tds = length (split_table_row h)"
proof -
  let ?n = "length (split_table_row h)"
  have w: "length (split_table_row s) = ?n" using looks_like_table_header_widths [OF assms] by simp
  have "length (fit_row ?n (split_table_row r)) \<le> length (map parse_table_alignment (split_table_row s))"
    using w by (simp add: length_fit_row)
  then obtain tds where "render_cells ''td'' (fit_row ?n (split_table_row r)) (map parse_table_alignment (split_table_row s)) = Some tds"
    using render_cells_Some by blast
  moreover from this have "length tds = ?n" by (auto dest: render_cells_length simp: length_fit_row)
  ultimately show ?thesis by (simp add: render_row_def)
qed


lemma render_rows_Some:
  "length (split_table_row h) \<le> length als \<Longrightarrow> \<exists>t. render_rows (length (split_table_row h)) als rows = Some t"
proof (induction rows)
  case Nil
  then show ?case by simp
next
  case (Cons r rows)
  then obtain tds where "render_row (length (split_table_row h)) als r = Some tds"
    using render_cells_Some [of "fit_row _ _" als "''td''"] by (auto simp: render_row_def length_fit_row)
  with Cons show ?case by auto
qed

lemma render_markdown_table_total:
  "looks_like_table_header h s \<Longrightarrow> \<exists>out. render_markdown_table (h # s # rows) = Some out"
proof -
  assume hdr: "looks_like_table_header h s"
  let ?als = "map parse_table_alignment (split_table_row s)"
  have w: "length (split_table_row h) \<le> length ?als"
    using looks_like_table_header_widths [OF hdr] by simp
  obtain ths where "render_cells ''th'' (split_table_row h) ?als = Some ths"
    using render_cells_Some [OF w] by blast
  moreover obtain trs where "render_rows (length (split_table_row h)) ?als rows = Some trs"
    using render_rows_Some [OF w] by blast
  ultimately show ?thesis by (simp add: render_markdown_table_def)
qed

lemma take2_cdata_escape: "take 2 (cdata_escape s @ T) = take 2 (s @ T)"
proof (induction s rule: cdata_escape.induct)
  case 1
  then show ?case by simp
next
  case (2 c cs)
  show ?case
  proof (cases "startswith (c # cs) '']]>''")
    case True
    then obtain cs' where "cs = '']>'' @ cs'" "c = CHR '']''"
      by (auto simp: startswith_iff)
    then show ?thesis by simp
  next
    case False
    then have "take 1 (cdata_escape cs @ T) = take 1 (cs @ T)"
      using "2.IH"(2) by (metis take_take min.idem one_le_numeral min_absorb1)
    with False show ?thesis by (simp add: numeral_2_eq_2)
  qed
qed

lemma no_close_append: "\<not> startswith x '']]>'' \<Longrightarrow> x \<noteq> [] \<Longrightarrow> \<not> startswith (x @ '']]>'') '']]>''"
proof
  assume ne: "\<not> startswith x '']]>''" "x \<noteq> []" and sw: "startswith (x @ '']]>'') '']]>''"
  have "length x \<noteq> 0" using ne(2) by simp
  then consider "3 \<le> length x" | "length x = Suc 0" | "length x = Suc (Suc 0)"
    by linarith
  then show False
  proof cases
    case 1
    with ne sw show ?thesis by (simp add: startswith_def)
  next
    case 2
    then obtain a where "x = [a]" by (auto simp: length_Suc_conv)
    with sw show ?thesis by (simp add: startswith_def)
  next
    case 3
    then obtain a b where "x = [a, b]" by (auto simp: length_Suc_conv)
    with sw show ?thesis by (simp add: startswith_def)
  qed
qed

lemma cdata_scan_escape: "cdata_scan acc (cdata_escape s @ '']]>'') = Some (acc @ s)"
proof (induction s arbitrary: acc rule: cdata_escape.induct)
  case 1
  then show ?case by (simp add: startswith_def)
next
  case (2 c cs)
  show ?case
  proof (cases "startswith (c # cs) '']]>''")
    case True
    then obtain cs' where cs: "cs = '']>'' @ cs'" and c: "c = CHR '']''"
      by (auto simp: startswith_iff)
    have "cdata_scan (acc @ '']]>'') (cdata_escape cs' @ '']]>'') = Some ((acc @ '']]>'') @ cs')"
      using "2.IH"(1) [OF True] cs by simp
    with True cs c show ?thesis by (simp add: startswith_def)
  next
    case False
    have "\<not> startswith (c # cdata_escape cs @ '']]>'') '']]>''"
    proof
      assume "startswith (c # cdata_escape cs @ '']]>'') '']]>''"
      then have "startswith (c # cs @ '']]>'') '']]>''"
        using take2_cdata_escape [of cs "'']]>''"]
        by (simp add: startswith_def numeral_3_eq_3 numeral_2_eq_2)
      with False no_close_append [of "c # cs"] show False by simp
    qed
    with False "2.IH"(2) [OF False, of "acc @ [c]"] show ?thesis by simp
  qed
qed

text \<open>C27: The CDATA escaping of the code and Mermaid macros round-trips: reading the
  emitted CDATA sections back yields exactly the source text, whatever \<open>]]>\<close> it
  contains.\<close>

theorem cdata_roundtrip: "cdata_decode (''<![CDATA['' @ cdata_escape s @ '']]>'') = Some s"
  by (simp add: cdata_decode_def startswith_def cdata_scan_escape)



lemma length_pad2: "n < 100 \<Longrightarrow> length (pad2 n) = 2"
proof (cases "n < 10")
  case True
  then show ?thesis by (simp add: pad2_def string_of_nat.simps)
next
  case False
  moreover assume "n < 100"
  ultimately have "n div 10 < 10" by simp
  with False show ?thesis
    by (simp add: pad2_def string_of_nat.simps [of n] string_of_nat.simps [of "n div 10"])
qed

lemma image_name_prefix:
  assumes "length b + 11 \<le> 180" "n < 100"
  shows "take (length b + 11) (take 180 (b @ '' Mermaid '' @ pad2 n @ ''.svg'')) = b @ '' Mermaid '' @ pad2 n"
  using assms length_pad2 [OF assms(2)] by (simp add: min_def)

lemma image_names_distinct:
  assumes "length (strip (filter name_char prefix)) \<le> 169" "i < 100" "j < 100"
    and "build_mermaid_image_name prefix i = build_mermaid_image_name prefix j"
  shows "i = j"
proof -
  define b where "b = (let b0 = strip (filter name_char prefix) in if b0 = [] then ''Codex Mermaid'' else b0)"
  have lb: "length b + 11 \<le> 180" using assms(1) by (simp add: b_def Let_def)
  have "take 180 (b @ '' Mermaid '' @ pad2 i @ ''.svg'') = take 180 (b @ '' Mermaid '' @ pad2 j @ ''.svg'')"
    using assms(4) by (simp add: build_mermaid_image_name_def b_def Let_def)
  then have "b @ '' Mermaid '' @ pad2 i = b @ '' Mermaid '' @ pad2 j"
    using image_name_prefix [OF lb assms(2)] image_name_prefix [OF lb assms(3)] by metis
  then show ?thesis by (simp add: pad2_inj)
qed

text \<open>C28: The index suffix of a Mermaid image name is lost when the sanitised title has
  171 characters or more: the 180-character truncation then gives every diagram of the
  document the same file name.\<close>

theorem image_names_collide:
  assumes "171 \<le> length (strip (filter name_char prefix))"
  shows "build_mermaid_image_name prefix i = build_mermaid_image_name prefix j"
proof -
  define b where "b = strip (filter name_char prefix)"
  have ne: "b \<noteq> []" and k: "180 - length b \<le> 9" using assms by (auto simp: b_def)
  have T: "take 180 (b @ '' Mermaid '' @ x) = take 180 (b @ '' Mermaid '')" for x
    by (simp only: take_append) (use k in simp)
  have e: "build_mermaid_image_name prefix n = take 180 (b @ '' Mermaid '')" for n
  proof -
    have "build_mermaid_image_name prefix n = take 180 (b @ '' Mermaid '' @ pad2 n @ ''.svg'')"
      using ne by (simp add: build_mermaid_image_name_def Let_def b_def)
    also have "\<dots> = take 180 (b @ '' Mermaid '')" by (rule T)
    finally show ?thesis .
  qed
  show ?thesis by (simp only: e)
qed

theorem image_names_collide_witness:
  "171 \<le> length (strip (filter name_char (replicate 171 (CHR ''a'')))) \<and>
   build_mermaid_image_name (replicate 171 (CHR ''a'')) 1 = build_mermaid_image_name (replicate 171 (CHR ''a'')) 2"
proof -
  have h: "171 \<le> length (strip (filter name_char (replicate 171 (CHR ''a''))))"
    by code_simp
  show ?thesis using h image_names_collide [OF h] by blast
qed

theorem table_rows_header_width_witness:
  "\<exists>tds. render_row 2 (map parse_table_alignment (split_table_row ''|---|:---:|'')) ''| 1 | 2 | 3 |''
     = Some tds \<and> length tds = 2"
proof -
  have h: "looks_like_table_header ''| a | b |'' ''|---|:---:|''" by code_simp
  have "length (split_table_row ''| a | b |'') = 2" by code_simp
  with table_rows_header_width [OF h, of "''| 1 | 2 | 3 |''"] show ?thesis by simp
qed

end
