(* ===== verification/Converter.thy ===== *)
theory Converter
  imports Blocks
begin

text \<open>
  The fallback converter \<open>simple_markdown_to_html\<close> of the skills copy (lines 175-403)
  and its dispatcher \<open>markdown_to_html\<close> (lines 406-455). The Python function keeps its
  state in local variables (\<open>parts\<close>, \<open>in_ul\<close>, \<open>in_code_block\<close>,
  \<open>code_lang\<close>, \<open>code_lines\<close>, \<open>mermaid_image_count\<close>) and appends to the caller's
  \<open>mermaid_image_plans\<close> list; here they are one record threaded through the loop, and
  the caller's list is the field \<open>plans\<close> (\<open>None\<close> when the caller passed
  \<open>None\<close>). The \<open>while i < len(lines)\<close> loop is a recursion over the lines not yet
  read; the table branch consumes several lines at once. The only exception the loop
  can raise is the \<open>IndexError\<close> of \<open>render_markdown_table\<close>: the loop returns an
  option.
\<close>

record mermaid_image_plan =
  filename :: string
  mermaid_source :: string

record conv_cfg =
  mermaid_mode :: string
  mermaid_image_prefix :: "string option"
  mermaid_image_width :: int

record conv_state =
  parts :: "string list"
  in_ul :: bool
  in_code_block :: bool
  code_lang :: string
  code_lines :: "string list"
  mermaid_image_count :: nat
  plans :: "mermaid_image_plan list option"

definition init_state :: "mermaid_image_plan list option \<Rightarrow> conv_state" where
  "init_state ps = \<lparr>parts = [], in_ul = False, in_code_block = False, code_lang = [],
     code_lines = [], mermaid_image_count = 0, plans = ps\<rparr>"

definition add_part :: "string \<Rightarrow> conv_state \<Rightarrow> conv_state" where
  "add_part p st = st\<lparr>parts := parts st @ [p]\<rparr>"

definition close_list :: "conv_state \<Rightarrow> conv_state" where
  "close_list st = (if in_ul st then (add_part ''</ul>'' st)\<lparr>in_ul := False\<rparr> else st)"

definition is_mermaid_lang :: "string \<Rightarrow> bool" where
  "is_mermaid_lang lang \<longleftrightarrow> (let l = lower (strip lang) in l = ''mermaid'' \<or> l = ''mmd'')"

definition image_prefix :: "conv_cfg \<Rightarrow> string" where
  "image_prefix cfg =
     (case mermaid_image_prefix cfg of None \<Rightarrow> ''Codex Diagram''
      | Some p \<Rightarrow> if p = [] then ''Codex Diagram'' else p)"

text \<open>\<open>emit_fenced_block\<close> (lines 318-329): the rendered block and the state with the
  image counter and the plan list advanced in attachment mode.\<close>

definition emit_fenced_block :: "conv_cfg \<Rightarrow> conv_state \<Rightarrow> string \<Rightarrow> string \<Rightarrow> string \<times> conv_state" where
  "emit_fenced_block cfg st lang code_text =
     (if mermaid_mode cfg = ''macro'' \<and> is_mermaid_lang lang
      then (emit_mermaid_macro code_text, st)
      else if mermaid_mode cfg = ''attachment'' \<and> is_mermaid_lang lang
      then (let n = Suc (mermaid_image_count st);
                fname = build_mermaid_image_name (image_prefix cfg) n;
                ps = map_option (\<lambda>ps. ps @ [\<lparr>filename = fname, mermaid_source = code_text\<rparr>]) (plans st)
            in (emit_mermaid_image_macro fname (mermaid_image_width cfg),
                st\<lparr>mermaid_image_count := n, plans := ps\<rparr>))
      else (emit_code_macro lang code_text, st))"

text \<open>\<open>re.match(r"^(#{1,6})\s+(.*)$", stripped)\<close> on a line without line breaks: the
  level and the text after the marker.\<close>

definition heading_match :: "string \<Rightarrow> (nat \<times> string) option" where
  "heading_match s =
     (let n = length (takeWhile (\<lambda>c. c = CHR ''#'') s); rest = drop n s in
      if 1 \<le> n \<and> n \<le> 6 \<and> rest \<noteq> [] \<and> is_space (hd rest) then Some (n, rest) else None)"

text \<open>\<open>re.match(r"^[-*]\s+(.*)$", stripped)\<close>.\<close>

definition bullet_match :: "string \<Rightarrow> string option" where
  "bullet_match s =
     (case s of
        c # d # rest \<Rightarrow> if (c = CHR ''-'' \<or> c = CHR ''*'') \<and> is_space d then Some (d # rest) else None
      | _ \<Rightarrow> None)"

definition fence_match :: "string \<Rightarrow> string option" where
  "fence_match s = (if startswith s ''```'' then Some (drop 3 s) else None)"

text \<open>The branches of the loop body, one definition each: opening a fence (lines
  345-349), closing it (lines 345, 350-354), a table (lines 369-375), a heading (lines
  380-383), a bullet (lines 389-392), a paragraph (lines 396-397).\<close>

definition start_code_block :: "conv_state \<Rightarrow> string \<Rightarrow> conv_state" where
  "start_code_block st lang_tail =
     (close_list st)\<lparr>in_code_block := True, code_lang := strip lang_tail, code_lines := []\<rparr>"

definition end_code_block :: "conv_cfg \<Rightarrow> conv_state \<Rightarrow> conv_state" where
  "end_code_block cfg st =
     (let st1 = close_list st in
      case emit_fenced_block cfg st1 (code_lang st1) (py_join [NL] (code_lines st1)) of
        (out, st2) \<Rightarrow> (add_part out st2)\<lparr>in_code_block := False, code_lang := [], code_lines := []\<rparr>)"

definition add_heading :: "conv_state \<Rightarrow> nat \<Rightarrow> string \<Rightarrow> conv_state" where
  "add_heading st level txt =
     add_part (''<h'' @ string_of_nat level @ ''>'' @ render_inline (strip txt)
               @ ''</h'' @ string_of_nat level @ ''>'') (close_list st)"

definition add_bullet :: "conv_state \<Rightarrow> string \<Rightarrow> conv_state" where
  "add_bullet st txt =
     (let st1 = (if in_ul st then st else (add_part ''<ul>'' st)\<lparr>in_ul := True\<rparr>)
      in add_part (''<li>'' @ render_inline (strip txt) @ ''</li>'') st1)"

definition add_paragraph :: "conv_state \<Rightarrow> string \<Rightarrow> conv_state" where
  "add_paragraph st stripped = add_part (''<p>'' @ render_inline stripped @ ''</p>'') (close_list st)"

text \<open>One iteration of the \<open>while\<close> loop (lines 338-398) at the current line
  \<open>raw_line\<close> with the lines \<open>rest\<close> after it: the next state and the lines still to
  read, or \<open>None\<close> for the exception of the table renderer.\<close>

definition conv_step ::
  "conv_cfg \<Rightarrow> conv_state \<Rightarrow> string \<Rightarrow> string list \<Rightarrow> (conv_state \<times> string list) option" where
  "conv_step cfg st raw_line rest =
     (let line = rstrip raw_line; stripped = strip line in
      case fence_match stripped of
        Some lang_tail \<Rightarrow>
          (if \<not> in_code_block st then Some (start_code_block st lang_tail, rest)
           else Some (end_code_block cfg st, rest))
      | None \<Rightarrow>
      if in_code_block st then Some (st\<lparr>code_lines := code_lines st @ [raw_line]\<rparr>, rest)
      else if stripped = [] then Some (close_list st, rest)
      else if rest \<noteq> [] \<and> looks_like_table_header raw_line (hd rest)
      then (let body = takeWhile looks_like_table_row (tl rest);
                rest' = dropWhile looks_like_table_row (tl rest)
            in case render_markdown_table (raw_line # hd rest # body) of
                 None \<Rightarrow> None
               | Some tbl \<Rightarrow> Some (add_part tbl (close_list st), rest'))
      else (case heading_match stripped of
              Some (level, txt) \<Rightarrow> Some (add_heading st level txt, rest)
            | None \<Rightarrow>
            (case bullet_match stripped of
               Some txt \<Rightarrow> Some (add_bullet st txt, rest)
             | None \<Rightarrow> Some (add_paragraph st stripped, rest))))"

lemma conv_step_rest:
  "conv_step cfg st l rest = Some (st', rest') \<Longrightarrow> length rest' \<le> length rest"
  by (auto simp: conv_step_def Let_def split: option.splits if_splits
           intro: le_trans [OF length_dropWhile_le])

function conv_loop :: "conv_cfg \<Rightarrow> conv_state \<Rightarrow> string list \<Rightarrow> conv_state option" where
  "conv_loop cfg st [] = Some st"
| "conv_loop cfg st (raw_line # rest) =
     (case conv_step cfg st raw_line rest of
        None \<Rightarrow> None
      | Some (st', rest') \<Rightarrow> conv_loop cfg st' rest')"
  by pat_completeness auto
termination
  by (relation "measure (\<lambda>(cfg, st, ls). length ls)")
     (auto simp: less_Suc_eq_le dest: conv_step_rest)

text \<open>After the loop (lines 400-403): close the list, flush an unterminated code block,
  and never return an empty body.\<close>

definition flush_code_block :: "conv_cfg \<Rightarrow> conv_state \<Rightarrow> conv_state" where
  "flush_code_block cfg st =
     (if in_code_block st
      then (case emit_fenced_block cfg st (code_lang st) (py_join [NL] (code_lines st)) of
              (out, st') \<Rightarrow> add_part out st')
      else st)"

definition conv_finish :: "conv_cfg \<Rightarrow> conv_state \<Rightarrow> string \<times> conv_state" where
  "conv_finish cfg st =
     (let st2 = flush_code_block cfg (close_list st)
      in (if parts st2 = [] then ''<p></p>'' else py_join [NL] (parts st2), st2))"

definition simple_markdown_to_html ::
  "conv_cfg \<Rightarrow> mermaid_image_plan list option \<Rightarrow> string \<Rightarrow> (string \<times> mermaid_image_plan list option) option" where
  "simple_markdown_to_html cfg ps markdown_text =
     (case conv_loop cfg (init_state ps) (splitlines False markdown_text) of
        None \<Rightarrow> None
      | Some st \<Rightarrow> (case conv_finish cfg st of (html, st') \<Rightarrow> Some (html, plans st')))"

text \<open>\<open>markdown_to_html\<close>: the external renderers are inputs, the output of pandoc when
  it is installed and exits with 0, and that of the \<open>markdown\<close> package when it imports
  and renders without an exception.\<close>

definition normalize_mode :: "string \<Rightarrow> string" where
  "normalize_mode m = (let n = strip (lower m) in if n = [] then ''code'' else n)"

definition markdown_to_html ::
  "string option \<Rightarrow> string option \<Rightarrow> conv_cfg \<Rightarrow> mermaid_image_plan list option \<Rightarrow> string
   \<Rightarrow> (string \<times> mermaid_image_plan list option) option" where
  "markdown_to_html pandoc_out lib_out cfg ps markdown_text =
     (let mode = normalize_mode (mermaid_mode cfg); cfg' = cfg\<lparr>mermaid_mode := mode\<rparr> in
      if mode = ''macro'' \<or> mode = ''attachment''
      then simple_markdown_to_html cfg' ps markdown_text
      else (case pandoc_out of
              Some out \<Rightarrow> if strip out \<noteq> [] then Some (out, ps)
                          else (case lib_out of
                                  Some r \<Rightarrow> if strip r \<noteq> [] then Some (r, ps) else simple_markdown_to_html cfg' ps markdown_text
                                | None \<Rightarrow> simple_markdown_to_html cfg' ps markdown_text)
            | None \<Rightarrow> (case lib_out of
                         Some r \<Rightarrow> if strip r \<noteq> [] then Some (r, ps) else simple_markdown_to_html cfg' ps markdown_text
                       | None \<Rightarrow> simple_markdown_to_html cfg' ps markdown_text)))"

text \<open>The keyword defaults of \<open>simple_markdown_to_html\<close> and \<open>markdown_to_html\<close>
  (lines 178-180, 409-411).\<close>

definition default_cfg :: conv_cfg where
  "default_cfg = \<lparr>mermaid_mode = ''code'', mermaid_image_prefix = None, mermaid_image_width = 1000\<rparr>"

subsection \<open>Invariants of the converter state\<close>

text \<open>Every emitted part is non-empty, and a fenced block is never open inside a list
  (the opening fence closes the list).\<close>

definition conv_inv :: "conv_state \<Rightarrow> bool" where
  "conv_inv st \<longleftrightarrow> (\<forall>p\<in>set (parts st). p \<noteq> []) \<and> (in_code_block st \<longrightarrow> \<not> in_ul st)"

text \<open>In attachment mode with a plan list, the plans recorded so far carry the file
  names \<open>1 .. mermaid_image_count\<close> in order.\<close>

definition plan_inv :: "conv_cfg \<Rightarrow> conv_state \<Rightarrow> bool" where
  "plan_inv cfg st \<longleftrightarrow>
     (case plans st of None \<Rightarrow> True
      | Some ps \<Rightarrow> map filename ps = map (build_mermaid_image_name (image_prefix cfg)) [1..<Suc (mermaid_image_count st)])"

text \<open>The states of the line cursor reachable from the initial state of a call
  (the caller passes \<open>None\<close> or a fresh empty plan list) by steps of the loop.\<close>

inductive conv_reach :: "conv_cfg \<Rightarrow> conv_state \<Rightarrow> bool" for cfg where
  reach_none: "conv_reach cfg (init_state None)"
| reach_fresh: "conv_reach cfg (init_state (Some []))"
| reach_step: "conv_reach cfg st \<Longrightarrow> conv_step cfg st l rest = Some (st', rest') \<Longrightarrow> conv_reach cfg st'"

subsection \<open>Totality of the loop\<close>

lemma emit_fenced_block_state:
  "emit_fenced_block cfg st l c = (out, st') \<Longrightarrow>
   parts st' = parts st \<and> in_ul st' = in_ul st \<and> in_code_block st' = in_code_block st \<and>
   code_lang st' = code_lang st \<and> code_lines st' = code_lines st"
  by (auto simp: emit_fenced_block_def Let_def split: if_splits)

lemma emit_fenced_block_nonempty:
  "emit_fenced_block cfg st l c = (out, st') \<Longrightarrow> out \<noteq> []"
  by (auto simp: emit_fenced_block_def Let_def emit_mermaid_macro_def emit_code_macro_def
                 emit_mermaid_image_macro_def split: if_splits)

lemma render_markdown_table_not_None:
  "looks_like_table_header h s \<Longrightarrow> render_markdown_table (h # s # rows) \<noteq> None"
  using render_markdown_table_total by fastforce

lemma conv_step_total: "conv_step cfg st l rest \<noteq> None"
  by (auto simp: conv_step_def Let_def render_markdown_table_not_None split: option.splits)

lemma conv_loop_total: "\<exists>st'. conv_loop cfg st ls = Some st'"
  by (induction cfg st ls rule: conv_loop.induct)
     (auto split: option.splits simp: conv_step_total)

text \<open>An invariant kept by every step is kept by the loop.\<close>

lemma conv_loop_preserves:
  "(\<And>st l rest st' rest'. P st \<Longrightarrow> conv_step cfg st l rest = Some (st', rest') \<Longrightarrow> P st') \<Longrightarrow>
   P st \<Longrightarrow> conv_loop cfg st ls = Some st' \<Longrightarrow> P st'"
proof (induction cfg st ls rule: conv_loop.induct)
  case (1 cfg st)
  then show ?case by simp
next
  case (2 cfg st raw_line rest)
  then obtain st1 rest1 where s: "conv_step cfg st raw_line rest = Some (st1, rest1)"
    and l: "conv_loop cfg st1 rest1 = Some st'" by (auto split: option.splits)
  from "2.prems"(1,2) s have "P st1" by blast
  with "2.IH" [OF s refl] "2.prems"(1) l show ?case by blast
qed

subsection \<open>The state invariant\<close>

lemma conv_inv_init: "conv_inv (init_state ps)"
  by (simp add: conv_inv_def init_state_def)

lemma conv_inv_add_part: "conv_inv st \<Longrightarrow> p \<noteq> [] \<Longrightarrow> conv_inv (add_part p st)"
  by (simp add: conv_inv_def add_part_def)

lemma conv_inv_close_list: "conv_inv st \<Longrightarrow> conv_inv (close_list st)"
  by (auto simp: conv_inv_def close_list_def add_part_def)

lemma in_ul_close_list [simp]: "\<not> in_ul (close_list st)"
  by (simp add: close_list_def)

lemma in_code_block_close_list [simp]: "in_code_block (close_list st) = in_code_block st"
  and code_lang_close_list [simp]: "code_lang (close_list st) = code_lang st"
  and code_lines_close_list [simp]: "code_lines (close_list st) = code_lines st"
  and count_close_list [simp]: "mermaid_image_count (close_list st) = mermaid_image_count st"
  and plans_close_list [simp]: "plans (close_list st) = plans st"
  by (simp_all add: close_list_def add_part_def)

lemma conv_inv_end_code_block:
  assumes "conv_inv st" shows "conv_inv (end_code_block cfg st)"
proof -
  obtain out st2 where e: "emit_fenced_block cfg (close_list st) (code_lang st)
      (py_join [NL] (code_lines st)) = (out, st2)" by fastforce
  have "conv_inv (close_list st)" using assms by (rule conv_inv_close_list)
  moreover have "parts st2 = parts (close_list st)" "out \<noteq> []"
    using emit_fenced_block_state [OF e] emit_fenced_block_nonempty [OF e] by simp_all
  ultimately show ?thesis
    using e by (simp add: end_code_block_def conv_inv_def add_part_def)
qed

lemma conv_inv_step:
  assumes "conv_inv st" "conv_step cfg st l rest = Some (st', rest')"
  shows "conv_inv st'"
proof -
  have c: "conv_inv (close_list st)" using assms(1) by (rule conv_inv_close_list)
  have "conv_inv (start_code_block st t)" for t
    using c by (simp add: start_code_block_def conv_inv_def)
  moreover have "conv_inv (add_heading st n t)" for n t
    using c by (simp add: add_heading_def conv_inv_add_part)
  moreover have "conv_inv (add_paragraph st t)" for t
    using c by (simp add: add_paragraph_def conv_inv_add_part)
  moreover have "\<not> in_code_block st \<Longrightarrow> conv_inv (add_bullet st t)" for t
    using assms(1) by (auto simp: add_bullet_def conv_inv_def add_part_def Let_def)
  moreover have "in_code_block st \<Longrightarrow> conv_inv (st\<lparr>code_lines := code_lines st @ [l]\<rparr>)"
    using assms(1) by (simp add: conv_inv_def)
  moreover have "conv_inv (add_part tbl (close_list st))" if "tbl \<noteq> []" for tbl
    using c that by (rule conv_inv_add_part)
  moreover have "render_markdown_table ls = Some tbl \<Longrightarrow> tbl \<noteq> []" for ls tbl
    by (auto simp: render_markdown_table_def Let_def split: list.splits option.splits)
  ultimately show ?thesis
    using assms c conv_inv_end_code_block [OF assms(1)]
    by (auto simp: conv_step_def Let_def split: option.splits if_splits)
qed

lemma conv_loop_inv: "conv_inv st \<Longrightarrow> conv_loop cfg st ls = Some st' \<Longrightarrow> conv_inv st'"
  by (rule conv_loop_preserves [where P = conv_inv]) (auto intro: conv_inv_step)

lemma py_join_nonempty: "xs \<noteq> [] \<Longrightarrow> hd xs \<noteq> [] \<Longrightarrow> py_join sep xs \<noteq> []"
  by (cases xs; cases "tl xs") auto

lemma conv_inv_flush:
  assumes "conv_inv st" shows "\<forall>p\<in>set (parts (flush_code_block cfg st)). p \<noteq> []"
proof -
  obtain out st2 where e: "emit_fenced_block cfg st (code_lang st) (py_join [NL] (code_lines st)) = (out, st2)"
    by fastforce
  have "parts st2 = parts st" "out \<noteq> []"
    using emit_fenced_block_state [OF e] emit_fenced_block_nonempty [OF e] by simp_all
  with assms e show ?thesis
    by (simp add: flush_code_block_def conv_inv_def add_part_def)
qed

lemma simple_markdown_to_html_nonempty:
  "\<exists>html ps'. simple_markdown_to_html cfg ps text = Some (html, ps') \<and> html \<noteq> []"
proof -
  obtain st where l: "conv_loop cfg (init_state ps) (splitlines False text) = Some st"
    using conv_loop_total by blast
  have "conv_inv st" using conv_loop_inv [OF conv_inv_init l] .
  then have "\<forall>p\<in>set (parts (flush_code_block cfg (close_list st))). p \<noteq> []"
    by (intro conv_inv_flush conv_inv_close_list)
  then have "fst (conv_finish cfg st) \<noteq> []"
  proof -
    let ?ps = "parts (flush_code_block cfg (close_list st))"
    assume ne: "\<forall>p\<in>set ?ps. p \<noteq> []"
    have "?ps \<noteq> [] \<Longrightarrow> py_join [NL] ?ps \<noteq> []"
      using ne hd_in_set [of ?ps] py_join_nonempty [of ?ps] by blast
    then show ?thesis by (simp add: conv_finish_def Let_def)
  qed
  with l show ?thesis
    by (auto simp: simple_markdown_to_html_def split: prod.splits)
qed

subsection \<open>The Mermaid plan\<close>

lemma plan_inv_init: "plan_inv cfg (init_state (Some []))"
  by (simp add: plan_inv_def init_state_def)

lemma plan_inv_cong:
  "plans st' = plans st \<Longrightarrow> mermaid_image_count st' = mermaid_image_count st \<Longrightarrow>
   plan_inv cfg st' = plan_inv cfg st"
  unfolding plan_inv_def by (simp only:)

lemma plan_inv_steps [simp]:
  "plan_inv cfg (add_part p st) = plan_inv cfg st"
  "plan_inv cfg (close_list st) = plan_inv cfg st"
  "plan_inv cfg (start_code_block st t) = plan_inv cfg st"
  "plan_inv cfg (add_heading st n t) = plan_inv cfg st"
  "plan_inv cfg (add_bullet st t) = plan_inv cfg st"
  "plan_inv cfg (add_paragraph st t) = plan_inv cfg st"
  "plan_inv cfg (st\<lparr>code_lines := cl\<rparr>) = plan_inv cfg st"
  by (rule plan_inv_cong;
      simp add: add_part_def start_code_block_def add_heading_def add_bullet_def
                add_paragraph_def Let_def)+

lemma plan_inv_emit:
  assumes a: "plan_inv cfg st" and e: "emit_fenced_block cfg st l c = (out, st')"
  shows "plan_inv cfg st'"
proof (cases "mermaid_mode cfg = ''attachment'' \<and> is_mermaid_lang l")
  case True
  then have "plans st' = map_option (\<lambda>ps. ps @ [\<lparr>filename = build_mermaid_image_name (image_prefix cfg)
      (Suc (mermaid_image_count st)), mermaid_source = c\<rparr>]) (plans st)"
    and "mermaid_image_count st' = Suc (mermaid_image_count st)"
    using e by (auto simp: emit_fenced_block_def Let_def)
  with a show ?thesis by (auto simp: plan_inv_def split: option.splits)
next
  case False
  then have "st' = st" using e by (auto simp: emit_fenced_block_def Let_def split: if_splits)
  with a show ?thesis by simp
qed

lemma plan_inv_end_code_block:
  assumes a: "plan_inv cfg st" shows "plan_inv cfg (end_code_block cfg st)"
proof -
  obtain out st2 where e: "emit_fenced_block cfg (close_list st) (code_lang st)
      (py_join [NL] (code_lines st)) = (out, st2)" by fastforce
  have "plan_inv cfg st2" using plan_inv_emit [OF _ e] a by simp
  moreover have "plan_inv cfg (end_code_block cfg st) = plan_inv cfg st2"
    using e by (intro plan_inv_cong) (simp_all add: end_code_block_def add_part_def)
  ultimately show ?thesis by simp
qed

lemma plan_inv_step:
  "plan_inv cfg st \<Longrightarrow> conv_step cfg st l rest = Some (st', rest') \<Longrightarrow> plan_inv cfg st'"
  by (auto simp: conv_step_def Let_def plan_inv_end_code_block split: option.splits if_splits)

lemma plan_inv_flush: "plan_inv cfg st \<Longrightarrow> plan_inv cfg (flush_code_block cfg st)"
  by (auto simp: flush_code_block_def split: prod.splits dest: plan_inv_emit)

lemma simple_markdown_to_html_plans:
  assumes "simple_markdown_to_html cfg (Some []) text = Some (html, Some ps)"
  shows "map filename ps = map (build_mermaid_image_name (image_prefix cfg)) [1..<Suc (length ps)]"
proof -
  obtain st where l: "conv_loop cfg (init_state (Some [])) (splitlines False text) = Some st"
    using conv_loop_total by blast
  have "plan_inv cfg st"
    by (rule conv_loop_preserves [where P = "plan_inv cfg", OF plan_inv_step plan_inv_init l])
  then have "plan_inv cfg (flush_code_block cfg (close_list st))"
    by (intro plan_inv_flush) simp
  moreover have "plans (flush_code_block cfg (close_list st)) = Some ps"
    using assms l by (simp add: simple_markdown_to_html_def conv_finish_def Let_def)
  ultimately have "map filename ps = map (build_mermaid_image_name (image_prefix cfg))
      [1..<Suc (mermaid_image_count (flush_code_block cfg (close_list st)))]"
    by (simp add: plan_inv_def)
  moreover from this have "length ps = mermaid_image_count (flush_code_block cfg (close_list st))"
    by (metis diff_Suc_1 length_map length_upt)
  ultimately show ?thesis by simp
qed

text \<open>C9: In attachment mode, the file names of the Mermaid plans of one document are
  pairwise distinct, provided the sanitised title leaves room for the index (at most 169
  characters) and the document has fewer than 100 diagrams.\<close>

theorem plan_filenames_distinct:
  assumes "simple_markdown_to_html cfg (Some []) text = Some (html, Some ps)"
    and "length (strip (filter name_char (image_prefix cfg))) \<le> 169" "length ps < 100"
  shows "distinct (map filename ps)"
proof -
  have inj: "inj_on (build_mermaid_image_name (image_prefix cfg)) (set [1..<Suc (length ps)])"
    using assms(2,3) by (auto intro!: inj_onI image_names_distinct)
  have "distinct (map (build_mermaid_image_name (image_prefix cfg)) [1..<Suc (length ps)])"
    unfolding distinct_map by (rule conjI [OF distinct_upt inj])
  then show ?thesis
    by (simp only: simple_markdown_to_html_plans [OF assms(1)])
qed

theorem plan_filenames_distinct_witness:
  "\<exists>html ps. simple_markdown_to_html (default_cfg\<lparr>mermaid_mode := ''attachment''\<rparr>) (Some [])
      (''```mermaid'' @ [NL] @ ''a'' @ [NL] @ ''```'' @ [NL] @ ''```mmd'' @ [NL] @ ''b'' @ [NL] @ ''```'')
      = Some (html, Some ps) \<and> length ps = 2 \<and> distinct (map filename ps)"
proof -
  let ?cfg = "default_cfg\<lparr>mermaid_mode := ''attachment''\<rparr>"
  let ?t = "''```mermaid'' @ [NL] @ ''a'' @ [NL] @ ''```'' @ [NL] @ ''```mmd'' @ [NL] @ ''b'' @ [NL] @ ''```''"
  obtain html ps where r: "simple_markdown_to_html ?cfg (Some []) ?t = Some (html, Some ps)"
    and n: "length ps = 2"
  proof -
    have "case simple_markdown_to_html ?cfg (Some []) ?t of
            Some (h, Some p) \<Rightarrow> length p = 2 | _ \<Rightarrow> False"
      by code_simp
    then show ?thesis using that by (auto split: option.splits prod.splits)
  qed
  have "length (strip (filter name_char (image_prefix ?cfg))) \<le> 169" by code_simp
  with r n have "distinct (map filename ps)" using plan_filenames_distinct by simp
  with r n show ?thesis by blast
qed

subsection \<open>Properties of the conversion\<close>

text \<open>C5: \<open>markdown_to_html\<close> always returns a body, whatever the external renderers do
  (missing, failing, or printing only whitespace), and the body is never empty: the
  error kind \<open>ConversionFailure\<close> cannot occur and an empty document still gives
  \<open><p></p>\<close>.\<close>

theorem markdown_to_html_nonempty:
  "\<exists>html ps'. markdown_to_html pandoc_out lib_out cfg ps text = Some (html, ps') \<and> html \<noteq> []"
  using simple_markdown_to_html_nonempty
  by (auto simp: markdown_to_html_def Let_def strip_def rstrip_def lstrip_def split: option.splits)

text \<open>C8: Every state the line cursor reaches from the start of a call satisfies the
  part invariant (no empty part, no open fence inside an open list) and the plan
  invariant (plans numbered \<open>1 .. mermaid_image_count\<close>).\<close>

theorem conv_reach_inv: "conv_reach cfg st \<Longrightarrow> conv_inv st \<and> plan_inv cfg st"
proof (induction rule: conv_reach.induct)
  case reach_none
  then show ?case using conv_inv_init [of None] by (simp add: plan_inv_def init_state_def)
next
  case reach_fresh
  then show ?case by (simp add: conv_inv_init plan_inv_init)
next
  case (reach_step st l rest st' rest')
  then show ?case by (blast intro: conv_inv_step plan_inv_step)
qed

theorem conv_reach_inv_witness:
  "conv_inv (add_heading (init_state None) 1 '' Hi'') \<and> plan_inv default_cfg (add_heading (init_state None) 1 '' Hi'')"
proof -
  have "conv_step default_cfg (init_state None) ''# Hi'' [] = Some (add_heading (init_state None) 1 '' Hi'', [])"
    by code_simp
  then show ?thesis by (rule conv_reach_inv [OF conv_reach.reach_step [OF conv_reach.reach_none]])
qed

text \<open>Single-paragraph round trip: a one-line document that is none of the recognised
  block kinds (fence, heading, bullet; a table needs two lines) becomes exactly one
  paragraph wrapping the inline rendering of the stripped text, and the plan list is
  returned unchanged.\<close>

theorem single_paragraph:
  assumes "\<forall>c\<in>set s. \<not> is_linebreak c" "strip s \<noteq> []" "fence_match (strip s) = None"
    "heading_match (strip s) = None" "bullet_match (strip s) = None"
  shows "simple_markdown_to_html cfg ps s = Some (''<p>'' @ render_inline (strip s) @ ''</p>'', ps)"
proof -
  have "s \<noteq> []" using assms(2) by (auto simp: strip_def lstrip_def rstrip_def)
  then have l: "splitlines False s = [s]" using assms(1) by (rule splitlines_single [rotated])
  show ?thesis
    using assms(2-5)
    by (simp add: simple_markdown_to_html_def l conv_step_def Let_def strip_rstrip init_state_def
                  add_paragraph_def close_list_def add_part_def conv_finish_def flush_code_block_def)
qed

theorem single_paragraph_witness:
  "simple_markdown_to_html default_cfg None ''Hello *World*'' = Some (''<p>Hello <em>World</em></p>'', None)"
proof -
  have h: "\<forall>c\<in>set ''Hello *World*''. \<not> is_linebreak c" "strip ''Hello *World*'' \<noteq> []"
    "fence_match (strip ''Hello *World*'') = None" "heading_match (strip ''Hello *World*'') = None"
    "bullet_match (strip ''Hello *World*'') = None"
    by code_simp+
  have "render_inline (strip ''Hello *World*'') = ''Hello <em>World</em>''" by code_simp
  with single_paragraph [OF h, of default_cfg None] show ?thesis by simp
qed

end
