(* ===== verification/Publish.thy ===== *)
theory Publish
  imports Client Converter "HOL-Library.Sublist"
begin

text \<open>
  The reconciliation engine of the skills copy: \<open>publish_document\<close> (lines 721-811)
  with the diagram upload \<open>upload_mermaid_image_attachments\<close> (lines 675-699) and the
  renderer chain \<open>render_mermaid_svg_bytes\<close> (lines 665-672, with
  \<open>render_mermaid_svg\<close>, lines 51-60). The renderers outside the program are inputs:
  pandoc and the \<open>markdown\<close> package (their output for a text, or \<open>None\<close>), the local
  \<open>mmdc\<close> run (the SVG bytes or \<open>None\<close>, \<open>render_mermaid_svg_local\<close>) and the body
  the \<open>mermaid.ink\<close> service answers (or \<open>None\<close> when the request raises).
\<close>

record renderers =
  pandoc :: "string \<Rightarrow> string option"
  markdown_lib :: "string \<Rightarrow> string option"
  mmdc :: "string \<Rightarrow> string option"
  mermaid_ink :: "string \<Rightarrow> string option"

section \<open>Diagram images\<close>

definition render_mermaid_svg :: "renderers \<Rightarrow> string \<Rightarrow> string option" where
  "render_mermaid_svg rd src =
     (case mermaid_ink rd src of
        None \<Rightarrow> None
      | Some svg \<Rightarrow> if contains ''<svg'' svg then Some svg else None)"

definition render_mermaid_svg_bytes :: "renderers \<Rightarrow> string \<Rightarrow> string option" where
  "render_mermaid_svg_bytes rd src =
     (let remote = (case render_mermaid_svg rd src of
                      Some s \<Rightarrow> if s \<noteq> [] then Some s else None
                    | None \<Rightarrow> None)
      in case mmdc rd src of
           Some b \<Rightarrow> if b \<noteq> [] then Some b else remote
         | None \<Rightarrow> remote)"

text \<open>The placeholder image when no renderer produced one: the first 300 characters of
  the source, escaped.\<close>

definition placeholder_svg :: "string \<Rightarrow> string" where
  "placeholder_svg src =
     ''<svg xmlns='' @ [SQ] @ ''http://www.w3.org/2000/svg'' @ [SQ] @ '' width='' @ [SQ] @ ''960'' @ [SQ]
     @ '' height='' @ [SQ] @ ''180'' @ [SQ] @ ''>''
     @ ''<rect width='' @ [SQ] @ ''100%'' @ [SQ] @ '' height='' @ [SQ] @ ''100%'' @ [SQ]
     @ '' fill='' @ [SQ] @ ''#f5f5f5'' @ [SQ] @ '' stroke='' @ [SQ] @ ''#999'' @ [SQ] @ ''/>''
     @ ''<text x='' @ [SQ] @ ''20'' @ [SQ] @ '' y='' @ [SQ] @ ''40'' @ [SQ]
     @ '' font-family='' @ [SQ] @ ''monospace'' @ [SQ] @ '' font-size='' @ [SQ] @ ''18'' @ [SQ] @ ''>''
     @ ''Mermaid render failed. Showing source below.''
     @ ''</text>''
     @ ''<text x='' @ [SQ] @ ''20'' @ [SQ] @ '' y='' @ [SQ] @ ''80'' @ [SQ]
     @ '' font-family='' @ [SQ] @ ''monospace'' @ [SQ] @ '' font-size='' @ [SQ] @ ''14'' @ [SQ] @ ''>''
     @ html_escape (take 300 src)
     @ ''</text></svg>''"

definition svg_for_plan :: "renderers \<Rightarrow> mermaid_image_plan \<Rightarrow> string" where
  "svg_for_plan rd plan =
     (case render_mermaid_svg_bytes rd (mermaid_source plan) of
        Some b \<Rightarrow> if b \<noteq> [] then b else placeholder_svg (mermaid_source plan)
      | None \<Rightarrow> placeholder_svg (mermaid_source plan))"

fun upload_mermaid_image_attachments ::
  "'w server \<Rightarrow> renderers \<Rightarrow> string \<Rightarrow> mermaid_image_plan list \<Rightarrow> ('w, unit) client" where
  "upload_mermaid_image_attachments srv rd pid [] = ret ()"
| "upload_mermaid_image_attachments srv rd pid (plan # ps) =
     cbind (upload_attachment_bytes srv pid (filename plan) (svg_for_plan rd plan))
       (\<lambda>_. upload_mermaid_image_attachments srv rd pid ps)"

section \<open>publish_document\<close>

text \<open>The keyword arguments of \<open>publish_document\<close> other than the client and the
  document, and the \<open>PublishResult\<close> dataclass (lines 36-42).\<close>

record publish_cfg =
  space_id :: string
  default_parent_id :: "string option"
  default_labels :: "string list"
  create_if_missing :: bool
  update_if_title_match :: bool
  dry_run :: bool
  mode :: string
  image_width :: int

record publish_result =
  action :: string
  res_page_id :: "string option"
  res_title :: string
  res_path :: string
  message :: string

definition mk_result :: "string \<Rightarrow> string option \<Rightarrow> document \<Rightarrow> string \<Rightarrow> publish_result" where
  "mk_result a pid doc msg = \<lparr>action = a, res_page_id = pid, res_title = title doc, res_path = path doc, message = msg\<rparr>"

text \<open>Python's truth value of an optional string, and \<open>int(page.get("version", {})
  .get("number", 1))\<close> of a page object (the empty object \<open>{}\<close> included).\<close>

definition truthy :: "string option \<Rightarrow> bool" where
  "truthy s \<longleftrightarrow> s \<noteq> None \<and> s \<noteq> Some []"

definition page_version :: "page_json option \<Rightarrow> int" where
  "page_version p = (case p of None \<Rightarrow> 1 | Some pg \<Rightarrow> (case pj_version pg of None \<Rightarrow> 1 | Some n \<Rightarrow> n))"

text \<open>The body and the plans: \<open>markdown_to_html\<close> with the title as image prefix and a
  fresh plan list.\<close>

definition convert_doc :: "renderers \<Rightarrow> publish_cfg \<Rightarrow> document \<Rightarrow> (string \<times> mermaid_image_plan list) option" where
  "convert_doc rd cfg doc =
     (case markdown_to_html (pandoc rd (body_markdown doc)) (markdown_lib rd (body_markdown doc))
             \<lparr>mermaid_mode = mode cfg, mermaid_image_prefix = Some (title doc), mermaid_image_width = image_width cfg\<rparr>
             (Some []) (body_markdown doc) of
        None \<Rightarrow> None
      | Some (html, ps) \<Rightarrow> Some (html, case ps of None \<Rightarrow> [] | Some l \<Rightarrow> l))"

text \<open>The page that is already there: by explicit id, by title when updates by title
  are enabled, or none (lines 738-742).\<close>

definition lookup_existing :: "'w server \<Rightarrow> publish_cfg \<Rightarrow> document \<Rightarrow> ('w, page_json option) client" where
  "lookup_existing srv cfg doc =
     (if truthy (page_id doc) then get_page srv (the (page_id doc))
      else if update_if_title_match cfg then find_page_by_title srv (space_id cfg) (title doc)
      else ret None)"

definition upload_if_attachment ::
  "'w server \<Rightarrow> renderers \<Rightarrow> publish_cfg \<Rightarrow> string \<Rightarrow> mermaid_image_plan list \<Rightarrow> ('w, unit) client" where
  "upload_if_attachment srv rd cfg pid image_plans =
     (if mode cfg = ''attachment'' \<and> image_plans \<noteq> [] then upload_mermaid_image_attachments srv rd pid image_plans
      else ret ())"

text \<open>The update branch (lines 744-778), from the page found.\<close>

definition publish_update ::
  "'w server \<Rightarrow> renderers \<Rightarrow> publish_cfg \<Rightarrow> document \<Rightarrow> string \<Rightarrow> mermaid_image_plan list \<Rightarrow> string
   \<Rightarrow> page_json \<Rightarrow> ('w, publish_result) client" where
  "publish_update srv rd cfg doc body_html image_plans img_msg existing =
     (let pid = pj_id existing;
          target_parent = py_or (parent_id doc) (default_parent_id cfg);
          lbls = merge_labels (default_labels cfg) (labels doc)
      in if \<not> update_if_title_match cfg \<and> \<not> truthy (page_id doc)
         then ret (mk_result ''skipped'' (Some pid) doc ''exists and update disabled'')
         else cbind (if truthy (page_id doc) then ret (Some existing) else get_page srv pid) (\<lambda>current_page.
           (let current_version = page_version current_page; next_version = current_version + 1 in
            if dry_run cfg
            then ret (mk_result ''dry-update'' (Some pid) doc
                       (''would update version '' @ string_of_int current_version @ '' -> ''
                        @ string_of_int next_version @ img_msg))
            else cbind (upload_if_attachment srv rd cfg pid image_plans) (\<lambda>_.
                 cbind (update_page srv pid (title doc) body_html next_version target_parent) (\<lambda>updated.
                   case updated of
                     None \<Rightarrow> raise (BadResponse (UpdatePage pid (title doc) body_html next_version
                                                 (parent_field target_parent)))
                   | Some upd \<Rightarrow>
                       cbind (add_labels srv (pj_id upd) lbls) (\<lambda>_.
                         ret (mk_result ''updated'' (Some (pj_id upd)) doc [])))))))"

text \<open>The create branch (lines 780-811).\<close>

definition publish_create ::
  "'w server \<Rightarrow> renderers \<Rightarrow> publish_cfg \<Rightarrow> document \<Rightarrow> string \<Rightarrow> mermaid_image_plan list \<Rightarrow> string
   \<Rightarrow> ('w, publish_result) client" where
  "publish_create srv rd cfg doc body_html image_plans img_msg =
     (let target_parent = py_or (parent_id doc) (default_parent_id cfg);
          lbls = merge_labels (default_labels cfg) (labels doc)
      in if \<not> create_if_missing cfg then ret (mk_result ''skipped'' None doc ''not found and create disabled'')
         else if dry_run cfg then ret (mk_result ''dry-create'' None doc (''would create new page'' @ img_msg))
         else cbind (create_page srv (space_id cfg) (title doc) body_html target_parent) (\<lambda>created.
           case created of
             None \<Rightarrow> raise (BadResponse (CreatePage (space_id cfg) (title doc) body_html
                                         (parent_field target_parent)))
           | Some cr \<Rightarrow>
               cbind (upload_if_attachment srv rd cfg (pj_id cr) image_plans) (\<lambda>_.
                 cbind (add_labels srv (pj_id cr) lbls) (\<lambda>_.
                   ret (mk_result ''created'' (Some (pj_id cr)) doc [])))))"

definition publish_document ::
  "'w server \<Rightarrow> renderers \<Rightarrow> publish_cfg \<Rightarrow> document \<Rightarrow> ('w, publish_result) client" where
  "publish_document srv rd cfg doc =
     (case convert_doc rd cfg doc of
        None \<Rightarrow> raise ConversionFailed
      | Some (body_html, image_plans) \<Rightarrow>
          (let img_msg = (if mode cfg = ''attachment'' \<and> image_plans \<noteq> []
                          then ''; mermaid images='' @ string_of_nat (length image_plans) else [])
           in cbind (lookup_existing srv cfg doc) (\<lambda>existing.
                case existing of
                  Some ex \<Rightarrow> publish_update srv rd cfg doc body_html image_plans img_msg ex
                | None \<Rightarrow> publish_create srv rd cfg doc body_html image_plans img_msg)))"

section \<open>Specifications of the request log\<close>

text \<open>The requests \<open>publish_document\<close> may send for a configuration and a document.\<close>

definition pub_request :: "publish_cfg \<Rightarrow> document \<Rightarrow> request \<Rightarrow> bool" where
  "pub_request cfg doc q =
     (case q of
        AddLabels _ ls \<Rightarrow> \<not> dry_run cfg \<and> ls = merge_labels (default_labels cfg) (labels doc) \<and> ls \<noteq> []
      | CreatePage _ _ _ _ \<Rightarrow> \<not> dry_run cfg
      | UpdatePage _ _ _ _ _ \<Rightarrow> \<not> dry_run cfg
      | UploadAttachment _ _ _ _ \<Rightarrow> \<not> dry_run cfg
      | _ \<Rightarrow> True)"

text \<open>The page object of the last \<open>GetPage\<close> answer in a log, and the check that an
  \<open>UpdatePage\<close> request carries one more than that page's version.\<close>

fun last_get :: "call_log \<Rightarrow> page_json option option" where
  "last_get [] = None"
| "last_get (e # es) =
     (case last_get es of
        Some p \<Rightarrow> Some p
      | None \<Rightarrow> (case e of (GetPage _, Some (RPage p)) \<Rightarrow> Some p | _ \<Rightarrow> None))"

definition version_ok :: "call_log \<Rightarrow> request \<Rightarrow> bool" where
  "version_ok pre q =
     (case q of
        UpdatePage _ _ _ v _ \<Rightarrow> (case last_get pre of Some p \<Rightarrow> v = page_version p + 1 | None \<Rightarrow> False)
      | _ \<Rightarrow> True)"

fun versions_ok :: "call_log \<Rightarrow> call_log \<Rightarrow> bool" where
  "versions_ok pre [] = True"
| "versions_ok pre (e # es) = (version_ok pre (fst e) \<and> versions_ok (pre @ [e]) es)"

text \<open>The order the spec prescribes for the writes of one document, as an automaton over
  the log: reads are allowed anywhere; uploads then an update then labels, or a creation
  then uploads then labels.\<close>

datatype phase = Start | Uploading | Created | Updated | Labelled

fun order_step :: "phase \<Rightarrow> request \<Rightarrow> phase option" where
  "order_step Start (UploadAttachment _ _ _ _) = Some Uploading"
| "order_step Uploading (UploadAttachment _ _ _ _) = Some Uploading"
| "order_step Created (UploadAttachment _ _ _ _) = Some Created"
| "order_step Start (UpdatePage _ _ _ _ _) = Some Updated"
| "order_step Uploading (UpdatePage _ _ _ _ _) = Some Updated"
| "order_step Start (CreatePage _ _ _ _) = Some Created"
| "order_step Created (AddLabels _ _) = Some Labelled"
| "order_step Updated (AddLabels _ _) = Some Labelled"
| "order_step ph q = (if is_mutation q then None else Some ph)"

fun run_order :: "phase \<Rightarrow> call_log \<Rightarrow> phase option" where
  "run_order ph [] = Some ph"
| "run_order ph (e # es) = (case order_step ph (fst e) of None \<Rightarrow> None | Some ph' \<Rightarrow> run_order ph' es)"

text \<open>The log is accepted by the automaton and ends in one of the phases \<open>S\<close>.\<close>

definition in_phase :: "phase set \<Rightarrow> call_log \<Rightarrow> bool" where
  "in_phase S l \<longleftrightarrow> (\<exists>ph\<in>S. run_order Start l = Some ph)"

text \<open>The writes of a log, by kind, and the words of writes accepted from each phase.\<close>

datatype mkind = KCreate | KUpload | KUpdate | KLabels

fun kind_of :: "request \<Rightarrow> mkind option" where
  "kind_of (CreatePage _ _ _ _) = Some KCreate"
| "kind_of (UploadAttachment _ _ _ _) = Some KUpload"
| "kind_of (UpdatePage _ _ _ _ _) = Some KUpdate"
| "kind_of (AddLabels _ _) = Some KLabels"
| "kind_of _ = None"

definition mutation_kinds :: "call_log \<Rightarrow> mkind list" where
  "mutation_kinds log = List.map_filter (\<lambda>e. kind_of (fst e)) log"

fun phase_words :: "phase \<Rightarrow> mkind list \<Rightarrow> bool" where
  "phase_words Start ks =
     (\<exists>n. prefix ks (replicate n KUpload @ [KUpdate, KLabels]) \<or> prefix ks (KCreate # replicate n KUpload @ [KLabels]))"
| "phase_words Uploading ks = (\<exists>n. prefix ks (replicate n KUpload @ [KUpdate, KLabels]))"
| "phase_words Created ks = (\<exists>n. prefix ks (replicate n KUpload @ [KLabels]))"
| "phase_words Updated ks = prefix ks [KLabels]"
| "phase_words Labelled ks = (ks = [])"

section \<open>Lemmas\<close>

lemma valid_get_page_inv [client_valid]: "keeps I (GetPage pid) \<Longrightarrow> valid I (get_page srv pid) (\<lambda>_. I) I"
  by (rule valid_conseq [OF valid_get_page]) auto

lemma valid_cbind_inv:
  "valid I m (\<lambda>_. I) I \<Longrightarrow> (\<And>x. valid I (f x) Q I) \<Longrightarrow> valid I (cbind m f) Q I"
  by (rule valid_cbind)

lemma valid_lookup_existing:
  "(\<And>q. \<not> is_mutation q \<Longrightarrow> keeps I q) \<Longrightarrow> valid I (lookup_existing srv cfg doc) (\<lambda>_. I) I"
  unfolding lookup_existing_def
  by (auto intro!: valid_get_page_inv valid_find_page_by_title valid_ret)

lemma valid_upload_images:
  "(\<And>p f. keeps I (FindAttachment p f)) \<Longrightarrow> (\<And>p f e d. keeps I (UploadAttachment p f e d)) \<Longrightarrow>
   valid I (upload_mermaid_image_attachments srv rd pid ps) (\<lambda>_. I) I"
  by (induction ps) (auto intro!: valid_ret valid_cbind [OF valid_upload_attachment])

lemma valid_upload_if:
  "(\<And>p f. keeps I (FindAttachment p f)) \<Longrightarrow> (\<not> dry_run cfg \<Longrightarrow> (\<And>p f e d. keeps I (UploadAttachment p f e d))) \<Longrightarrow>
   \<not> dry_run cfg \<Longrightarrow> valid I (upload_if_attachment srv rd cfg pid ps) (\<lambda>_. I) I"
  unfolding upload_if_attachment_def by (auto intro!: valid_ret valid_upload_images)

lemma valid_publish_requests:
  assumes k: "\<And>q. pub_request cfg doc q \<Longrightarrow> keeps I q"
  shows "valid I (publish_document srv rd cfg doc) (\<lambda>_. I) I"
proof -
  have r: "\<not> is_mutation q \<Longrightarrow> keeps I q" for q
    by (rule k) (cases q; simp add: pub_request_def)
  have u: "\<not> dry_run cfg \<Longrightarrow> keeps I (UploadAttachment p f e d)" for p f e d
    by (rule k) (simp add: pub_request_def)
  have upd: "\<not> dry_run cfg \<Longrightarrow> keeps I (UpdatePage p t b v par)" for p t b v par
    by (rule k) (simp add: pub_request_def)
  have cr: "\<not> dry_run cfg \<Longrightarrow> keeps I (CreatePage s t b par)" for s t b par
    by (rule k) (simp add: pub_request_def)
  have lb: "\<not> dry_run cfg \<Longrightarrow> merge_labels (default_labels cfg) (labels doc) \<noteq> [] \<Longrightarrow>
      keeps I (AddLabels p (merge_labels (default_labels cfg) (labels doc)))" for p
    by (rule k) (simp add: pub_request_def)
  have "valid I (publish_update srv rd cfg doc h ps m ex) (\<lambda>_. I) I" for h ps m ex
    unfolding publish_update_def Let_def
    using r u upd lb
    by (auto intro!: valid_ret valid_raise valid_cbind_inv valid_get_page_inv valid_upload_if
                     valid_update_page valid_add_labels split: option.splits)
  moreover have "valid I (publish_create srv rd cfg doc h ps m) (\<lambda>_. I) I" for h ps m
    unfolding publish_create_def Let_def
    using r u cr lb
    by (auto intro!: valid_ret valid_raise valid_cbind_inv valid_create_page valid_upload_if
                     valid_add_labels split: option.splits)
  ultimately show ?thesis
    unfolding publish_document_def Let_def
    using r by (auto intro!: valid_raise valid_cbind_inv valid_lookup_existing split: option.splits)
qed

lemma keeps_list_all: "P q \<Longrightarrow> keeps (list_all (\<lambda>e. P (fst e))) q"
  by (simp add: keeps_def)

lemma publish_log_requests:
  "publish_document srv rd cfg doc (w, []) = (r, w', log) \<Longrightarrow> list_all (\<lambda>e. pub_request cfg doc (fst e)) log"
proof -
  have v: "valid (list_all (\<lambda>e. pub_request cfg doc (fst e))) (publish_document srv rd cfg doc)
          (\<lambda>_. list_all (\<lambda>e. pub_request cfg doc (fst e))) (list_all (\<lambda>e. pub_request cfg doc (fst e)))"
    by (rule valid_publish_requests) (rule keeps_list_all)
  assume run: "publish_document srv rd cfg doc (w, []) = (r, w', log)"
  have "case r of Inl e \<Rightarrow> list_all (\<lambda>e. pub_request cfg doc (fst e)) log
                   | Inr x \<Rightarrow> list_all (\<lambda>e. pub_request cfg doc (fst e)) log"
    by (rule validD [OF v _ run]) simp
  then show ?thesis by (cases r) simp_all
qed

text \<open>C1: In dry-run mode \<open>publish_document\<close> sends no request that changes the wiki
  (no creation, update, label or upload), whatever the server answers: the spec's
  "no remote mutation performed", for every document.\<close>

theorem publish_dry_run_reads_only:
  assumes "dry_run cfg" "publish_document srv rd cfg doc (w, []) = (r, w', log)"
  shows "list_all (\<lambda>e. \<not> is_mutation (fst e)) log"
proof -
  have "pub_request cfg doc q \<Longrightarrow> \<not> is_mutation q" for q
    using assms(1) by (cases q) (simp_all add: pub_request_def)
  with publish_log_requests [OF assms(2)] show ?thesis by (simp add: list_all_iff)
qed

text \<open>C4: Every label request \<open>publish_document\<close> sends carries the merged labels
  \<open>merge_labels default_labels doc.labels\<close>, which are non-empty and free of duplicates
  up to case.\<close>

theorem publish_labels_sent:
  assumes "publish_document srv rd cfg doc (w, []) = (r, w', log)" "(AddLabels pid ls, a) \<in> set log"
  shows "ls = merge_labels (default_labels cfg) (labels doc) \<and> ls \<noteq> [] \<and> distinct (map lower ls)"
proof -
  have "pub_request cfg doc (AddLabels pid ls)"
    using publish_log_requests [OF assms(1)] assms(2) by (auto simp: list_all_iff)
  then show ?thesis
    by (auto simp: pub_request_def merge_labels_def merge_loop_dedup_ci distinct_lower_dedup_ci)
qed

lemma last_get_snoc:
  "last_get (l @ [e]) = (case e of (GetPage _, Some (RPage p)) \<Rightarrow> Some p | _ \<Rightarrow> last_get l)"
  by (induction l) (auto split: option.splits prod.splits request.splits response.splits)

lemma versions_ok_snoc:
  "versions_ok pre (l @ [e]) = (versions_ok pre l \<and> version_ok (pre @ l) (fst e))"
  by (induction l arbitrary: pre) auto

lemma last_get_not_get: "(case q of GetPage _ \<Rightarrow> False | _ \<Rightarrow> True) \<Longrightarrow> last_get (l @ [(q, a)]) = last_get l"
  by (cases q) (auto simp: last_get_snoc)

lemma keeps_versions:
  "(case q of UpdatePage _ _ _ _ _ \<Rightarrow> False | _ \<Rightarrow> True) \<Longrightarrow> keeps (versions_ok []) q"
  by (cases q) (auto simp: keeps_def versions_ok_snoc version_ok_def)

lemma keeps_versions_fetched:
  "(case q of UpdatePage _ _ _ _ _ \<Rightarrow> False | GetPage _ \<Rightarrow> False | _ \<Rightarrow> True) \<Longrightarrow>
   keeps (\<lambda>l. versions_ok [] l \<and> last_get l = Some cp) q"
  using keeps_versions [of q] last_get_not_get [of q] by (cases q) (simp_all add: keeps_def)

lemma keeps_update_version:
  "keeps (\<lambda>l. versions_ok [] l \<and> last_get l = Some cp) (UpdatePage pid t b (page_version cp + 1) par)"
  by (simp add: keeps_def versions_ok_snoc version_ok_def last_get_snoc)

lemma keeps_versions_upload:
  "keeps (\<lambda>l. versions_ok [] l \<and> last_get l = Some cp) (FindAttachment p f)"
  "keeps (\<lambda>l. versions_ok [] l \<and> last_get l = Some cp) (UploadAttachment p f e d)"
  "keeps (\<lambda>l. versions_ok [] l \<and> last_get l = Some cp) (AddLabels p ls)"
  by (simp_all add: keeps_versions_fetched)

lemma valid_get_page_fetched:
  "valid (versions_ok []) (get_page srv pid) (\<lambda>p l. versions_ok [] l \<and> last_get l = Some p) (versions_ok [])"
  by (rule valid_conseq [OF valid_get_page [OF keeps_versions]]) (auto simp: last_get_snoc)

lemma valid_lookup_fetched:
  "valid (versions_ok []) (lookup_existing srv cfg doc)
     (\<lambda>ex l. versions_ok [] l \<and> (truthy (page_id doc) \<longrightarrow> last_get l = Some ex)) (versions_ok [])"
  unfolding lookup_existing_def
  by (auto intro!: valid_ret valid_conseq [OF valid_get_page_fetched]
                   valid_conseq [OF valid_find_page_by_title [OF keeps_versions]])

lemma valid_update_versions:
  "valid (\<lambda>l. versions_ok [] l \<and> (truthy (page_id doc) \<longrightarrow> last_get l = Some (Some ex)))
     (publish_update srv rd cfg doc h ps m ex) (\<lambda>_. versions_ok []) (versions_ok [])"
proof -
  let ?J = "\<lambda>cp l. versions_ok [] l \<and> last_get l = Some cp"
  show ?thesis
    unfolding publish_update_def Let_def
    apply (rule valid_if)
     apply (rule valid_ret, simp)
    apply (rule valid_cbind [where R = ?J])
     apply (auto intro!: valid_ret valid_get_page_fetched)[1]
    apply (rule valid_conseq [where P' = "?J _" and Q' = "\<lambda>_. ?J _" and E' = "?J _"])
       apply (auto intro!: valid_ret valid_raise valid_cbind_inv valid_add_labels keeps_versions_upload
                   valid_upload_if valid_update_page keeps_update_version split: option.splits)
    done
qed

lemma valid_create_versions:
  "valid (versions_ok []) (publish_create srv rd cfg doc h ps m) (\<lambda>_. versions_ok []) (versions_ok [])"
  unfolding publish_create_def Let_def
  by (auto intro!: valid_ret valid_raise valid_cbind_inv valid_create_page valid_upload_if valid_add_labels
                   keeps_versions split: option.splits)

lemma valid_publish_versions:
  "valid (versions_ok []) (publish_document srv rd cfg doc) (\<lambda>_. versions_ok []) (versions_ok [])"
  unfolding publish_document_def Let_def
  by (auto intro!: valid_raise valid_cbind [OF valid_lookup_fetched] valid_conseq [OF valid_update_versions]
                   valid_conseq [OF valid_create_versions] split: option.splits)

lemma versions_ok_append: "versions_ok p (l1 @ l2) = (versions_ok p l1 \<and> versions_ok (p @ l1) l2)"
  by (induction l1 arbitrary: p) auto

text \<open>C2: The version of every page update \<open>publish_document\<close> sends is one more than the
  version of the page fetched last before it (\<open>current_version + 1\<close>, with version 1
  for a page object without one); the version is never guessed.\<close>

theorem publish_update_version:
  assumes "publish_document srv rd cfg doc (w, []) = (r, w', log)"
    and "log = pre @ (UpdatePage pid t b v par, a) # post"
  shows "\<exists>p. last_get pre = Some p \<and> v = page_version p + 1"
proof -
  have "case r of Inl e \<Rightarrow> versions_ok [] log | Inr x \<Rightarrow> versions_ok [] log"
    by (rule validD [OF valid_publish_versions _ assms(1)]) simp
  then have "versions_ok [] log" by (cases r) simp_all
  then have "version_ok pre (UpdatePage pid t b v par)" using assms(2) by (simp add: versions_ok_append)
  then show ?thesis by (auto simp: version_ok_def split: option.splits)
qed

lemma run_order_snoc:
  "run_order ph (l @ [e]) = (case run_order ph l of None \<Rightarrow> None | Some ph' \<Rightarrow> order_step ph' (fst e))"
  by (induction ph l rule: run_order.induct) (auto split: option.splits)

lemma keeps_in_phase_read: "\<not> is_mutation q \<Longrightarrow> keeps (in_phase S) q"
  by (cases q) (auto simp: keeps_def in_phase_def run_order_snoc)

lemma valid_in_phase_step:
  "(\<And>ph. ph \<in> S \<Longrightarrow> order_step ph q \<in> Some ` T) \<Longrightarrow> valid (in_phase S) (call srv q) (\<lambda>_. in_phase T) (in_phase T)"
  by (rule valid_call) (simp_all add: in_phase_def run_order_snoc, (fastforce simp: image_iff)+)

lemma in_phase_UNIV: "in_phase S l \<Longrightarrow> in_phase UNIV l"
  by (auto simp: in_phase_def)

lemma valid_step_phase:
  assumes "\<And>ph. ph \<in> S \<Longrightarrow> order_step ph q \<in> Some ` T"
    and "\<And>r. valid (in_phase T) (f r) Q (in_phase UNIV)"
  shows "valid (in_phase S) (cbind (call srv q) f) Q (in_phase UNIV)"
  by (rule valid_cbind [OF valid_conseq [OF valid_in_phase_step [OF assms(1)]] assms(2)])
     (auto intro: in_phase_UNIV)

lemma valid_phase_ret_raise:
  "valid (in_phase T) (case r of RPage p \<Rightarrow> ret p | _ \<Rightarrow> raise e) (\<lambda>_. in_phase T) (in_phase UNIV)"
  by (cases r) (auto intro!: valid_ret valid_raise intro: in_phase_UNIV)

lemma valid_update_page_phase:
  "valid (in_phase {Start, Uploading}) (update_page srv pid t b v par) (\<lambda>_. in_phase {Updated}) (in_phase UNIV)"
  unfolding update_page_def Let_def
  by (rule valid_step_phase) (auto intro: valid_phase_ret_raise)

lemma valid_create_page_phase:
  "valid (in_phase {Start}) (create_page srv sp t b par) (\<lambda>_. in_phase {Created}) (in_phase UNIV)"
  unfolding create_page_def Let_def
  by (rule valid_step_phase) (auto intro: valid_phase_ret_raise)

lemma valid_add_labels_phase:
  "valid (in_phase {Created, Updated}) (add_labels srv pid ls) (\<lambda>_. in_phase UNIV) (in_phase UNIV)"
  unfolding add_labels_def
  by (auto intro!: valid_ret valid_step_phase intro: in_phase_UNIV)

lemma valid_upload_phase:
  assumes "\<And>ph p f e d. ph \<in> S \<Longrightarrow> order_step ph (UploadAttachment p f e d) \<in> Some ` T" "S \<subseteq> T"
  shows "valid (in_phase S) (upload_attachment_bytes srv pid f d) (\<lambda>_. in_phase T) (in_phase UNIV)"
  unfolding upload_attachment_bytes_def Let_def
  apply (rule valid_cbind [where R = "\<lambda>_. in_phase S"])
   apply (rule valid_conseq [OF valid_find_attachment [OF keeps_in_phase_read [where S = S]]]; auto intro: in_phase_UNIV)
  apply (rule valid_step_phase [OF assms(1)], assumption)
  apply (auto split: response.splits intro!: valid_ret valid_raise intro: in_phase_UNIV)
  done

lemma valid_uploads_phase:
  assumes "\<And>ph p f e d. ph \<in> S \<Longrightarrow> order_step ph (UploadAttachment p f e d) \<in> Some ` S"
  shows "valid (in_phase S) (upload_mermaid_image_attachments srv rd pid ps) (\<lambda>_. in_phase S) (in_phase UNIV)"
proof (induction ps)
  case Nil
  then show ?case by (auto intro!: valid_ret)
next
  case (Cons p ps)
  then show ?case
    by (auto intro!: valid_cbind [OF valid_upload_phase [OF assms]])
qed

lemma valid_upload_if_phase:
  assumes "\<And>ph p f e d. ph \<in> S \<Longrightarrow> order_step ph (UploadAttachment p f e d) \<in> Some ` S"
  shows "valid (in_phase S) (upload_if_attachment srv rd cfg pid ps) (\<lambda>_. in_phase S) (in_phase UNIV)"
  unfolding upload_if_attachment_def
  by (auto intro!: valid_ret valid_uploads_phase [OF assms])

lemma in_phase_mono: "in_phase S l \<Longrightarrow> S \<subseteq> T \<Longrightarrow> in_phase T l"
  by (auto simp: in_phase_def)

lemma upload_steps:
  "ph \<in> {Start, Uploading} \<Longrightarrow> order_step ph (UploadAttachment p f e d) \<in> Some ` {Start, Uploading}"
  "ph \<in> {Created} \<Longrightarrow> order_step ph (UploadAttachment p f e d) \<in> Some ` {Created}"
  by auto

lemma valid_cbind_weak:
  assumes "valid P m R E1" "\<And>l. E1 l \<Longrightarrow> E l" "\<And>x. valid (R x) (f x) Q E"
  shows "valid P (cbind m f) Q E"
proof (rule valid_cbind [OF _ assms(3)])
  show "valid P m R E" by (rule valid_conseq [OF assms(1)]) (auto intro: assms(2))
qed

lemma valid_current_page:
  "valid (in_phase {Start}) (if b then ret (Some ex) else get_page srv pid) (\<lambda>_. in_phase {Start}) (in_phase UNIV)"
  by (auto intro!: valid_ret valid_conseq [OF valid_get_page_inv [OF keeps_in_phase_read [where S = "{Start}"]]]
           intro: in_phase_UNIV)

lemma valid_update_tail:
  assumes "\<And>u. valid (in_phase {Updated}) (f u) (\<lambda>_. in_phase UNIV) (in_phase UNIV)"
  shows "valid (in_phase {Start}) (cbind (upload_if_attachment srv rd cfg pid ps) (\<lambda>_.
           cbind (update_page srv pid t h v par) f)) (\<lambda>_. in_phase UNIV) (in_phase UNIV)"
proof (rule valid_cbind [where R = "\<lambda>_. in_phase {Start, Uploading}"])
  show "valid (in_phase {Start}) (upload_if_attachment srv rd cfg pid ps) (\<lambda>_. in_phase {Start, Uploading})
          (in_phase UNIV)"
    by (rule valid_conseq [OF valid_upload_if_phase [OF upload_steps(1)]]) (auto intro: in_phase_mono)
qed (rule valid_cbind [OF valid_update_page_phase assms])

lemma valid_labels_tail:
  "(\<And>x. valid (in_phase UNIV) (g x) (\<lambda>_. in_phase UNIV) (in_phase UNIV)) \<Longrightarrow> S \<subseteq> {Created, Updated} \<Longrightarrow>
   valid (in_phase S) (cbind (add_labels srv pid ls) g) (\<lambda>_. in_phase UNIV) (in_phase UNIV)"
  by (rule valid_cbind [OF valid_conseq [OF valid_add_labels_phase]]) (auto intro: in_phase_mono)

lemma valid_create_phase:
  "valid (in_phase {Start}) (publish_create srv rd cfg doc h ps m) (\<lambda>_. in_phase UNIV) (in_phase UNIV)"
  unfolding publish_create_def Let_def
  by (auto intro!: valid_ret valid_raise valid_cbind [OF valid_create_page_phase]
                   valid_cbind [OF valid_upload_if_phase [OF upload_steps(2)]] valid_labels_tail
           intro: in_phase_UNIV split: option.splits)

lemma valid_update_phase:
  "valid (in_phase {Start}) (publish_update srv rd cfg doc h ps m ex) (\<lambda>_. in_phase UNIV) (in_phase UNIV)"
  unfolding publish_update_def Let_def
  apply (rule valid_if)
   apply (auto intro!: valid_ret intro: in_phase_UNIV)[1]
  apply (rule valid_cbind_weak [OF valid_current_page], assumption)
  apply (auto intro!: valid_ret valid_raise valid_update_tail valid_labels_tail
              intro: in_phase_UNIV split: option.splits)
  done

lemma valid_publish_phase:
  "valid (in_phase {Start}) (publish_document srv rd cfg doc) (\<lambda>_. in_phase UNIV) (in_phase UNIV)"
  unfolding publish_document_def Let_def
  by (auto intro!: valid_raise valid_cbind_weak [OF valid_lookup_existing [OF keeps_in_phase_read [where S = "{Start}"]]]
                   valid_update_phase valid_create_phase intro: in_phase_UNIV split: option.splits)

lemma mutation_kinds_Cons:
  "mutation_kinds (e # es) = (case kind_of (fst e) of None \<Rightarrow> mutation_kinds es | Some k \<Rightarrow> k # mutation_kinds es)"
  by (simp add: mutation_kinds_def map_filter_simps split: option.splits)

lemma kind_of_None: "kind_of q = None \<longleftrightarrow> \<not> is_mutation q"
  by (cases q) simp_all

lemma run_order_words: "run_order ph log = Some ph' \<Longrightarrow> phase_words ph (mutation_kinds log)"
proof (induction log arbitrary: ph)
  case Nil
  then show ?case by (cases ph) (auto simp: mutation_kinds_def map_filter_simps intro: exI [of _ 0])
next
  case (Cons e es)
  obtain ph1 where s: "order_step ph (fst e) = Some ph1" and r: "run_order ph1 es = Some ph'"
    using Cons.prems by (auto split: option.splits)
  have w: "phase_words ph1 (mutation_kinds es)" using Cons.IH [OF r] .
  show ?case
  proof (cases "is_mutation (fst e)")
    case False
    then have "ph1 = ph" "kind_of (fst e) = None" using s
      by (cases ph; cases "fst e"; simp)+
    with w show ?thesis by (simp add: mutation_kinds_Cons)
  next
    case True
    with s w show ?thesis
      by (cases ph; cases "fst e")
         (auto simp: mutation_kinds_Cons intro: exI [of _ 0] exI [of _ "Suc _"])
  qed
qed

text \<open>C3: The writes \<open>publish_document\<close> sends come in the order of the spec, also when a
  request fails half-way: for an existing page the diagram uploads, then the update, then
  the labels; for a new page the creation, then the uploads, then the labels.\<close>

theorem publish_request_order:
  assumes "publish_document srv rd cfg doc (w, []) = (r, w', log)"
  shows "\<exists>n. prefix (mutation_kinds log) (replicate n KUpload @ [KUpdate, KLabels])
             \<or> prefix (mutation_kinds log) (KCreate # replicate n KUpload @ [KLabels])"
proof -
  have "case r of Inl e \<Rightarrow> in_phase UNIV log | Inr x \<Rightarrow> in_phase UNIV log"
    by (rule validD [OF valid_publish_phase _ assms]) (simp add: in_phase_def)
  then obtain ph where "run_order Start log = Some ph" by (cases r) (auto simp: in_phase_def)
  then show ?thesis using run_order_words by fastforce
qed


end
