(* ===== verification/Wiki.thy ===== *)
theory Wiki
  imports Publish
begin

text \<open>
  A model of the wiki service the client talks to, to run the publisher on concrete
  documents. It is not code of the repository: it stands for the remote API as the spec
  describes it (lookup of a space by key, search of the current pages of a space by exact
  title, fetch, create, update with version check, labels, attachments found by file
  name and overwritten in place). Pages have numeric ids handed out in order; a create
  with a title already used in the space, an update whose version is not the current one
  plus one, and any request on a missing page fail like a non-2xx answer.
\<close>

record wpage =
  wp_id :: string
  wp_space :: string
  wp_title :: string
  wp_body :: string
  wp_version :: int
  wp_parent :: "string option"
  wp_labels :: "string list"
  wp_atts :: "(string \<times> string \<times> string) list"

record wiki =
  w_spaces :: "(string \<times> string) list"
  w_pages :: "wpage list"
  w_next :: nat

definition page_json_of :: "wpage \<Rightarrow> page_json" where
  "page_json_of p = \<lparr>pj_id = wp_id p, pj_title = wp_title p, pj_version = Some (wp_version p)\<rparr>"

definition find_wpage :: "wiki \<Rightarrow> string \<Rightarrow> wpage option" where
  "find_wpage w pid = find (\<lambda>p. wp_id p = pid) (w_pages w)"

definition map_wpage :: "string \<Rightarrow> (wpage \<Rightarrow> wpage) \<Rightarrow> wiki \<Rightarrow> wiki" where
  "map_wpage pid f w = w\<lparr>w_pages := map (\<lambda>p. if wp_id p = pid then f p else p) (w_pages w)\<rparr>"

definition upload_att :: "string \<Rightarrow> string option \<Rightarrow> string \<Rightarrow> string \<Rightarrow> wpage \<Rightarrow> wpage" where
  "upload_att aid ex f d p =
     (case ex of
        Some a \<Rightarrow> p\<lparr>wp_atts := map (\<lambda>(i, fn, x). if i = a then (i, fn, d) else (i, fn, x)) (wp_atts p)\<rparr>
      | None \<Rightarrow> p\<lparr>wp_atts := wp_atts p @ [(aid, f, d)]\<rparr>)"

fun wiki_srv :: "wiki server" where
  "wiki_srv w (GetSpace key) = Some (w, RSpaces (map snd (filter (\<lambda>kv. fst kv = key) (w_spaces w))))"
| "wiki_srv w (FindPage sp t) =
     Some (w, RPages (map page_json_of (filter (\<lambda>p. wp_space p = sp \<and> wp_title p = t) (w_pages w))))"
| "wiki_srv w (GetPage pid) =
     (case find_wpage w pid of None \<Rightarrow> None | Some p \<Rightarrow> Some (w, RPage (Some (page_json_of p))))"
| "wiki_srv w (CreatePage sp t b par) =
     (if sp \<notin> snd ` set (w_spaces w) \<or> (\<exists>p\<in>set (w_pages w). wp_space p = sp \<and> wp_title p = t) then None
      else (let p = \<lparr>wp_id = string_of_nat (w_next w), wp_space = sp, wp_title = t, wp_body = b, wp_version = 1,
                     wp_parent = par, wp_labels = [], wp_atts = []\<rparr>
            in Some (w\<lparr>w_pages := w_pages w @ [p], w_next := Suc (w_next w)\<rparr>, RPage (Some (page_json_of p)))))"
| "wiki_srv w (UpdatePage pid t b v par) =
     (case find_wpage w pid of
        None \<Rightarrow> None
      | Some p \<Rightarrow>
          if v \<noteq> wp_version p + 1 then None
          else (let p' = p\<lparr>wp_title := t, wp_body := b, wp_version := v, wp_parent := par\<rparr>
                in Some (map_wpage pid (\<lambda>_. p') w, RPage (Some (page_json_of p')))))"
| "wiki_srv w (AddLabels pid ls) =
     (case find_wpage w pid of
        None \<Rightarrow> None
      | Some p \<Rightarrow> Some (map_wpage pid (\<lambda>q. q\<lparr>wp_labels := wp_labels q @ filter (\<lambda>l. l \<notin> set (wp_labels q)) ls\<rparr>) w,
                       RIgnored))"
| "wiki_srv w (FindAttachment pid f) =
     (case find_wpage w pid of
        None \<Rightarrow> None
      | Some p \<Rightarrow> Some (w, RAttachments (map (\<lambda>(i, fn, x). (i, fn)) (filter (\<lambda>(i, fn, x). fn = f) (wp_atts p)))))"
| "wiki_srv w (UploadAttachment pid f ex d) =
     (case find_wpage w pid of
        None \<Rightarrow> None
      | Some p \<Rightarrow>
          (let aid = (case ex of Some a \<Rightarrow> a | None \<Rightarrow> ''att'' @ string_of_nat (w_next w)) in
           Some ((map_wpage pid (upload_att aid ex f d) w)\<lparr>w_next := Suc (w_next w)\<rparr>, RUpload (Some aid) [])))"

definition no_renderers :: renderers where
  "no_renderers = \<lparr>pandoc = (\<lambda>_. None), markdown_lib = (\<lambda>_. None), mmdc = (\<lambda>_. None), mermaid_ink = (\<lambda>_. None)\<rparr>"

definition wiki0 :: wiki where
  "wiki0 = \<lparr>w_spaces = [(''DOC'', ''42'')], w_pages = [], w_next = 1\<rparr>"

definition cfg_of :: "bool \<Rightarrow> string \<Rightarrow> publish_cfg" where
  "cfg_of dry m = \<lparr>space_id = ''42'', default_parent_id = None, default_labels = [''docs''], create_if_missing = True,
     update_if_title_match = True, dry_run = dry, mode = m, image_width = 1000\<rparr>"

definition hello_doc :: document where
  "hello_doc = parse_document ''docs/hello.md'' (''# Hello'' @ [NL] @ ''World'')"

definition diagram_doc :: document where
  "diagram_doc = parse_document ''docs/diagram.md''
     (''# Hello'' @ [NL] @ ''```mermaid'' @ [NL] @ ''graph TD'' @ [NL] @ ''```'')"

section \<open>Runs of the publisher on the wiki\<close>

theorem publish_dry_run_reads_only_witness:
  "list_all (\<lambda>e. \<not> is_mutation (fst e)) [(FindPage ''42'' ''Hello'', Some (RPages []))]"
proof -
  have "publish_document wiki_srv no_renderers (cfg_of True ''code'') hello_doc (wiki0, [])
     = (Inr \<lparr>action = ''dry-create'', res_page_id = None, res_title = ''Hello'', res_path = ''docs/hello.md'',
             message = ''would create new page''\<rparr>,
        wiki0, [(FindPage ''42'' ''Hello'', Some (RPages []))])"
    by code_simp
  moreover have "dry_run (cfg_of True ''code'')" by (simp add: cfg_of_def)
  ultimately show ?thesis by (rule publish_dry_run_reads_only [rotated])
qed

theorem publish_labels_sent_witness:
  "[''docs''] = merge_labels (default_labels (cfg_of False ''code'')) (labels hello_doc) \<and> [''docs''] \<noteq> []
   \<and> distinct (map lower [''docs''])"
proof -
  have "case publish_document wiki_srv no_renderers (cfg_of False ''code'') hello_doc (wiki0, []) of
          (r, w, l) \<Rightarrow> (AddLabels ''1'' [''docs''], Some RIgnored) \<in> set l"
    by code_simp
  then obtain r w l where run: "publish_document wiki_srv no_renderers (cfg_of False ''code'') hello_doc (wiki0, []) = (r, w, l)"
    and "(AddLabels ''1'' [''docs''], Some RIgnored) \<in> set l"
    by (auto split: prod.splits)
  then show ?thesis by (rule publish_labels_sent)
qed

theorem publish_update_version_witness:
  "\<exists>p. last_get [(FindPage ''42'' ''Hello'', Some (RPages [\<lparr>pj_id = ''1'', pj_title = ''Hello'', pj_version = Some 1\<rparr>])),
                   (GetPage ''1'', Some (RPage (Some \<lparr>pj_id = ''1'', pj_title = ''Hello'', pj_version = Some 1\<rparr>)))]
        = Some p \<and> (2::int) = page_version p + 1"
proof -
  have "case publish_document wiki_srv no_renderers (cfg_of False ''code'') hello_doc (wiki0, []) of
          (r1, w1, l1) \<Rightarrow>
            (case publish_document wiki_srv no_renderers (cfg_of False ''code'') hello_doc (w1, []) of
               (r2, w2, l2) \<Rightarrow> 2 < length l2 \<and>
                 take 2 l2 = [(FindPage ''42'' ''Hello'', Some (RPages [\<lparr>pj_id = ''1'', pj_title = ''Hello'', pj_version = Some 1\<rparr>])),
                   (GetPage ''1'', Some (RPage (Some \<lparr>pj_id = ''1'', pj_title = ''Hello'', pj_version = Some 1\<rparr>)))] \<and>
                 (case fst (l2 ! 2) of UpdatePage pid t b v par \<Rightarrow> v = 2 | _ \<Rightarrow> False))"
    by code_simp
  then obtain r1 w1 l1 r2 w2 l2 where
      run: "publish_document wiki_srv no_renderers (cfg_of False ''code'') hello_doc (w1, []) = (r2, w2, l2)"
    and len: "2 < length l2"
    and pre: "take 2 l2 = [(FindPage ''42'' ''Hello'', Some (RPages [\<lparr>pj_id = ''1'', pj_title = ''Hello'', pj_version = Some 1\<rparr>])),
                   (GetPage ''1'', Some (RPage (Some \<lparr>pj_id = ''1'', pj_title = ''Hello'', pj_version = Some 1\<rparr>)))]"
    and upd: "case fst (l2 ! 2) of UpdatePage pid t b v par \<Rightarrow> v = 2 | _ \<Rightarrow> False"
    by (auto split: prod.splits)
  obtain pid t b par a where e: "l2 ! 2 = (UpdatePage pid t b 2 par, a)"
    using upd by (cases "l2 ! 2"; cases "fst (l2 ! 2)") auto
  have "l2 = take 2 l2 @ (UpdatePage pid t b 2 par, a) # drop 3 l2"
    using id_take_nth_drop [OF len] e by simp
  from publish_update_version [OF run this] show ?thesis by (simp only: pre)
qed

theorem publish_request_order_witness:
  "\<exists>n. prefix [KCreate, KLabels] (replicate n KUpload @ [KUpdate, KLabels])
       \<or> prefix [KCreate, KLabels] (KCreate # replicate n KUpload @ [KLabels])"
proof -
  have "case publish_document wiki_srv no_renderers (cfg_of False ''code'') hello_doc (wiki0, []) of
          (r, w, l) \<Rightarrow> mutation_kinds l = [KCreate, KLabels]"
    by code_simp
  then obtain r w l where run: "publish_document wiki_srv no_renderers (cfg_of False ''code'') hello_doc (wiki0, []) = (r, w, l)"
    and k: "mutation_kinds l = [KCreate, KLabels]"
    by (auto split: prod.splits)
  from publish_request_order [OF run] show ?thesis by (simp only: k)
qed

end
