(* ===== verification/Driver.thy ===== *)
theory Driver
  imports Wiki
begin

text \<open>
  The batch driver of the skills copy: \<open>load_dotenv\<close> (lines 63-77), \<open>env_bool\<close>
  (lines 80-84), \<open>bool_arg\<close> (lines 850-853), \<open>parse_positive_int\<close> (lines 856-863) and
  \<open>main\<close> (lines 866-957). The process environment is a map from names to values; the
  \<open>.env\<close> file is its text, or \<open>None\<close> when it does not exist; the command line is the
  record \<open>argparse\<close> returns; the Markdown files are the sorted list of paths the glob
  matched, each with its text. \<open>main\<close> returns the exit code with the server state and
  the request log; an exception that \<open>main\<close> does not catch ends the process with
  status 1.
\<close>

type_synonym env = "string \<rightharpoonup> string"

section \<open>Environment\<close>

text \<open>One line of the \<open>.env\<close> file: \<open>KEY=VALUE\<close>, stripped, with one pair of matching
  quotes removed, then \<open>os.environ.setdefault(key, value)\<close>: a variable already set is
  kept; otherwise the value is stored through \<open>putenv\<close>, which raises for an empty name
  (\<open>OSError\<close>) and for a NUL character in the name or the value (\<open>ValueError\<close>). The
  exception is the \<open>None\<close> of the result.\<close>

definition unquote :: "string \<Rightarrow> string" where
  "unquote v =
     (if v \<noteq> [] \<and> 2 \<le> length v \<and> hd v = last v \<and> (hd v = DQ \<or> hd v = SQ) then take (length v - 2) (drop 1 v) else v)"

definition env_settable :: "string \<Rightarrow> string \<Rightarrow> bool" where
  "env_settable key value \<longleftrightarrow> key \<noteq> [] \<and> CHR 0x00 \<notin> set key \<and> CHR 0x00 \<notin> set value"

definition dotenv_line :: "env \<Rightarrow> string \<Rightarrow> env option" where
  "dotenv_line env raw =
     (let line = strip raw in
      if line = [] \<or> startswith line ''#'' \<or> CHR ''='' \<notin> set line then Some env
      else (case split_once CHR ''='' line of
              (k, v) \<Rightarrow> (let key = strip k; value = unquote (strip v) in
                         if env key \<noteq> None then Some env
                         else if env_settable key value then Some (env(key \<mapsto> value))
                         else None)))"

text \<open>The loop over the lines of the file (lines 67-77): the first exception ends it.\<close>

fun dotenv_lines :: "env \<Rightarrow> string list \<Rightarrow> env option" where
  "dotenv_lines env [] = Some env"
| "dotenv_lines env (l # ls) = (case dotenv_line env l of None \<Rightarrow> None | Some env' \<Rightarrow> dotenv_lines env' ls)"

definition load_dotenv :: "env \<Rightarrow> string option \<Rightarrow> env option" where
  "load_dotenv env file =
     (case file of None \<Rightarrow> Some env | Some text \<Rightarrow> dotenv_lines env (splitlines False text))"

definition getenv :: "env \<Rightarrow> string \<Rightarrow> string \<Rightarrow> string" where
  "getenv env name dflt = (case env name of Some v \<Rightarrow> v | None \<Rightarrow> dflt)"

definition env_bool :: "env \<Rightarrow> string \<Rightarrow> bool \<Rightarrow> bool" where
  "env_bool env name dflt =
     (case env name of
        None \<Rightarrow> dflt
      | Some v \<Rightarrow> lower (strip v) \<in> {''1'', ''true'', ''yes'', ''y'', ''on''})"

definition bool_arg :: "env \<Rightarrow> string option \<Rightarrow> string \<Rightarrow> bool \<Rightarrow> bool" where
  "bool_arg env value fallback_env dflt =
     (case value of Some v \<Rightarrow> v = ''true'' | None \<Rightarrow> env_bool env fallback_env dflt)"

section \<open>Integers\<close>

text \<open>\<open>int(raw)\<close> on ASCII text: white space around, an optional sign, decimal digits with
  single underscores between them; anything else raises \<open>ValueError\<close> (\<open>None\<close>).\<close>

fun digits_ok :: "string \<Rightarrow> bool" where
  "digits_ok [] = False"
| "digits_ok [c] = is_digit c"
| "digits_ok (c # d # cs) =
     (is_digit c \<and> (if d = CHR ''_'' then cs \<noteq> [] \<and> is_digit (hd cs) \<and> digits_ok cs else digits_ok (d # cs)))"

definition py_int :: "string \<Rightarrow> int option" where
  "py_int raw =
     (let t = strip raw;
          (sgn, body) = (if t \<noteq> [] \<and> hd t = CHR ''-'' then (-1, tl t)
                         else if t \<noteq> [] \<and> hd t = CHR ''+'' then (1, tl t) else (1, t))
      in if digits_ok body then Some (sgn * int (read_nat (filter is_digit body))) else None)"

definition parse_positive_int :: "string \<Rightarrow> string \<Rightarrow> int \<Rightarrow> int \<Rightarrow> string + int" where
  "parse_positive_int raw setting_name min_value max_value =
     (case py_int raw of
        None \<Rightarrow> Inl (setting_name @ '' must be an integer'')
      | Some parsed \<Rightarrow>
          if parsed < min_value \<or> parsed > max_value
          then Inl (setting_name @ '' must be between '' @ string_of_int min_value @ '' and '' @ string_of_int max_value)
          else Inr parsed)"

section \<open>main\<close>

text \<open>The namespace \<open>parse_args\<close> returns (lines 814-847).\<close>

record cli_args =
  a_dotenv :: string
  a_glob :: "string option"
  a_space_key :: "string option"
  a_parent_id :: "string option"
  a_default_labels :: "string option"
  a_dry_run :: bool
  a_verbose :: bool
  a_mermaid_mode :: "string option"
  a_mermaid_image_width :: "int option"
  a_create_if_missing :: "string option"
  a_update_if_title_match :: "string option"

text \<open>\<open>args.x or os.getenv(NAME, d)\<close>: an absent or empty argument falls back.\<close>

definition arg_or :: "string option \<Rightarrow> string \<Rightarrow> string" where
  "arg_or a fallback = (case a of Some v \<Rightarrow> if v \<noteq> [] then v else fallback | None \<Rightarrow> fallback)"

record settings =
  s_site :: string
  s_email :: string
  s_token :: string
  s_space_key :: string
  s_parent_id :: "string option"
  s_glob :: string
  s_default_labels :: "string list"
  s_mermaid_mode :: string
  s_width :: int
  s_create :: bool
  s_update :: bool

definition mode_error :: string where
  "mode_error = ''CONFLUENCE_MERMAID_MODE must be '' @ [SQ] @ ''code'' @ [SQ] @ '', '' @ [SQ] @ ''macro'' @ [SQ]
     @ '', or '' @ [SQ] @ ''attachment'' @ [SQ]"

text \<open>The settings of \<open>main\<close> (lines 870-918): an error message is a return with exit
  code 2, in the order of the checks of the code.\<close>

definition resolve_settings :: "cli_args \<Rightarrow> env \<Rightarrow> string + settings" where
  "resolve_settings args env =
     (let site = strip (getenv env ''ATLASSIAN_SITE'' []);
          email = strip (getenv env ''ATLASSIAN_EMAIL'' []);
          token = strip (getenv env ''ATLASSIAN_API_TOKEN'' []);
          space_key = strip (arg_or (a_space_key args) (getenv env ''CONFLUENCE_SPACE_KEY'' []));
          parent = strip (arg_or (a_parent_id args) (getenv env ''CONFLUENCE_PARENT_ID'' []));
          glob_pattern = strip (arg_or (a_glob args) (getenv env ''MARKDOWN_GLOB'' ''docs/**/*.md''));
          default_lbls = parse_labels (Some (arg_or (a_default_labels args) (getenv env ''PUBLISH_DEFAULT_LABELS'' [])));
          mmode = lower (strip (arg_or (a_mermaid_mode args) (getenv env ''CONFLUENCE_MERMAID_MODE'' ''attachment'')));
          width_raw = (case a_mermaid_image_width args of
                         Some n \<Rightarrow> string_of_int n
                       | None \<Rightarrow> strip (getenv env ''CONFLUENCE_MERMAID_IMAGE_WIDTH'' ''1000''))
      in if mmode \<notin> {''code'', ''macro'', ''attachment''} then Inl mode_error
         else (case parse_positive_int width_raw ''CONFLUENCE_MERMAID_IMAGE_WIDTH'' 240 4000 of
                 Inl msg \<Rightarrow> Inl msg
               | Inr width \<Rightarrow>
                   (let create = bool_arg env (a_create_if_missing args) ''PUBLISH_CREATE_IF_MISSING'' True;
                        upd = bool_arg env (a_update_if_title_match args) ''PUBLISH_UPDATE_IF_TITLE_MATCH'' True;
                        missing = map fst (filter (\<lambda>nv. snd nv = [])
                          [(''ATLASSIAN_SITE'', site), (''ATLASSIAN_EMAIL'', email),
                           (''ATLASSIAN_API_TOKEN'', token), (''CONFLUENCE_SPACE_KEY'', space_key)])
                    in if missing \<noteq> [] then Inl (''Missing required settings: '' @ py_join '', '' missing)
                       else Inr \<lparr>s_site = site, s_email = email, s_token = token, s_space_key = space_key,
                                  s_parent_id = (if parent = [] then None else Some parent), s_glob = glob_pattern,
                                  s_default_labels = default_lbls, s_mermaid_mode = mmode, s_width = width,
                                  s_create = create, s_update = upd\<rparr>)))"

definition publish_cfg_of :: "cli_args \<Rightarrow> settings \<Rightarrow> string \<Rightarrow> publish_cfg" where
  "publish_cfg_of args st sid =
     \<lparr>space_id = sid, default_parent_id = s_parent_id st, default_labels = s_default_labels st,
      create_if_missing = s_create st, update_if_title_match = s_update st, dry_run = a_dry_run args,
      mode = s_mermaid_mode st, image_width = s_width st\<rparr>"

text \<open>The loop over the files (lines 935-950): a document whose publication raises is
  counted as a failure and the loop goes on.\<close>

fun run_batch ::
  "'w server \<Rightarrow> renderers \<Rightarrow> publish_cfg \<Rightarrow> (string \<times> string) list \<Rightarrow> 'w \<times> call_log \<Rightarrow> nat \<times> 'w \<times> call_log" where
  "run_batch srv rd cfg [] s = (0, s)"
| "run_batch srv rd cfg ((p, text) # files) s =
     (case publish_document srv rd cfg (parse_document p text) s of
        (res, s') \<Rightarrow> (case run_batch srv rd cfg files s' of
                        (failures, s'') \<Rightarrow> ((if isl res then Suc failures else failures), s'')))"

definition main ::
  "cli_args \<Rightarrow> env \<Rightarrow> string option \<Rightarrow> (string \<times> string) list \<Rightarrow> 'w server \<Rightarrow> renderers \<Rightarrow> 'w
   \<Rightarrow> int \<times> 'w \<times> call_log" where
  "main args env0 dotenv files srv rd w =
     (case load_dotenv env0 dotenv of
        None \<Rightarrow> (1, w, [])
      | Some env \<Rightarrow>
          (case resolve_settings args env of
             Inl msg \<Rightarrow> (2, w, [])
           | Inr st \<Rightarrow>
               if files = [] then (0, w, [])
               else (case get_space_by_key srv (s_space_key st) (w, []) of
                       (Inl e, s1) \<Rightarrow> (1, s1)
                     | (Inr sid, s1) \<Rightarrow>
                         (case run_batch srv rd (publish_cfg_of args st sid) files s1 of
                            (failures, s2) \<Rightarrow> (if failures > 0 then 1 else 0, s2)))))"

section \<open>Runs on the wiki model\<close>

text \<open>An environment with the four required settings, a command line with the defaults
  and \<open>--mermaid-mode code\<close>, and three files of which the second names a page id
  the wiki does not have.\<close>

definition env0 :: env where
  "env0 = map_of [(''ATLASSIAN_SITE'', ''example.atlassian.net''), (''ATLASSIAN_EMAIL'', ''me@example.com''),
                  (''ATLASSIAN_API_TOKEN'', ''token''), (''CONFLUENCE_SPACE_KEY'', ''DOC'')]"

definition args0 :: cli_args where
  "args0 = \<lparr>a_dotenv = ''.env'', a_glob = None, a_space_key = None, a_parent_id = None, a_default_labels = None,
     a_dry_run = False, a_verbose = False, a_mermaid_mode = Some ''code'', a_mermaid_image_width = None,
     a_create_if_missing = None, a_update_if_title_match = None\<rparr>"

definition batch_files :: "(string \<times> string) list" where
  "batch_files = [(''docs/a.md'', ''# A''),
                  (''docs/b.md'', ''---'' @ [NL] @ ''page_id: 999'' @ [NL] @ ''---'' @ [NL] @ ''# B''),
                  (''docs/c.md'', ''# C'')]"

section \<open>Lemmas\<close>

lemma digits_ok_digits: "s \<noteq> [] \<Longrightarrow> \<forall>c\<in>set s. is_digit c \<Longrightarrow> digits_ok s"
  by (induction s rule: digits_ok.induct) (auto simp: is_digit_def)

lemma digit_not_space: "is_digit c \<Longrightarrow> \<not> is_space c"
  by (simp add: is_digit_def is_space_def Let_def)

lemma sign_chars: "\<not> is_space (CHR ''-'')" "\<not> is_digit (CHR ''-'')" "\<not> is_digit (CHR ''+'')"
  by code_simp+

lemma strip_digits: "\<forall>c\<in>set s. is_digit c \<or> c = CHR ''-'' \<Longrightarrow> strip s = s"
proof (cases "s = []")
  case False
  assume a: "\<forall>c\<in>set s. is_digit c \<or> c = CHR ''-''"
  moreover have "hd s \<in> set s" "last s \<in> set s" using False by simp_all
  ultimately have "\<not> is_space (hd s)" "\<not> is_space (last s)"
    using digit_not_space sign_chars(1) by metis+
  with False show ?thesis by (rule strip_eq_self [rotated 2])
qed simp

lemma py_int_string_of_int: "py_int (string_of_int n) = Some n"
proof -
  let ?d = "string_of_nat (nat \<bar>n\<bar>)"
  have dig: "\<forall>c\<in>set ?d. is_digit c" by (auto intro: string_of_nat_digits)
  have ok: "digits_ok ?d" by (rule digits_ok_digits [OF string_of_nat_nonempty dig])
  have f: "filter is_digit ?d = ?d" using dig by (simp add: filter_id_conv)
  have hd: "hd ?d \<noteq> CHR ''-''" "hd ?d \<noteq> CHR ''+''"
    using dig hd_in_set [OF string_of_nat_nonempty] sign_chars(2,3) by metis+
  show ?thesis
  proof (cases "n < 0")
    case True
    then have s: "string_of_int n = CHR ''-'' # ?d" by (simp add: string_of_int_def)
    have "strip (CHR ''-'' # ?d) = CHR ''-'' # ?d" using dig by (intro strip_digits) auto
    with True s ok f show ?thesis by (simp add: py_int_def read_nat_string_of_nat)
  next
    case False
    then have s: "string_of_int n = ?d" by (simp add: string_of_int_def)
    have "strip ?d = ?d" using dig by (intro strip_digits) auto
    with False s ok f hd string_of_nat_nonempty show ?thesis
      by (simp add: py_int_def read_nat_string_of_nat)
  qed
qed

lemma parse_positive_int_bounds: "parse_positive_int raw nm lo hi = Inr n \<Longrightarrow> lo \<le> n \<and> n \<le> hi"
  by (auto simp: parse_positive_int_def split: option.splits if_splits)

lemma dotenv_line_keeps: "env k = Some v \<Longrightarrow> dotenv_line env raw = Some env' \<Longrightarrow> env' k = Some v"
  by (auto simp: dotenv_line_def Let_def split: prod.splits if_splits)

lemma dotenv_lines_keeps: "env k = Some v \<Longrightarrow> dotenv_lines env ls = Some env' \<Longrightarrow> env' k = Some v"
  by (induction env ls rule: dotenv_lines.induct) (auto dest: dotenv_line_keeps split: option.splits)

text \<open>C30: A variable already set in the process environment wins over the \<open>.env\<close> file
  (\<open>os.environ.setdefault\<close>): when loading the file returns, the variable is unchanged
  (when it raises, \<open>main\<close> ends with status 1).\<close>

theorem load_dotenv_keeps_env: "env k = Some v \<Longrightarrow> load_dotenv env file = Some env' \<Longrightarrow> env' k = Some v"
  by (auto simp: load_dotenv_def dest: dotenv_lines_keeps split: option.splits)

text \<open>C29: \<open>parse_positive_int\<close> reads back every integer of the range from its decimal
  text, and accepts nothing outside the range.\<close>

theorem parse_positive_int_roundtrip:
  "lo \<le> n \<Longrightarrow> n \<le> hi \<Longrightarrow> parse_positive_int (string_of_int n) nm lo hi = Inr n"
  by (simp add: parse_positive_int_def py_int_string_of_int)

text \<open>C13: Settings that pass the checks of \<open>main\<close> have an image width in [240, 4000], a
  Mermaid mode among \<open>code\<close>, \<open>macro\<close>, \<open>attachment\<close>, and non-empty site, e-mail,
  token and space key.\<close>

theorem resolve_settings_valid:
  "resolve_settings args env = Inr st \<Longrightarrow>
   240 \<le> s_width st \<and> s_width st \<le> 4000 \<and> s_mermaid_mode st \<in> {''code'', ''macro'', ''attachment''}
   \<and> s_site st \<noteq> [] \<and> s_email st \<noteq> [] \<and> s_token st \<noteq> [] \<and> s_space_key st \<noteq> []"
  by (auto simp: resolve_settings_def Let_def split: if_splits sum.splits dest!: parse_positive_int_bounds)

text \<open>C12: The exit code of \<open>main\<close>: 1 without a request when loading the \<open>.env\<close> file
  raises; 2 exactly when the file loads and the settings are invalid, and then no request
  is sent; 0 without a request when no file matched; otherwise 0 only when the space
  was found and every document was published without an exception.\<close>

theorem main_exit_codes:
  assumes "main args env0 dotenv files srv rd w = (code, w', log)"
  shows "(load_dotenv env0 dotenv = None \<longrightarrow> code = 1 \<and> w' = w \<and> log = [])
    \<and> (code = 2 \<longleftrightarrow> (\<exists>env. load_dotenv env0 dotenv = Some env \<and> isl (resolve_settings args env)))
    \<and> (code = 2 \<longrightarrow> w' = w \<and> log = [])
    \<and> code \<in> {0, 1, 2}
    \<and> (\<forall>env. load_dotenv env0 dotenv = Some env \<and> \<not> isl (resolve_settings args env) \<and> files = []
         \<longrightarrow> code = 0 \<and> log = [])
    \<and> (code = 0 \<and> files \<noteq> [] \<longrightarrow>
         (\<exists>env st sid s1 s2. load_dotenv env0 dotenv = Some env \<and> resolve_settings args env = Inr st
            \<and> get_space_by_key srv (s_space_key st) (w, []) = (Inr sid, s1)
            \<and> run_batch srv rd (publish_cfg_of args st sid) files s1 = (0, s2)))"
  using assms by (auto simp: main_def Let_def split: option.splits sum.splits prod.splits if_splits)

theorem load_dotenv_keeps_env_witness:
  "\<exists>env. load_dotenv env0 (Some ''ATLASSIAN_SITE=other.example'') = Some env
     \<and> env ''ATLASSIAN_SITE'' = Some ''example.atlassian.net''"
proof -
  have "env0 ''ATLASSIAN_SITE'' = Some ''example.atlassian.net''" by code_simp
  moreover have "load_dotenv env0 (Some ''ATLASSIAN_SITE=other.example'') \<noteq> None" by code_simp
  then obtain env where "load_dotenv env0 (Some ''ATLASSIAN_SITE=other.example'') = Some env" by blast
  ultimately show ?thesis using load_dotenv_keeps_env by blast
qed

theorem parse_positive_int_roundtrip_witness:
  "parse_positive_int ''1000'' ''CONFLUENCE_MERMAID_IMAGE_WIDTH'' 240 4000 = Inr 1000"
proof -
  have "string_of_int 1000 = ''1000''" by code_simp
  moreover have "parse_positive_int (string_of_int 1000) ''CONFLUENCE_MERMAID_IMAGE_WIDTH'' 240 4000 = Inr 1000"
    by (rule parse_positive_int_roundtrip) simp_all
  ultimately show ?thesis by simp
qed

theorem resolve_settings_valid_witness:
  "\<exists>st. resolve_settings args0 env0 = Inr st \<and> 240 \<le> s_width st \<and> s_width st \<le> 4000"
proof -
  have "\<not> isl (resolve_settings args0 env0)" by code_simp
  then obtain st where st: "resolve_settings args0 env0 = Inr st" by (cases "resolve_settings args0 env0") auto
  with resolve_settings_valid [OF st] show ?thesis by blast
qed

theorem main_exit_codes_witness:
  "fst (main args0 env0 (Some ''=x'') batch_files wiki_srv no_renderers wiki0) = 1"
proof -
  obtain code w log where run: "main args0 env0 (Some ''=x'') batch_files wiki_srv no_renderers wiki0 = (code, w, log)"
    by (cases "main args0 env0 (Some ''=x'') batch_files wiki_srv no_renderers wiki0") auto
  have "load_dotenv env0 (Some ''=x'') = None" by code_simp
  with main_exit_codes [OF run] run show ?thesis by simp
qed

end
