(* ===== verification/Legacy.thy ===== *)
theory Legacy
  imports Driver
begin

text \<open>
  The earlier copy \<open>src/scripts/confluence_publish.py\<close>: its converter
  \<open>simple_markdown_to_html\<close> (lines 126-215), which knows no tables and no Mermaid
  modes, its \<open>markdown_to_html\<close> (lines 218-243) and its \<open>publish_document\<close> (lines
  403-468), which uploads no diagrams. The helpers it shares verbatim with the skills copy
  (the inline renderer, the code macro, the line patterns, the labels, the front matter, the
  client methods) are the definitions of the other theories. The lemmas show that the
  skills copy in \<open>code\<close> mode behaves as this copy on documents without table lines.
\<close>

record legacy_state =
  lg_parts :: "string list"
  lg_in_ul :: bool
  lg_in_code_block :: bool
  lg_code_lang :: string
  lg_code_lines :: "string list"

definition legacy_init :: legacy_state where
  "legacy_init = \<lparr>lg_parts = [], lg_in_ul = False, lg_in_code_block = False, lg_code_lang = [], lg_code_lines = []\<rparr>"

definition legacy_add_part :: "string \<Rightarrow> legacy_state \<Rightarrow> legacy_state" where
  "legacy_add_part p st = st\<lparr>lg_parts := lg_parts st @ [p]\<rparr>"

definition legacy_close_list :: "legacy_state \<Rightarrow> legacy_state" where
  "legacy_close_list st = (if lg_in_ul st then (legacy_add_part ''</ul>'' st)\<lparr>lg_in_ul := False\<rparr> else st)"

text \<open>The body of \<open>for raw_line in lines\<close> (lines 169-211).\<close>

definition legacy_step :: "legacy_state \<Rightarrow> string \<Rightarrow> legacy_state" where
  "legacy_step st raw_line =
     (let line = rstrip raw_line; stripped = strip line in
      case fence_match stripped of
        Some lang_tail \<Rightarrow>
          (let st1 = legacy_close_list st in
           if \<not> lg_in_code_block st1
           then st1\<lparr>lg_in_code_block := True, lg_code_lang := strip lang_tail, lg_code_lines := []\<rparr>
           else (legacy_add_part (emit_code_macro (lg_code_lang st1) (py_join [NL] (lg_code_lines st1))) st1)
                  \<lparr>lg_in_code_block := False, lg_code_lang := [], lg_code_lines := []\<rparr>)
      | None \<Rightarrow>
          if lg_in_code_block st then st\<lparr>lg_code_lines := lg_code_lines st @ [raw_line]\<rparr>
          else if stripped = [] then legacy_close_list st
          else (case heading_match stripped of
                  Some (level, txt) \<Rightarrow>
                    legacy_add_part (''<h'' @ string_of_nat level @ ''>'' @ render_inline (strip txt)
                                     @ ''</h'' @ string_of_nat level @ ''>'') (legacy_close_list st)
                | None \<Rightarrow>
                    (case bullet_match stripped of
                       Some txt \<Rightarrow>
                         (let st1 = (if lg_in_ul st then st else (legacy_add_part ''<ul>'' st)\<lparr>lg_in_ul := True\<rparr>)
                          in legacy_add_part (''<li>'' @ render_inline (strip txt) @ ''</li>'') st1)
                     | None \<Rightarrow> legacy_add_part (''<p>'' @ render_inline stripped @ ''</p>'') (legacy_close_list st))))"

definition legacy_finish :: "legacy_state \<Rightarrow> string" where
  "legacy_finish st =
     (let st1 = legacy_close_list st;
          st2 = (if lg_in_code_block st1
                 then legacy_add_part (emit_code_macro (lg_code_lang st1) (py_join [NL] (lg_code_lines st1))) st1
                 else st1)
      in if lg_parts st2 = [] then ''<p></p>'' else py_join [NL] (lg_parts st2))"

definition simple_markdown_to_html_v1 :: "string \<Rightarrow> string" where
  "simple_markdown_to_html_v1 markdown_text =
     legacy_finish (foldl legacy_step legacy_init (splitlines False markdown_text))"

definition markdown_to_html_v1 :: "string option \<Rightarrow> string option \<Rightarrow> string \<Rightarrow> string" where
  "markdown_to_html_v1 pandoc_out lib_out markdown_text =
     (case pandoc_out of
        Some out \<Rightarrow> if strip out \<noteq> [] then out
                    else (case lib_out of
                            Some r \<Rightarrow> if strip r \<noteq> [] then r else simple_markdown_to_html_v1 markdown_text
                          | None \<Rightarrow> simple_markdown_to_html_v1 markdown_text)
      | None \<Rightarrow> (case lib_out of
                   Some r \<Rightarrow> if strip r \<noteq> [] then r else simple_markdown_to_html_v1 markdown_text
                 | None \<Rightarrow> simple_markdown_to_html_v1 markdown_text))"

text \<open>\<open>publish_document\<close> of the earlier copy (lines 403-468): the body from its
  own converter, no diagrams to upload, and the labels added only when there are any.
  Its keyword parameters are the fields of \<open>publish_cfg\<close> other than the Mermaid mode
  and width, which it ignores.\<close>

definition publish_document_v1 ::
  "'w server \<Rightarrow> renderers \<Rightarrow> publish_cfg \<Rightarrow> document \<Rightarrow> ('w, publish_result) client" where
  "publish_document_v1 srv rd cfg doc =
     (let body_html = markdown_to_html_v1 (pandoc rd (body_markdown doc)) (markdown_lib rd (body_markdown doc))
                        (body_markdown doc);
          target_parent = py_or (parent_id doc) (default_parent_id cfg);
          lbls = merge_labels (default_labels cfg) (labels doc)
      in cbind (if truthy (page_id doc) then get_page srv (the (page_id doc))
                else if update_if_title_match cfg then find_page_by_title srv (space_id cfg) (title doc)
                else ret None) (\<lambda>existing.
         case existing of
           Some ex \<Rightarrow>
             (let pid = pj_id ex in
              if \<not> update_if_title_match cfg \<and> \<not> truthy (page_id doc)
              then ret (mk_result ''skipped'' (Some pid) doc ''exists and update disabled'')
              else cbind (if truthy (page_id doc) then ret (Some ex) else get_page srv pid) (\<lambda>current_page.
                (let current_version = page_version current_page; next_version = current_version + 1 in
                 if dry_run cfg
                 then ret (mk_result ''dry-update'' (Some pid) doc
                            (''would update version '' @ string_of_int current_version @ '' -> ''
                             @ string_of_int next_version))
                 else cbind (update_page srv pid (title doc) body_html next_version target_parent) (\<lambda>updated.
                   case updated of
                     None \<Rightarrow> raise (BadResponse (UpdatePage pid (title doc) body_html next_version
                                                 (parent_field target_parent)))
                   | Some upd \<Rightarrow>
                       cbind (if lbls \<noteq> [] then add_labels srv (pj_id upd) lbls else ret ()) (\<lambda>_.
                         ret (mk_result ''updated'' (Some (pj_id upd)) doc []))))))
         | None \<Rightarrow>
             if \<not> create_if_missing cfg then ret (mk_result ''skipped'' None doc ''not found and create disabled'')
             else if dry_run cfg then ret (mk_result ''dry-create'' None doc ''would create new page'')
             else cbind (create_page srv (space_id cfg) (title doc) body_html target_parent) (\<lambda>created.
               case created of
                 None \<Rightarrow> raise (BadResponse (CreatePage (space_id cfg) (title doc) body_html
                                             (parent_field target_parent)))
               | Some cr \<Rightarrow>
                   cbind (if lbls \<noteq> [] then add_labels srv (pj_id cr) lbls else ret ()) (\<lambda>_.
                     ret (mk_result ''created'' (Some (pj_id cr)) doc [])))))"

text \<open>The settings of the earlier \<open>main\<close> (lines 501-531): no Mermaid mode, no width,
  and the missing-settings check as the only error (exit code 2).\<close>

record settings_v1 =
  v1_site :: string
  v1_email :: string
  v1_token :: string
  v1_space_key :: string
  v1_parent_id :: "string option"
  v1_glob :: string
  v1_default_labels :: "string list"
  v1_create :: bool
  v1_update :: bool

definition resolve_settings_v1 :: "cli_args \<Rightarrow> env \<Rightarrow> string + settings_v1" where
  "resolve_settings_v1 args env =
     (let site = strip (getenv env ''ATLASSIAN_SITE'' []);
          email = strip (getenv env ''ATLASSIAN_EMAIL'' []);
          token = strip (getenv env ''ATLASSIAN_API_TOKEN'' []);
          space_key = strip (arg_or (a_space_key args) (getenv env ''CONFLUENCE_SPACE_KEY'' []));
          parent = strip (arg_or (a_parent_id args) (getenv env ''CONFLUENCE_PARENT_ID'' []));
          glob_pattern = strip (arg_or (a_glob args) (getenv env ''MARKDOWN_GLOB'' ''docs/**/*.md''));
          default_lbls = parse_labels (Some (arg_or (a_default_labels args) (getenv env ''PUBLISH_DEFAULT_LABELS'' [])));
          create = bool_arg env (a_create_if_missing args) ''PUBLISH_CREATE_IF_MISSING'' True;
          upd = bool_arg env (a_update_if_title_match args) ''PUBLISH_UPDATE_IF_TITLE_MATCH'' True;
          missing = map fst (filter (\<lambda>nv. snd nv = [])
            [(''ATLASSIAN_SITE'', site), (''ATLASSIAN_EMAIL'', email),
             (''ATLASSIAN_API_TOKEN'', token), (''CONFLUENCE_SPACE_KEY'', space_key)])
      in if missing \<noteq> [] then Inl (''Missing required settings: '' @ py_join '', '' missing)
         else Inr \<lparr>v1_site = site, v1_email = email, v1_token = token, v1_space_key = space_key,
                    v1_parent_id = (if parent = [] then None else Some parent), v1_glob = glob_pattern,
                    v1_default_labels = default_lbls, v1_create = create, v1_update = upd\<rparr>)"

text \<open>The keyword arguments of the call of \<open>publish_document\<close> (lines 551-559); the
  mode and width fields, unused by \<open>publish_document_v1\<close>, carry the defaults of the
  skills \<open>markdown_to_html\<close>.\<close>

definition publish_cfg_of_v1 :: "cli_args \<Rightarrow> settings_v1 \<Rightarrow> string \<Rightarrow> publish_cfg" where
  "publish_cfg_of_v1 args st sid =
     \<lparr>space_id = sid, default_parent_id = v1_parent_id st, default_labels = v1_default_labels st,
      create_if_missing = v1_create st, update_if_title_match = v1_update st, dry_run = a_dry_run args,
      mode = ''code'', image_width = 1000\<rparr>"

fun run_batch_v1 ::
  "'w server \<Rightarrow> renderers \<Rightarrow> publish_cfg \<Rightarrow> (string \<times> string) list \<Rightarrow> 'w \<times> call_log \<Rightarrow> nat \<times> 'w \<times> call_log" where
  "run_batch_v1 srv rd cfg [] s = (0, s)"
| "run_batch_v1 srv rd cfg ((p, text) # files) s =
     (case publish_document_v1 srv rd cfg (parse_document p text) s of
        (res, s') \<Rightarrow> (case run_batch_v1 srv rd cfg files s' of
                        (failures, s'') \<Rightarrow> ((if isl res then Suc failures else failures), s'')))"

definition main_v1 ::
  "cli_args \<Rightarrow> env \<Rightarrow> string option \<Rightarrow> (string \<times> string) list \<Rightarrow> 'w server \<Rightarrow> renderers \<Rightarrow> 'w
   \<Rightarrow> int \<times> 'w \<times> call_log" where
  "main_v1 args env_in dotenv files srv rd w =
     (case load_dotenv env_in dotenv of
        None \<Rightarrow> (1, w, [])
      | Some env \<Rightarrow>
          (case resolve_settings_v1 args env of
             Inl msg \<Rightarrow> (2, w, [])
           | Inr st \<Rightarrow>
               if files = [] then (0, w, [])
               else (case get_space_by_key srv (v1_space_key st) (w, []) of
                       (Inl e, s1) \<Rightarrow> (1, s1)
                     | (Inr sid, s1) \<Rightarrow>
                         (case run_batch_v1 srv rd (publish_cfg_of_v1 args st sid) files s1 of
                            (failures, s2) \<Rightarrow> (if failures > 0 then 1 else 0, s2)))))"

text \<open>The legacy state the skills converter's state stands for.\<close>

definition legacy_of :: "conv_state \<Rightarrow> legacy_state" where
  "legacy_of st = \<lparr>lg_parts = parts st, lg_in_ul = in_ul st, lg_in_code_block = in_code_block st,
     lg_code_lang = code_lang st, lg_code_lines = code_lines st\<rparr>"

text \<open>The converter modes in which a Mermaid fence is an ordinary code block.\<close>

definition plain_mode :: "conv_cfg \<Rightarrow> bool" where
  "plain_mode cfg \<longleftrightarrow> mermaid_mode cfg \<noteq> ''macro'' \<and> mermaid_mode cfg \<noteq> ''attachment''"

definition no_table_lines :: "string \<Rightarrow> bool" where
  "no_table_lines text \<longleftrightarrow> list_all (\<lambda>l. \<not> startswith (strip l) ''|'') (splitlines False text)"

section \<open>Lemmas\<close>


lemma legacy_of_add_part [simp]: "legacy_of (add_part p st) = legacy_add_part p (legacy_of st)"
  by (simp add: legacy_of_def add_part_def legacy_add_part_def)

lemma legacy_of_close_list [simp]: "legacy_of (close_list st) = legacy_close_list (legacy_of st)"
  by (simp add: legacy_of_def close_list_def add_part_def legacy_close_list_def legacy_add_part_def)

lemma legacy_of_fields [simp]:
  "lg_in_ul (legacy_of st) = in_ul st" "lg_in_code_block (legacy_of st) = in_code_block st"
  "lg_code_lang (legacy_of st) = code_lang st" "lg_code_lines (legacy_of st) = code_lines st"
  "lg_parts (legacy_of st) = parts st"
  by (simp_all add: legacy_of_def)

lemma emit_plain: "plain_mode cfg \<Longrightarrow> emit_fenced_block cfg st l c = (emit_code_macro l c, st)"
  by (simp add: emit_fenced_block_def plain_mode_def)

lemma no_table_header: "\<not> startswith (strip l) ''|'' \<Longrightarrow> \<not> looks_like_table_header l n"
  by (simp add: looks_like_table_header_def Let_def)

lemma conv_step_legacy:
  assumes "plain_mode cfg" "\<not> startswith (strip raw_line) ''|''"
  shows "\<exists>st'. conv_step cfg st raw_line rest = Some (st', rest) \<and> legacy_of st' = legacy_step (legacy_of st) raw_line
              \<and> plans st' = plans st"
  using assms no_table_header [OF assms(2)]
  by (auto simp: conv_step_def legacy_step_def Let_def emit_plain start_code_block_def end_code_block_def
                 add_heading_def add_bullet_def add_paragraph_def legacy_of_def add_part_def legacy_add_part_def
                 close_list_def legacy_close_list_def strip_rstrip
           split: option.splits prod.splits)


lemma conv_loop_legacy:
  "plain_mode cfg \<Longrightarrow> list_all (\<lambda>l. \<not> startswith (strip l) ''|'') ls \<Longrightarrow>
   \<exists>st'. conv_loop cfg st ls = Some st' \<and> legacy_of st' = foldl legacy_step (legacy_of st) ls \<and> plans st' = plans st"
proof (induction ls arbitrary: st)
  case Nil
  then show ?case by simp
next
  case (Cons l ls)
  then obtain st1 where "conv_step cfg st l ls = Some (st1, ls)" "legacy_of st1 = legacy_step (legacy_of st) l"
    "plans st1 = plans st"
    using conv_step_legacy [of cfg l st ls] by auto
  with Cons show ?case by fastforce
qed

lemma conv_finish_legacy:
  "plain_mode cfg \<Longrightarrow> conv_finish cfg st = (legacy_finish (legacy_of st), snd (conv_finish cfg st))
     \<and> plans (snd (conv_finish cfg st)) = plans st"
  by (simp add: conv_finish_def legacy_finish_def flush_code_block_def emit_plain Let_def legacy_of_def
                close_list_def legacy_close_list_def add_part_def legacy_add_part_def)

lemma simple_markdown_to_html_legacy:
  assumes "plain_mode cfg" "no_table_lines text"
  shows "simple_markdown_to_html cfg ps text = Some (simple_markdown_to_html_v1 text, ps)"
proof -
  obtain st where "conv_loop cfg (init_state ps) (splitlines False text) = Some st"
    "legacy_of st = foldl legacy_step legacy_init (splitlines False text)" "plans st = ps"
    using conv_loop_legacy [OF assms(1), of "splitlines False text" "init_state ps"] assms(2)
    by (auto simp: no_table_lines_def legacy_of_def init_state_def legacy_init_def)
  with conv_finish_legacy [OF assms(1), of st] show ?thesis
    by (auto simp: simple_markdown_to_html_def simple_markdown_to_html_v1_def split: prod.splits)
qed

lemma add_labels_guard: "(if ls \<noteq> [] then add_labels srv pid ls else ret ()) = add_labels srv pid ls"
  by (simp add: add_labels_def)

lemma normalize_mode_code: "normalize_mode ''code'' = ''code''"
  by code_simp

lemma convert_doc_legacy:
  assumes "normalize_mode (mode cfg) \<notin> {''macro'', ''attachment''}" "no_table_lines (body_markdown doc)"
  shows "convert_doc rd cfg doc = Some (markdown_to_html_v1 (pandoc rd (body_markdown doc))
           (markdown_lib rd (body_markdown doc)) (body_markdown doc), [])"
proof -
  have "plain_mode \<lparr>mermaid_mode = normalize_mode (mode cfg), mermaid_image_prefix = Some (title doc),
          mermaid_image_width = image_width cfg\<rparr>"
    using assms(1) by (simp add: plain_mode_def)
  from simple_markdown_to_html_legacy [OF this assms(2)] assms(1) show ?thesis
    by (simp add: convert_doc_def markdown_to_html_def markdown_to_html_v1_def Let_def split: option.splits)
qed

lemma publish_document_of_convert:
  assumes "convert_doc rd cfg doc = Some (markdown_to_html_v1 (pandoc rd (body_markdown doc))
             (markdown_lib rd (body_markdown doc)) (body_markdown doc), [])"
  shows "publish_document srv rd cfg doc = publish_document_v1 srv rd cfg doc"
  using assms
  by (simp add: publish_document_def publish_document_v1_def publish_update_def [abs_def] publish_create_def
                lookup_existing_def upload_if_attachment_def cbind_ret_left add_labels_guard Let_def)

lemma publish_document_v1_cfg:
  "publish_document_v1 srv rd (cfg\<lparr>mode := m, image_width := n\<rparr>) doc = publish_document_v1 srv rd cfg doc"
  by (simp add: publish_document_v1_def cong: option.case_cong if_cong)

lemma resolve_settings_v1_of:
  "resolve_settings args env = Inr st \<Longrightarrow>
   resolve_settings_v1 args env = Inr \<lparr>v1_site = s_site st, v1_email = s_email st, v1_token = s_token st,
     v1_space_key = s_space_key st, v1_parent_id = s_parent_id st, v1_glob = s_glob st,
     v1_default_labels = s_default_labels st, v1_create = s_create st, v1_update = s_update st\<rparr>"
  by (auto simp: resolve_settings_def resolve_settings_v1_def Let_def split: if_splits sum.splits)


lemma run_batch_legacy:
  assumes "normalize_mode (mode cfg) \<notin> {''macro'', ''attachment''}"
    and "list_all (\<lambda>(p, text). no_table_lines (body_markdown (parse_document p text))) files"
  shows "run_batch_v1 srv rd (cfg\<lparr>mode := m, image_width := n\<rparr>) files s = run_batch srv rd cfg files s"
  using assms(2)
proof (induction files arbitrary: s)
  case (Cons f files)
  then show ?case
    by (cases f) (simp add: publish_document_v1_cfg publish_document_of_convert convert_doc_legacy [OF assms(1)]
                        split: prod.splits)
qed simp

section \<open>The skills copy refines the earlier copy\<close>

text \<open>C16: In the modes \<open>code\<close> and any other that is neither \<open>macro\<close> nor
  \<open>attachment\<close>, on a body without table lines, the skills \<open>markdown_to_html\<close> returns
  what the earlier copy returns, the external renderers included, and leaves the plan list
  as it was.\<close>

theorem markdown_to_html_legacy:
  assumes "normalize_mode (mermaid_mode cfg) \<notin> {''macro'', ''attachment''}" "no_table_lines text"
  shows "markdown_to_html pandoc_out lib_out cfg ps text = Some (markdown_to_html_v1 pandoc_out lib_out text, ps)"
proof -
  have "plain_mode (cfg\<lparr>mermaid_mode := normalize_mode (mermaid_mode cfg)\<rparr>)"
    using assms(1) by (simp add: plain_mode_def)
  from simple_markdown_to_html_legacy [OF this assms(2)] assms(1) show ?thesis
    by (simp add: markdown_to_html_def markdown_to_html_v1_def Let_def split: option.splits)
qed

text \<open>C15: On such a document the skills \<open>publish_document\<close> and the earlier one are the
  same client program: for every server they send the same requests and return the same
  result or error.\<close>

theorem publish_document_legacy:
  assumes "normalize_mode (mode cfg) \<notin> {''macro'', ''attachment''}" "no_table_lines (body_markdown doc)"
  shows "publish_document srv rd cfg doc = publish_document_v1 srv rd cfg doc"
  by (rule publish_document_of_convert [OF convert_doc_legacy [OF assms]])

text \<open>C14: With settings that resolve to the Mermaid mode \<open>code\<close> and files without
  table lines, the earlier \<open>main\<close> and the skills \<open>main\<close> return the same exit
  code, leave the wiki in the same state and send the same requests.\<close>

theorem main_legacy:
  assumes "\<forall>env'. load_dotenv env dotenv = Some env' \<longrightarrow>
             (\<exists>st. resolve_settings args env' = Inr st \<and> s_mermaid_mode st = ''code'')"
    and "list_all (\<lambda>(p, text). no_table_lines (body_markdown (parse_document p text))) files"
  shows "main_v1 args env dotenv files srv rd w = main args env dotenv files srv rd w"
proof (cases "load_dotenv env dotenv")
  case None
  then show ?thesis by (simp add: main_v1_def main_def)
next
  case (Some env')
  with assms(1) obtain st where st: "resolve_settings args env' = Inr st" "s_mermaid_mode st = ''code''" by blast
  have "publish_cfg_of_v1 args \<lparr>v1_site = s_site st, v1_email = s_email st, v1_token = s_token st,
     v1_space_key = s_space_key st, v1_parent_id = s_parent_id st, v1_glob = s_glob st,
     v1_default_labels = s_default_labels st, v1_create = s_create st, v1_update = s_update st\<rparr> sid
     = (publish_cfg_of args st sid)\<lparr>mode := ''code'', image_width := 1000\<rparr>" for sid
    by (simp add: publish_cfg_of_v1_def publish_cfg_of_def)
  moreover have "normalize_mode (mode (publish_cfg_of args st sid)) \<notin> {''macro'', ''attachment''}" for sid
    using st(2) by (simp add: publish_cfg_of_def normalize_mode_code)
  ultimately show ?thesis
    using Some st(1) assms(2) resolve_settings_v1_of [OF st(1)]
    by (simp add: main_v1_def main_def run_batch_legacy split: prod.splits sum.splits)
qed

theorem markdown_to_html_legacy_witness:
  "markdown_to_html None None default_cfg (Some []) (''# Hello'' @ [NL] @ ''- a'')
     = Some (markdown_to_html_v1 None None (''# Hello'' @ [NL] @ ''- a''), Some [])"
proof (rule markdown_to_html_legacy)
  show "normalize_mode (mermaid_mode default_cfg) \<notin> {''macro'', ''attachment''}" by code_simp
  show "no_table_lines (''# Hello'' @ [NL] @ ''- a'')" by code_simp
qed

theorem publish_document_legacy_witness:
  "publish_document wiki_srv no_renderers (cfg_of False ''code'') diagram_doc
     = publish_document_v1 wiki_srv no_renderers (cfg_of False ''code'') diagram_doc"
proof (rule publish_document_legacy)
  show "normalize_mode (mode (cfg_of False ''code'')) \<notin> {''macro'', ''attachment''}" by code_simp
  show "no_table_lines (body_markdown diagram_doc)" by code_simp
qed

theorem main_legacy_witness:
  "main_v1 args0 env0 None batch_files wiki_srv no_renderers wiki0 = main args0 env0 None batch_files wiki_srv no_renderers wiki0"
proof (rule main_legacy)
  have "load_dotenv env0 None = Some env0" by (simp add: load_dotenv_def)
  moreover have "map_sum id s_mermaid_mode (resolve_settings args0 env0) = Inr ''code''" by code_simp
  ultimately show "\<forall>env'. load_dotenv env0 None = Some env' \<longrightarrow>
      (\<exists>st. resolve_settings args0 env' = Inr st \<and> s_mermaid_mode st = ''code'')"
    by (cases "resolve_settings args0 env0") auto
  show "list_all (\<lambda>(p, text). no_table_lines (body_markdown (parse_document p text))) batch_files" by code_simp
qed

end
