(* ===== verification/Line_Cursor.thy ===== *)
theory Line_Cursor
  imports Converter "HOL-Library.Sublist"
begin

text \<open>
  The line cursor of \<open>simple_markdown_to_html\<close> as the code writes it: an index \<open>i\<close>
  into \<open>lines\<close> that the loop \<open>while i < len(lines)\<close> advances by one, or past the
  rows of a table. \<open>conv_while\<close> is that loop as a \<open>partial_function (option)\<close>, so
  that not returning would be \<open>None\<close>; the lemmas show that it is the recursion
  \<open>conv_loop\<close> of the converter theory on \<open>drop i lines\<close> and that it always returns.
  The second group states the well-formedness of the emitted list markup: read as a
  sequence of parts, \<open><ul>\<close> and \<open></ul>\<close> alternate, every \<open><li>\<close> part is inside
  a list and nothing else is, and the finished body closes every list it opens.
\<close>

text \<open>\<open>while i < len(lines): raw_line = lines[i] ...\<close> (lines 338-398): the step at
  line \<open>i\<close> sees the lines after it and leaves the index after the lines it consumed.\<close>

partial_function (option) conv_while :: "conv_cfg \<Rightarrow> string list \<Rightarrow> conv_state \<Rightarrow> nat \<Rightarrow> conv_state option" where
  "conv_while cfg lines st i =
     (if i < length lines
      then (case conv_step cfg st (lines ! i) (drop (Suc i) lines) of
              None \<Rightarrow> None
            | Some (st', rest') \<Rightarrow> conv_while cfg lines st' (length lines - length rest'))
      else Some st)"

text \<open>The list structure of a sequence of parts: \<open>Some b\<close> when it is well nested
  and ends inside a list exactly when \<open>b\<close>, \<open>None\<close> at the first misplaced part.\<close>

fun ul_scan :: "bool \<Rightarrow> string list \<Rightarrow> bool option" where
  "ul_scan b [] = Some b"
| "ul_scan b (p # ps) =
     (if p = ''<ul>'' then (if b then None else ul_scan True ps)
      else if p = ''</ul>'' then (if b then ul_scan False ps else None)
      else if startswith p ''<li>'' = b then ul_scan b ps else None)"

text \<open>The invariant of the cursor state, and the parts that are neither list tags
  nor list items.\<close>

definition ul_inv :: "conv_state \<Rightarrow> bool" where
  "ul_inv st \<longleftrightarrow> ul_scan False (parts st) = Some (in_ul st)"

definition plain_part :: "string \<Rightarrow> bool" where
  "plain_part p \<longleftrightarrow> p \<noteq> ''<ul>'' \<and> p \<noteq> ''</ul>'' \<and> \<not> startswith p ''<li>''"

section \<open>Lemmas\<close>

lemma suffix_dropWhile: "suffix (dropWhile P xs) xs"
  by (induction xs) (auto intro: suffix_ConsI)

lemma conv_step_suffix:
  "conv_step cfg st l rest = Some (st', rest') \<Longrightarrow> suffix rest' rest"
  by (auto simp: conv_step_def Let_def split: option.splits if_splits
           intro: suffix_order.trans [OF suffix_dropWhile] suffix_tl)

lemma suffix_drop_length: "suffix xs ys \<Longrightarrow> drop (length ys - length xs) ys = xs"
  by (auto simp: suffix_def)

lemma conv_while_loop: "conv_while cfg lines st i = conv_loop cfg st (drop i lines)"
proof (induction "length lines - i" arbitrary: i st rule: less_induct)
  case less
  show ?case
  proof (cases "i < length lines")
    case True
    then have d: "drop i lines = lines ! i # drop (Suc i) lines" by (simp add: Cons_nth_drop_Suc)
    show ?thesis
    proof (cases "conv_step cfg st (lines ! i) (drop (Suc i) lines)")
      case None
      with True d show ?thesis by (simp add: conv_while.simps)
    next
      case (Some r)
      obtain st' rest' where r: "r = (st', rest')" by fastforce
      have sfx: "suffix rest' (drop (Suc i) lines)" using conv_step_suffix Some r by blast
      then have "suffix rest' lines" using suffix_drop suffix_order.trans by blast
      then have eq: "drop (length lines - length rest') lines = rest'" by (rule suffix_drop_length)
      have "length rest' \<le> length lines - Suc i" using sfx by (auto dest: suffix_length_le)
      then have "length lines - (length lines - length rest') < length lines - i" using True by simp
      with less eq True d Some r show ?thesis by (simp add: conv_while.simps)
    qed
  next
    case False
    then show ?thesis by (simp add: conv_while.simps)
  qed
qed

lemma ul_scan_append:
  "ul_scan b (xs @ ys) = (case ul_scan b xs of None \<Rightarrow> None | Some b' \<Rightarrow> ul_scan b' ys)"
  by (induction b xs rule: ul_scan.induct) auto

lemma ul_inv_close_list: "ul_inv st \<Longrightarrow> ul_inv (close_list st)"
  by (simp add: ul_inv_def close_list_def add_part_def ul_scan_append startswith_def)

lemma ul_inv_add_plain: "ul_inv st \<Longrightarrow> \<not> in_ul st \<Longrightarrow> plain_part p \<Longrightarrow> ul_inv (add_part p st)"
  by (simp add: ul_inv_def add_part_def ul_scan_append plain_part_def)

lemma ul_inv_add_plain_closed: "ul_inv st \<Longrightarrow> plain_part p \<Longrightarrow> ul_inv (add_part p (close_list st))"
  by (simp add: ul_inv_add_plain ul_inv_close_list)

lemma plain_part_emit: "emit_fenced_block cfg st l c = (out, st') \<Longrightarrow> plain_part out"
  by (auto simp: emit_fenced_block_def emit_code_macro_def emit_mermaid_macro_def emit_mermaid_image_macro_def
                 Let_def plain_part_def startswith_def split: if_splits)

lemma ul_inv_end_code_block: "ul_inv st \<Longrightarrow> ul_inv (end_code_block cfg st)"
proof -
  assume a: "ul_inv st"
  obtain out st2 where e: "emit_fenced_block cfg (close_list st) (code_lang st)
      (py_join [NL] (code_lines st)) = (out, st2)" by fastforce
  have "parts st2 = parts (close_list st)" "in_ul st2 = in_ul (close_list st)"
    using emit_fenced_block_state [OF e] by simp_all
  then have "ul_inv st2" "\<not> in_ul st2" using ul_inv_close_list [OF a] by (simp_all add: ul_inv_def)
  then have "ul_inv (add_part out st2)" by (intro ul_inv_add_plain plain_part_emit [OF e])
  with e show ?thesis by (simp add: end_code_block_def ul_inv_def add_part_def)
qed

lemma plain_part_table: "render_markdown_table ls = Some tbl \<Longrightarrow> plain_part tbl"
  by (auto simp: render_markdown_table_def Let_def plain_part_def startswith_def split: list.splits option.splits)

lemma ul_inv_step:
  assumes "ul_inv st" "conv_step cfg st l rest = Some (st', rest')"
  shows "ul_inv st'"
proof -
  have "ul_inv (start_code_block st t)" for t
    using ul_inv_close_list [OF assms(1)] by (simp add: start_code_block_def ul_inv_def)
  moreover have "ul_inv (add_heading st n t)" for n t
    using assms(1) by (simp add: add_heading_def ul_inv_add_plain_closed plain_part_def startswith_def)
  moreover have "ul_inv (add_paragraph st t)" for t
    using assms(1) by (simp add: add_paragraph_def ul_inv_add_plain_closed plain_part_def startswith_def)
  moreover have "ul_inv (add_bullet st t)" for t
    using assms(1) by (simp add: add_bullet_def ul_inv_def add_part_def ul_scan_append startswith_def Let_def)
  moreover have "ul_inv (st\<lparr>code_lines := code_lines st @ [l]\<rparr>)"
    using assms(1) by (simp add: ul_inv_def)
  moreover have "render_markdown_table ls = Some tbl \<Longrightarrow> ul_inv (add_part tbl (close_list st))" for ls tbl
    using assms(1) by (blast intro: ul_inv_add_plain_closed plain_part_table)
  ultimately show ?thesis
    using assms ul_inv_close_list [OF assms(1)] ul_inv_end_code_block [OF assms(1)]
    by (auto simp: conv_step_def Let_def split: option.splits if_splits)
qed

lemma ul_inv_finish: "ul_inv st \<Longrightarrow> ul_scan False (parts (snd (conv_finish cfg st))) = Some False"
proof -
  assume a: "ul_inv st"
  then have c: "ul_inv (close_list st)" by (rule ul_inv_close_list)
  obtain out st2 where e: "emit_fenced_block cfg (close_list st) (code_lang st)
      (py_join [NL] (code_lines st)) = (out, st2)" by fastforce
  have "parts st2 = parts (close_list st)" "in_ul st2 = in_ul (close_list st)"
    using emit_fenced_block_state [OF e] by simp_all
  then have "ul_inv st2" "\<not> in_ul st2" using c by (simp_all add: ul_inv_def)
  then have "ul_inv (add_part out st2)" "\<not> in_ul (add_part out st2)"
    by (simp_all add: ul_inv_add_plain plain_part_emit [OF e]) (simp add: add_part_def)
  with c e show ?thesis
    by (simp add: conv_finish_def flush_code_block_def Let_def ul_inv_def)
qed

lemma conv_reach_ul_inv: "conv_reach cfg st \<Longrightarrow> ul_inv st"
  by (induction rule: conv_reach.induct) (simp add: ul_inv_def init_state_def, simp add: ul_inv_def init_state_def, blast intro: ul_inv_step)

section \<open>Termination and well-formedness\<close>

text \<open>C18: The index loop of the converter returns for every configuration, state, line
  list and start index: the cursor never moves back and every iteration consumes at least
  one line (none of the branches leaves \<open>i\<close> unchanged).\<close>

theorem conv_while_terminates: "\<exists>st'. conv_while cfg lines st i = Some st'"
  by (simp add: conv_while_loop conv_loop_total)

text \<open>C17: In every state the converter reaches, its parts are well nested lists
  (\<open><ul>\<close> and \<open></ul>\<close> alternate, \<open><li>\<close> parts only inside a list) with a list
  open exactly when \<open>in_ul\<close> is set, and the parts of the finished body close every
  list.\<close>

theorem conv_reach_lists_nested:
  "conv_reach cfg st \<Longrightarrow> ul_scan False (parts st) = Some (in_ul st)
     \<and> ul_scan False (parts (snd (conv_finish cfg st))) = Some False"
  using conv_reach_ul_inv ul_inv_finish unfolding ul_inv_def by blast

theorem conv_reach_lists_nested_witness:
  "ul_scan False (parts (add_bullet (init_state None) ''a'')) = Some True
   \<and> ul_scan False (parts (snd (conv_finish default_cfg (add_bullet (init_state None) ''a'')))) = Some False"
proof -
  have "conv_step default_cfg (init_state None) ''- a'' [] = Some (add_bullet (init_state None) ''a'', [])"
    by code_simp
  from conv_reach_lists_nested [OF conv_reach.reach_step [OF conv_reach.reach_none this]]
  show ?thesis by (simp add: add_bullet_def add_part_def init_state_def)
qed

end
