(* ===== verification/Progress.thy ===== *)
theory Progress
  imports Wiki
begin

text \<open>
  Progress of the reconciliation engine against a server that answers: every request
  gets an answer of the shape the client method expects (a space for the space key,
  a page object for a page request, an attachment id for an upload). Against such a
  server the diagram upload loop uploads every plan, in order, and a publication with
  creation and updates enabled and dry-run off ends with the page created or updated.
\<close>

text \<open>The answers each client method accepts without raising.\<close>

fun resp_ok :: "request \<Rightarrow> response \<Rightarrow> bool" where
  "resp_ok (GetSpace _) (RSpaces rs) \<longleftrightarrow> rs \<noteq> []"
| "resp_ok (FindPage _ _) (RPages _) \<longleftrightarrow> True"
| "resp_ok (GetPage _) (RPage p) \<longleftrightarrow> True"
| "resp_ok (CreatePage _ _ _ _) (RPage p) \<longleftrightarrow> p \<noteq> None"
| "resp_ok (UpdatePage _ _ _ _ _) (RPage p) \<longleftrightarrow> p \<noteq> None"
| "resp_ok (AddLabels _ _) _ \<longleftrightarrow> True"
| "resp_ok (FindAttachment _ _) (RAttachments _) \<longleftrightarrow> True"
| "resp_ok (UploadAttachment _ _ _ _) (RUpload oid rs) \<longleftrightarrow> oid \<noteq> None \<and> oid \<noteq> Some []"
| "resp_ok _ _ \<longleftrightarrow> False"

definition responsive :: "'w server \<Rightarrow> bool" where
  "responsive srv \<longleftrightarrow> (\<forall>w q. \<exists>w' r. srv w q = Some (w', r) \<and> resp_ok q r)"

text \<open>A computation that returns a value satisfying \<open>Q\<close> from every start.\<close>

definition succeeds :: "('w, 'a) client \<Rightarrow> ('a \<Rightarrow> bool) \<Rightarrow> bool" where
  "succeeds m Q \<longleftrightarrow> (\<forall>s. case fst (m s) of Inl e \<Rightarrow> False | Inr x \<Rightarrow> Q x)"

text \<open>The file names of the uploads in a log.\<close>

fun upload_name :: "request \<Rightarrow> string option" where
  "upload_name (UploadAttachment _ f _ _) = Some f"
| "upload_name _ = None"

text \<open>A server that accepts every request: the space \<open>42\<close>, no page with the title,
  page objects for the page requests, no attachment yet, and an attachment id for every
  upload.\<close>

fun ok_answer :: "request \<Rightarrow> response" where
  "ok_answer (GetSpace k) = RSpaces [''42'']"
| "ok_answer (FindPage s t) = RPages []"
| "ok_answer (GetPage p) = RPage (Some \<lparr>pj_id = p, pj_title = [], pj_version = Some 1\<rparr>)"
| "ok_answer (CreatePage s t b par) = RPage (Some \<lparr>pj_id = ''1'', pj_title = t, pj_version = Some 1\<rparr>)"
| "ok_answer (UpdatePage p t b v par) = RPage (Some \<lparr>pj_id = p, pj_title = t, pj_version = Some v\<rparr>)"
| "ok_answer (AddLabels p ls) = RIgnored"
| "ok_answer (FindAttachment p f) = RAttachments []"
| "ok_answer (UploadAttachment p f e d) = RUpload (Some ''att1'') []"

definition ok_srv :: "unit server" where
  "ok_srv w q = Some (w, ok_answer q)"

section \<open>Rules\<close>

lemma succeeds_ret: "Q x \<Longrightarrow> succeeds (ret x) Q"
  by (simp add: succeeds_def ret_def)

lemma succeeds_cbind:
  assumes m: "succeeds m R" and f: "\<And>x. R x \<Longrightarrow> succeeds (f x) Q"
  shows "succeeds (cbind m f) Q"
  unfolding succeeds_def
proof
  fix s
  obtain r s' where ms: "m s = (r, s')" by (cases "m s") blast
  have "case fst (m s) of Inl e \<Rightarrow> False | Inr x \<Rightarrow> R x" using m unfolding succeeds_def by blast
  then have "case r of Inl e \<Rightarrow> False | Inr x \<Rightarrow> R x" using ms by simp
  then obtain x where "r = Inr x" "R x" by (cases r) auto
  moreover from f [OF \<open>R x\<close>] have "case fst (f x s') of Inl e \<Rightarrow> False | Inr x \<Rightarrow> Q x"
    unfolding succeeds_def by blast
  ultimately show "case fst (cbind m f s) of Inl e \<Rightarrow> False | Inr x \<Rightarrow> Q x"
    using ms by (simp add: cbind_def)
qed

lemma succeeds_call:
  assumes "responsive srv" shows "succeeds (call srv q) (resp_ok q)"
  unfolding succeeds_def
proof
  fix s :: "'a \<times> call_log"
  obtain w log where s: "s = (w, log)" by fastforce
  obtain w' r where "srv w q = Some (w', r)" "resp_ok q r" using assms unfolding responsive_def by blast
  with s show "case fst (call srv q s) of Inl e \<Rightarrow> False | Inr x \<Rightarrow> resp_ok q x"
    by (simp add: call_def)
qed

lemma succeeds_if:
  "(b \<Longrightarrow> succeeds m1 Q) \<Longrightarrow> (\<not> b \<Longrightarrow> succeeds m2 Q) \<Longrightarrow> succeeds (if b then m1 else m2) Q"
  by simp

lemma succeeds_weaken: "succeeds m R \<Longrightarrow> (\<And>x. R x \<Longrightarrow> Q x) \<Longrightarrow> succeeds m Q"
  unfolding succeeds_def by (auto split: sum.splits)


section \<open>The client methods succeed against a responsive server\<close>

lemma succeeds_get_page: "responsive srv \<Longrightarrow> succeeds (get_page srv pid) (\<lambda>_. True)"
  unfolding get_page_def
  by (rule succeeds_cbind [OF succeeds_call]) (auto intro: succeeds_ret split: response.splits)

lemma succeeds_find_page: "responsive srv \<Longrightarrow> succeeds (find_page_by_title srv sp t) (\<lambda>_. True)"
  unfolding find_page_by_title_def
  by (rule succeeds_cbind [OF succeeds_call]) (auto intro: succeeds_ret split: response.splits)

lemma succeeds_create_page: "responsive srv \<Longrightarrow> succeeds (create_page srv sp t b par) (\<lambda>p. p \<noteq> None)"
  unfolding create_page_def Let_def
  by (rule succeeds_cbind [OF succeeds_call]) (auto intro: succeeds_ret split: response.splits)

lemma succeeds_update_page: "responsive srv \<Longrightarrow> succeeds (update_page srv pid t b v par) (\<lambda>p. p \<noteq> None)"
  unfolding update_page_def Let_def
  by (rule succeeds_cbind [OF succeeds_call]) (auto intro: succeeds_ret split: response.splits)

lemma succeeds_add_labels: "responsive srv \<Longrightarrow> succeeds (add_labels srv pid ls) (\<lambda>_. True)"
  unfolding add_labels_def
  by (auto intro!: succeeds_ret succeeds_cbind [OF succeeds_call])

lemma succeeds_find_attachment: "responsive srv \<Longrightarrow> succeeds (find_attachment_by_filename srv pid f) (\<lambda>_. True)"
  unfolding find_attachment_by_filename_def
  by (rule succeeds_cbind [OF succeeds_call]) (auto intro: succeeds_ret split: response.splits)

lemma succeeds_upload_bytes: "responsive srv \<Longrightarrow> succeeds (upload_attachment_bytes srv pid f d) (\<lambda>_. True)"
  unfolding upload_attachment_bytes_def Let_def
  by (rule succeeds_cbind [OF succeeds_find_attachment], assumption, rule succeeds_cbind [OF succeeds_call])
     (auto intro: succeeds_ret split: response.splits)

lemma succeeds_uploads: "responsive srv \<Longrightarrow> succeeds (upload_mermaid_image_attachments srv rd pid ps) (\<lambda>_. True)"
  by (induction ps) (auto intro!: succeeds_ret succeeds_cbind [OF succeeds_upload_bytes])

lemma succeeds_upload_if: "responsive srv \<Longrightarrow> succeeds (upload_if_attachment srv rd cfg pid ps) (\<lambda>_. True)"
  unfolding upload_if_attachment_def by (auto intro!: succeeds_ret succeeds_uploads)

lemma succeeds_lookup: "responsive srv \<Longrightarrow> succeeds (lookup_existing srv cfg doc) (\<lambda>_. True)"
  unfolding lookup_existing_def by (auto intro!: succeeds_ret succeeds_get_page succeeds_find_page)

lemma succeeds_publish_update:
  "responsive srv \<Longrightarrow> \<not> dry_run cfg \<Longrightarrow> update_if_title_match cfg \<Longrightarrow>
   succeeds (publish_update srv rd cfg doc h ps m ex) (\<lambda>r. action r = ''updated'')"
  unfolding publish_update_def Let_def
  by (auto intro!: succeeds_ret succeeds_cbind [OF succeeds_get_page] succeeds_cbind [OF succeeds_upload_if]
                   succeeds_cbind [OF succeeds_update_page] succeeds_cbind [OF succeeds_add_labels]
           simp: mk_result_def cbind_ret_left split: option.splits)

lemma succeeds_publish_create:
  "responsive srv \<Longrightarrow> \<not> dry_run cfg \<Longrightarrow> create_if_missing cfg \<Longrightarrow>
   succeeds (publish_create srv rd cfg doc h ps m) (\<lambda>r. action r = ''created'')"
  unfolding publish_create_def Let_def
  by (auto intro!: succeeds_ret succeeds_cbind [OF succeeds_create_page] succeeds_cbind [OF succeeds_upload_if]
                   succeeds_cbind [OF succeeds_add_labels] simp: mk_result_def split: option.splits)


lemma simple_markdown_to_html_Some: "\<exists>h ps'. simple_markdown_to_html cfg ps t = Some (h, ps')"
  using simple_markdown_to_html_nonempty by blast

lemma markdown_to_html_not_None: "markdown_to_html p l cfg ps t \<noteq> None"
  by (simp add: markdown_to_html_def Let_def simple_markdown_to_html_Some split: option.splits)

lemma convert_doc_Some: "\<exists>h ps. convert_doc rd cfg doc = Some (h, ps)"
  using markdown_to_html_not_None by (fastforce simp: convert_doc_def split: option.splits)

lemma map_filter_app: "List.map_filter f (xs @ ys) = List.map_filter f xs @ List.map_filter f ys"
  by (simp add: List.map_filter_def)

lemma upload_bytes_log:
  assumes "responsive srv"
  shows "\<exists>x w' new. upload_attachment_bytes srv pid f d (w, log) = (Inr x, w', log @ new)
           \<and> List.map_filter (upload_name \<circ> fst) new = [safe_filename f]"
proof -
  obtain w1 r1 where 1: "srv w (FindAttachment pid f) = Some (w1, r1)" "resp_ok (FindAttachment pid f) r1"
    using assms unfolding responsive_def by blast
  then obtain rows where r1: "r1 = RAttachments rows" by (cases r1) auto
  define ex where "ex = (case find (\<lambda>row. snd row = f) rows of Some row \<Rightarrow> Some (fst row)
                         | None \<Rightarrow> if rows = [] then None else Some (fst (hd rows)))"
  obtain w2 r2 where 2: "srv w1 (UploadAttachment pid (safe_filename f) ex d) = Some (w2, r2)"
    "resp_ok (UploadAttachment pid (safe_filename f) ex d) r2"
    using assms unfolding responsive_def by blast
  then obtain oid rs where r2: "r2 = RUpload (Some oid) rs" "oid \<noteq> []" by (cases r2) auto
  show ?thesis
    using 1(1) 2(1) r1 r2
    by (simp add: upload_attachment_bytes_def find_attachment_by_filename_def call_def cbind_def ret_def
                  Let_def ex_def List.map_filter_def)
qed

lemma ok_srv_responsive: "responsive ok_srv"
  unfolding responsive_def ok_srv_def
proof (intro allI)
  fix w q show "\<exists>w' r. Some (w, ok_answer q) = Some (w', r) \<and> resp_ok q r"
    by (cases q) simp_all
qed

section \<open>Progress\<close>

text \<open>C20: Against a server that answers every request as the client expects, the upload
  loop of \<open>upload_mermaid_image_attachments\<close> returns normally after one upload per plan,
  in the order of the plans and under the sanitised file names: no plan is skipped.\<close>

theorem uploads_every_plan:
  assumes "responsive srv"
  shows "\<exists>w' new. upload_mermaid_image_attachments srv rd pid ps (w, log) = (Inr (), w', log @ new)
           \<and> List.map_filter (upload_name \<circ> fst) new = map (safe_filename \<circ> filename) ps"
proof (induction ps arbitrary: w log)
  case Nil
  then show ?case by (simp add: ret_def List.map_filter_simps)
next
  case (Cons p ps)
  obtain x w1 new1 where 1: "upload_attachment_bytes srv pid (filename p) (svg_for_plan rd p) (w, log)
      = (Inr x, w1, log @ new1)" "List.map_filter (upload_name \<circ> fst) new1 = [safe_filename (filename p)]"
    using upload_bytes_log [OF assms] by blast
  obtain w2 new2 where 2: "upload_mermaid_image_attachments srv rd pid ps (w1, log @ new1) = (Inr (), w2, (log @ new1) @ new2)"
    "List.map_filter (upload_name \<circ> fst) new2 = map (safe_filename \<circ> filename) ps"
    using Cons.IH by blast
  have m: "List.map_filter (upload_name \<circ> fst) (new1 @ new2) = map (safe_filename \<circ> filename) (p # ps)"
    unfolding map_filter_app 1(2) 2(2) by simp
  have "upload_mermaid_image_attachments srv rd pid (p # ps) (w, log) = (Inr (), w2, log @ new1 @ new2)"
    using 1(1) 2(1) by (simp add: cbind_def)
  with m show ?case by blast
qed

text \<open>C19: Against such a server, with creation and updates enabled and dry-run off,
  \<open>publish_document\<close> always returns normally, and the page is created or updated.\<close>

theorem publish_completes:
  assumes "responsive srv" "\<not> dry_run cfg" "create_if_missing cfg" "update_if_title_match cfg"
  shows "succeeds (publish_document srv rd cfg doc) (\<lambda>res. action res \<in> {''created'', ''updated''})"
proof -
  obtain h ps where c: "convert_doc rd cfg doc = Some (h, ps)" using convert_doc_Some by blast
  show ?thesis
    unfolding publish_document_def c Let_def
    by (auto intro!: succeeds_cbind [OF succeeds_lookup [OF assms(1)]] split: option.splits
             intro: succeeds_weaken [OF succeeds_publish_update [OF assms(1,2,4)]]
                    succeeds_weaken [OF succeeds_publish_create [OF assms(1,2,3)]])
qed

theorem uploads_every_plan_witness:
  "\<exists>w' new. upload_mermaid_image_attachments ok_srv no_renderers ''7''
      [\<lparr>filename = ''a '' @ [DQ] @ ''1'' @ [DQ] @ ''.svg'', mermaid_source = ''graph TD''\<rparr>, \<lparr>filename = ''b.svg'', mermaid_source = []\<rparr>]
      ((), []) = (Inr (), w', [] @ new)
    \<and> List.map_filter (upload_name \<circ> fst) new = [''a _1_.svg'', ''b.svg'']"
proof -
  have "map (safe_filename \<circ> filename) [\<lparr>filename = ''a '' @ [DQ] @ ''1'' @ [DQ] @ ''.svg'', mermaid_source = ''graph TD''\<rparr>,
      \<lparr>filename = ''b.svg'', mermaid_source = []\<rparr>] = [''a _1_.svg'', ''b.svg'']" by code_simp
  with uploads_every_plan [OF ok_srv_responsive] show ?thesis by metis
qed

theorem publish_completes_witness:
  "succeeds (publish_document ok_srv no_renderers (cfg_of False ''code'') hello_doc)
     (\<lambda>res. action res \<in> {''created'', ''updated''})"
  by (rule publish_completes [OF ok_srv_responsive]) (simp_all add: cfg_of_def)

end
