(* ===== verification/Http.thy ===== *)
theory Http
  imports Client
begin

text \<open>
  The HTTP layer of \<open>ConfluenceClient\<close> that the client theory leaves abstract: the
  \<open>Authorization\<close> header built in \<open>__init__\<close>, the method, path, query and JSON
  payload each client method hands to \<open>_request\<close>, the URL \<open>_request\<close> builds with
  \<open>urlencode(query, doseq=True)\<close>, and the multipart body and URL of
  \<open>upload_attachment_bytes\<close>. The library encoders (\<open>quote_plus\<close>,
  \<open>base64.b64encode\<close>) are written out on strings of bytes (a \<open>char\<close> is a byte,
  as in the rest of the development: the UTF-8 encoding of non-ASCII text is not
  modelled). The decoders \<open>unquote_plus\<close>, \<open>decode_query\<close> and \<open>b64decode\<close> are the
  server's side, and the lemmas show that the server reads back exactly what the client
  meant: every query parameter (a page title with \<open>&\<close>, \<open>=\<close>, \<open>+\<close> or spaces
  included) and the \<open>email:token\<close> credential.
\<close>


section \<open>Percent encoding\<close>

text \<open>\<open>urllib.parse.quote_plus(s)\<close> with \<open>safe=''\<close>: letters, digits and \<open>_.-~\<close>
  stay, a space becomes \<open>+\<close>, every other byte \<open>%XX\<close> in upper-case hex.\<close>

definition url_safe :: "char \<Rightarrow> bool" where
  "url_safe c \<longleftrightarrow> is_upper c \<or> is_lower c \<or> is_digit c \<or> c \<in> set ''_.-~''"

definition hex_digit :: "nat \<Rightarrow> char" where
  "hex_digit n = (if n < 10 then char_of (48 + n) else char_of (55 + n))"

definition quote_char :: "char \<Rightarrow> string" where
  "quote_char c =
     (if url_safe c then [c]
      else if c = CHR '' '' then ''+''
      else [CHR ''%'', hex_digit (of_char c div 16), hex_digit (of_char c mod 16)])"

definition quote_plus :: "string \<Rightarrow> string" where
  "quote_plus s = concat (map quote_char s)"

text \<open>The decoding a form parser applies: \<open>+\<close> is a space, \<open>%XX\<close> the byte \<open>XX\<close>.\<close>

fun hex_val :: "char \<Rightarrow> nat option" where
  "hex_val c =
     (let n = of_char c in
      if 48 \<le> n \<and> n \<le> 57 then Some (n - 48)
      else if 65 \<le> n \<and> n \<le> 70 then Some (n - 55)
      else if 97 \<le> n \<and> n \<le> 102 then Some (n - 87)
      else None)"

fun unquote_plus :: "string \<Rightarrow> string" where
  "unquote_plus [] = []"
| "unquote_plus (c # cs) =
     (if c = CHR ''+'' then CHR '' '' # unquote_plus cs
      else if c = CHR ''%'' \<and> length cs \<ge> 2 \<and> hex_val (cs ! 0) \<noteq> None \<and> hex_val (cs ! 1) \<noteq> None
      then char_of (16 * the (hex_val (cs ! 0)) + the (hex_val (cs ! 1))) # unquote_plus (drop 2 cs)
      else c # unquote_plus cs)"

section \<open>Queries and URLs\<close>

text \<open>The values of the query dictionaries the client methods pass to \<open>_request\<close>: a
  string, an integer (\<open>"limit"\<close>) or a list of strings.\<close>

datatype qval = QStr string | QInt int | QList "string list"

text \<open>\<open>urlencode(query, doseq=True)\<close>: one \<open>key=value\<close> pair per string, per integer
  (\<open>str(v)\<close>) and per element of a list, in the order of the dictionary, both sides
  encoded by \<open>quote_plus\<close>, joined by \<open>&\<close>.\<close>

fun qval_strs :: "qval \<Rightarrow> string list" where
  "qval_strs (QStr s) = [s]"
| "qval_strs (QInt n) = [string_of_int n]"
| "qval_strs (QList xs) = xs"

definition query_pairs :: "(string \<times> qval) list \<Rightarrow> (string \<times> string) list" where
  "query_pairs q = concat (map (\<lambda>(k, v). map (\<lambda>s. (k, s)) (qval_strs v)) q)"

definition urlencode :: "(string \<times> qval) list \<Rightarrow> string" where
  "urlencode q = py_join ''&'' (map (\<lambda>(k, s). quote_plus k @ ''='' @ quote_plus s) (query_pairs q))"

text \<open>The JSON payloads, as the dictionaries and lists the code builds.\<close>

datatype json = JStr string | JInt int | JObj "(string \<times> json) list" | JArr "json list"

record http_call =
  h_method :: string
  h_path :: string
  h_query :: "(string \<times> qval) list"
  h_body :: "json option"

definition storage_body :: "string \<Rightarrow> json" where
  "storage_body b = JObj [(''representation'', JStr ''storage''), (''value'', JStr b)]"

definition parent_entry :: "string option \<Rightarrow> (string \<times> json) list" where
  "parent_entry par = (case par of Some p \<Rightarrow> [(''parentId'', JStr p)] | None \<Rightarrow> [])"

text \<open>The arguments of the \<open>_request\<close> call of each client method (lines 515-593 and
  652-662); the upload does not go through \<open>_request\<close>.\<close>

fun http_of :: "request \<Rightarrow> http_call option" where
  "http_of (GetSpace key) = Some \<lparr>h_method = ''GET'', h_path = ''/wiki/api/v2/spaces'',
     h_query = [(''keys'', QList [key]), (''limit'', QInt 1)], h_body = None\<rparr>"
| "http_of (FindPage sid t) = Some \<lparr>h_method = ''GET'', h_path = ''/wiki/api/v2/pages'',
     h_query = [(''space-id'', QList [sid]), (''status'', QList [''current'']), (''title'', QStr t),
                (''limit'', QInt 25)], h_body = None\<rparr>"
| "http_of (GetPage pid) = Some \<lparr>h_method = ''GET'', h_path = ''/wiki/api/v2/pages/'' @ pid,
     h_query = [(''body-format'', QStr ''storage'')], h_body = None\<rparr>"
| "http_of (CreatePage sid t b par) = Some \<lparr>h_method = ''POST'', h_path = ''/wiki/api/v2/pages'',
     h_query = [], h_body = Some (JObj ([(''spaceId'', JStr sid), (''status'', JStr ''current''),
       (''title'', JStr t), (''body'', storage_body b)] @ parent_entry par))\<rparr>"
| "http_of (UpdatePage pid t b v par) = Some \<lparr>h_method = ''PUT'', h_path = ''/wiki/api/v2/pages/'' @ pid,
     h_query = [], h_body = Some (JObj ([(''id'', JStr pid), (''status'', JStr ''current''),
       (''title'', JStr t), (''body'', storage_body b),
       (''version'', JObj [(''number'', JInt v), (''message'', JStr ''Updated by Codex publisher'')])]
       @ parent_entry par))\<rparr>"
| "http_of (AddLabels pid ls) = Some \<lparr>h_method = ''POST'', h_path = ''/wiki/rest/api/content/'' @ pid @ ''/label'',
     h_query = [], h_body = Some (JArr (map (\<lambda>l. JObj [(''prefix'', JStr ''global''), (''name'', JStr l)]) ls))\<rparr>"
| "http_of (FindAttachment pid f) = Some \<lparr>h_method = ''GET'',
     h_path = ''/wiki/rest/api/content/'' @ pid @ ''/child/attachment'',
     h_query = [(''filename'', QStr f), (''limit'', QInt 5)], h_body = None\<rparr>"
| "http_of (UploadAttachment pid f e d) = None"

text \<open>\<open>url = f"https://{self.site}{path}"\<close>, with \<open>?\<close> and the encoded query when the
  query dictionary is not empty and encodes to a non-empty string (lines 485-489).\<close>

definition request_url :: "string \<Rightarrow> http_call \<Rightarrow> string" where
  "request_url site hc =
     (let enc = urlencode (h_query hc) in
      ''https://'' @ site @ h_path hc @ (if h_query hc \<noteq> [] \<and> enc \<noteq> [] then ''?'' @ enc else []))"

text \<open>A form decoder: the pieces between \<open>&\<close>, each split at its first \<open>=\<close>, both sides
  decoded by \<open>unquote_plus\<close>.\<close>

definition decode_pair :: "string \<Rightarrow> string \<times> string" where
  "decode_pair p = (case split_once CHR ''='' p of (k, v) \<Rightarrow> (unquote_plus k, unquote_plus v))"

definition decode_query :: "string \<Rightarrow> (string \<times> string) list" where
  "decode_query s = (if s = [] then [] else map decode_pair (split_on CHR ''&'' s))"

section \<open>Authorization header\<close>

text \<open>\<open>base64.b64encode\<close> of a byte string: each group of three bytes gives four
  characters of the alphabet \<open>A-Z a-z 0-9 + /\<close>, a final group of one or two bytes
  is padded with \<open>=\<close>.\<close>

definition b64_char :: "nat \<Rightarrow> char" where
  "b64_char k = char_of (if k < 26 then 65 + k else if k < 52 then 71 + k else if k < 62 then k - 4
                         else if k = 62 then 43 else 47 :: nat)"

fun b64encode :: "string \<Rightarrow> string" where
  "b64encode (a # b # c # rest) =
     (let n = 65536 * of_char a + 256 * of_char b + of_char c :: nat
      in map b64_char [n div 262144, n div 4096 mod 64, n div 64 mod 64, n mod 64]) @ b64encode rest"
| "b64encode [a, b] =
     (let n = 65536 * of_char a + 256 * of_char b :: nat
      in map b64_char [n div 262144, n div 4096 mod 64, n div 64 mod 64] @ ''='')"
| "b64encode [a] =
     (let n = 65536 * of_char a :: nat in map b64_char [n div 262144, n div 4096 mod 64] @ ''=='')"
| "b64encode [] = []"

text \<open>\<open>token = base64.b64encode(f"{email}:{api_token}".encode("utf-8")).decode("ascii")\<close>
  and \<open>self.auth_header = f"Basic {token}"\<close> (lines 470-474).\<close>

definition auth_header :: "string \<Rightarrow> string \<Rightarrow> string" where
  "auth_header email api_token = ''Basic '' @ b64encode (email @ '':'' @ api_token)"

text \<open>The decoding a server applies to the credential.\<close>

definition b64_val :: "char \<Rightarrow> nat" where
  "b64_val c =
     (let n = of_char c in
      if 65 \<le> n \<and> n \<le> 90 then n - 65 else if 97 \<le> n \<and> n \<le> 122 then n - 71
      else if 48 \<le> n \<and> n \<le> 57 then n + 4 else if n = 43 then 62 else if n = 47 then 63 else 0)"

definition b64_group :: "char \<Rightarrow> char \<Rightarrow> char \<Rightarrow> char \<Rightarrow> nat" where
  "b64_group w x y z = 262144 * b64_val w + 4096 * b64_val x + 64 * b64_val y + b64_val z"

fun b64decode :: "string \<Rightarrow> string" where
  "b64decode (w # x # y # z # rest) =
     (let n = b64_group w x y z in
      if y = CHR ''='' then [char_of (n div 65536)]
      else if z = CHR ''='' then [char_of (n div 65536), char_of (n div 256 mod 256)]
      else [char_of (n div 65536), char_of (n div 256 mod 256), char_of (n mod 256)] @ b64decode rest)"
| "b64decode _ = []"

section \<open>The upload request\<close>

text \<open>The URL of \<open>upload_attachment_bytes\<close>: the \<open>/data\<close> endpoint of the attachment
  found, else the attachment collection of the page (lines 619-627).\<close>

definition upload_url :: "string \<Rightarrow> string \<Rightarrow> string option \<Rightarrow> string" where
  "upload_url site pid existing =
     (case existing of
        Some attachment_id \<Rightarrow> ''https://'' @ site @ ''/wiki/rest/api/content/'' @ pid @ ''/child/attachment/''
                                @ attachment_id @ ''/data''
      | None \<Rightarrow> ''https://'' @ site @ ''/wiki/rest/api/content/'' @ pid @ ''/child/attachment'')"

text \<open>The multipart body (lines 605-618); the boundary is \<open>----CodexBoundary\<close> followed
  by the hex digits of a random UUID, a parameter here.\<close>

definition multipart_body :: "string \<Rightarrow> string \<Rightarrow> string \<Rightarrow> string \<Rightarrow> string" where
  "multipart_body uuid_hex safe_fname content_type data =
     (let boundary = ''----CodexBoundary'' @ uuid_hex in
      ''--'' @ boundary @ [CR, NL]
      @ ''Content-Disposition: form-data; name='' @ [DQ] @ ''file'' @ [DQ] @ ''; filename='' @ [DQ] @ safe_fname @ [DQ]
      @ [CR, NL] @ ''Content-Type: '' @ content_type @ [CR, NL, CR, NL]
      @ data @ [CR, NL] @ ''--'' @ boundary @ ''--'' @ [CR, NL])"

section \<open>Lemmas\<close>

lemma hex_val_digit: "k < 16 \<Longrightarrow> hex_val (hex_digit k) = Some k"
  by (simp add: hex_digit_def of_char_of Let_def)

lemma url_safe_not: "url_safe c \<Longrightarrow> c \<noteq> CHR ''+'' \<and> c \<noteq> CHR ''%'' \<and> c \<noteq> CHR ''&'' \<and> c \<noteq> CHR ''=''"
  by (auto simp: url_safe_def is_upper_def is_lower_def is_digit_def)

lemma unquote_pct:
  assumes "a < 16" "b < 16"
  shows "unquote_plus (CHR ''%'' # hex_digit a # hex_digit b # s) = char_of (16 * a + b) # unquote_plus s"
  using assms by (simp add: hex_val_digit del: hex_val.simps)

lemma unquote_quote_char: "unquote_plus (quote_char c @ s) = c # unquote_plus s"
proof (cases "url_safe c")
  case True
  then show ?thesis using url_safe_not [OF True] by (simp add: quote_char_def)
next
  case False
  note F = False
  show ?thesis
  proof (cases "c = CHR '' ''")
    case True
    with F show ?thesis by (simp add: quote_char_def)
  next
    case False
    let ?n = "of_char c :: nat"
    have "?n div 16 < 16" using nat_of_char_less_256 [of c] by (intro less_mult_imp_div_less) simp
    moreover have "?n mod 16 < 16" by simp
    ultimately have "unquote_plus (quote_char c @ s) = char_of (16 * (?n div 16) + ?n mod 16) # unquote_plus s"
      using F False by (simp add: quote_char_def unquote_pct del: unquote_plus.simps)
    then show ?thesis by simp
  qed
qed

lemma unquote_quote_plus: "unquote_plus (quote_plus s) = s"
  by (induction s) (simp_all add: quote_plus_def unquote_quote_char)


lemma of_char_hex_digit: "k < 16 \<Longrightarrow> (of_char (hex_digit k) :: nat) = (if k < 10 then 48 + k else 55 + k)"
  by (simp add: hex_digit_def of_char_of)

lemma hex_digit_not_sep: "k < 16 \<Longrightarrow> hex_digit k \<noteq> CHR ''&'' \<and> hex_digit k \<noteq> CHR ''=''"
proof (intro conjI notI)
  assume k: "k < 16" and "hex_digit k = CHR ''&''"
  then have "(of_char (hex_digit k) :: nat) = 38" by simp
  with of_char_hex_digit [OF k] show False by (simp split: if_splits)
next
  assume k: "k < 16" and "hex_digit k = CHR ''=''"
  then have "(of_char (hex_digit k) :: nat) = 61" by simp
  with of_char_hex_digit [OF k] show False by (simp split: if_splits)
qed

lemma quote_char_chars: "x \<in> set (quote_char c) \<Longrightarrow> x \<noteq> CHR ''&'' \<and> x \<noteq> CHR ''=''"
proof -
  have "(of_char c :: nat) div 16 < 16" using nat_of_char_less_256 [of c] by (intro less_mult_imp_div_less) simp
  then show "x \<in> set (quote_char c) \<Longrightarrow> ?thesis"
    by (auto simp: quote_char_def url_safe_not hex_digit_not_sep split: if_splits)
qed

lemma split_on_acc_skip: "d \<notin> set x \<Longrightarrow> split_on_acc d acc (x @ rest) = split_on_acc d (acc @ x) rest"
  by (induction x arbitrary: acc) auto

lemma split_on_join: "xs \<noteq> [] \<Longrightarrow> \<forall>x\<in>set xs. d \<notin> set x \<Longrightarrow> split_on d (py_join [d] xs) = xs"
proof (induction xs)
  case (Cons x xs)
  show ?case
  proof (cases "xs = []")
    case True
    with Cons.prems show ?thesis using split_on_acc_skip [of d x "[]" "[]"] by (simp add: split_on_def)
  next
    case False
    with Cons have "split_on d (py_join [d] xs) = xs" by simp
    with False Cons.prems show ?thesis using split_on_acc_skip [of d x "[]" "d # py_join [d] xs"]
      by (simp add: split_on_def py_join_Cons_nonempty)
  qed
qed simp

lemma py_join_head_nonempty: "x \<noteq> [] \<Longrightarrow> py_join sep (x # xs) \<noteq> []"
  by (cases xs) (simp_all add: py_join_Cons_nonempty)

lemma quote_plus_no_sep: "CHR ''&'' \<notin> set (quote_plus s)" "CHR ''='' \<notin> set (quote_plus s)"
  using quote_char_chars by (fastforce simp: quote_plus_def)+

lemma decode_pair_encoded: "decode_pair (quote_plus k @ CHR ''='' # quote_plus v) = (k, v)"
proof -
  have "takeWhile (\<lambda>c. c \<noteq> CHR ''='') (quote_plus k @ CHR ''='' # quote_plus v) = quote_plus k"
       "dropWhile (\<lambda>c. c \<noteq> CHR ''='') (quote_plus k @ CHR ''='' # quote_plus v) = CHR ''='' # quote_plus v"
    using quote_plus_no_sep(2) [of k] by (subst takeWhile_append2 dropWhile_append2; auto)+
  then show ?thesis by (simp add: decode_pair_def split_once_def unquote_quote_plus)
qed

lemma decode_urlencode: "decode_query (urlencode q) = query_pairs q"
proof (cases "query_pairs q = []")
  case True
  then show ?thesis by (simp add: urlencode_def decode_query_def)
next
  case False
  let ?xs = "map (\<lambda>(k, s). quote_plus k @ ''='' @ quote_plus s) (query_pairs q)"
  have "\<forall>x\<in>set ?xs. CHR ''&'' \<notin> set x" using quote_plus_no_sep(1) by auto
  then have "split_on CHR ''&'' (urlencode q) = ?xs" using False by (simp add: urlencode_def split_on_join)
  moreover have "urlencode q \<noteq> []" using False
    by (cases "query_pairs q") (auto simp: urlencode_def py_join_head_nonempty)
  ultimately show ?thesis by (simp add: decode_query_def decode_pair_encoded case_prod_beta comp_def)
qed

lemma http_of_query_pairs: "http_of q = Some hc \<Longrightarrow> h_query hc \<noteq> [] \<Longrightarrow> query_pairs (h_query hc) \<noteq> []"
  by (cases q) (auto simp: query_pairs_def)

lemma b64_val_char: "k < 64 \<Longrightarrow> b64_val (b64_char k) = k"
  by (simp add: b64_char_def b64_val_def of_char_of Let_def; arith)

lemma b64_char_not_pad: "k < 64 \<Longrightarrow> b64_char k \<noteq> CHR ''=''"
proof
  assume k: "k < 64" and "b64_char k = CHR ''=''"
  then have "(of_char (b64_char k) :: nat) = 61" by simp
  with k show False by (simp add: b64_char_def of_char_of split: if_splits)
qed

lemma b64_digits:
  fixes n :: nat
  assumes "n < 16777216"
  shows "n div 262144 < 64" "b64_group (b64_char (n div 262144)) (b64_char (n div 4096 mod 64))
           (b64_char (n div 64 mod 64)) (b64_char (n mod 64)) = n"
proof -
  show "n div 262144 < 64" using assms by (intro less_mult_imp_div_less) simp
  then show "b64_group (b64_char (n div 262144)) (b64_char (n div 4096 mod 64))
           (b64_char (n div 64 mod 64)) (b64_char (n mod 64)) = n"
    using mod_mult2_eq [of n 4096 64] mod_mult2_eq [of n 64 64] div_mult_mod_eq [of n 262144]
    by (simp add: b64_group_def b64_val_char)
qed

lemma b64_val_pad: "b64_val CHR ''='' = 0"
  by (simp add: b64_val_def)

lemma base256: "(c :: nat) < 256 \<Longrightarrow> (256 * q + c) div 256 = q \<and> (256 * q + c) mod 256 = c"
  by simp

lemma bytes_split:
  fixes a b c :: nat
  assumes "a < 256" "b < 256" "c < 256"
  shows "(65536 * a + 256 * b + c) div 65536 = a" "(65536 * a + 256 * b + c) div 256 mod 256 = b"
    "(65536 * a + 256 * b + c) mod 256 = c" "65536 * a + 256 * b + c < 16777216"
proof -
  have e: "65536 * a + 256 * b + c = 256 * (256 * a + b) + c" by simp
  have q: "(65536 * a + 256 * b + c) div 256 = 256 * a + b" unfolding e using base256 [OF assms(3)] by blast
  show "(65536 * a + 256 * b + c) div 256 mod 256 = b" unfolding q using base256 [OF assms(2)] by blast
  show "(65536 * a + 256 * b + c) mod 256 = c" unfolding e using base256 [OF assms(3)] by blast
  have "(65536 * a + 256 * b + c) div 65536 = (65536 * a + 256 * b + c) div 256 div 256"
    by (simp add: div_mult2_eq [symmetric])
  also have "\<dots> = a" unfolding q using base256 [OF assms(2)] by blast
  finally show "(65536 * a + 256 * b + c) div 65536 = a" .
  show "65536 * a + 256 * b + c < 16777216" using assms by simp
qed

lemma char_of_bytes:
  fixes a b c :: char
  defines "n \<equiv> 65536 * of_char a + 256 * of_char b + of_char c :: nat"
  shows "char_of (n div 65536) = a" "char_of (n div 256) = b" "char_of n = c" "n < 16777216"
proof -
  note s = bytes_split [OF nat_of_char_less_256 nat_of_char_less_256 nat_of_char_less_256, of a b c]
  show "char_of (n div 65536) = a" unfolding n_def s(1) by simp
  have "char_of (n div 256) = char_of (n div 256 mod 256)" by simp
  then show "char_of (n div 256) = b" unfolding n_def s(2) by simp
  have "char_of n = char_of (n mod 256)" by simp
  then show "char_of n = c" unfolding n_def s(3) by simp
  show "n < 16777216" unfolding n_def by (rule s(4))
qed

lemma b64_group_vals: "b64_group w x y z = 262144 * b64_val w + 4096 * b64_val x + 64 * b64_val y + b64_val z"
  by (simp add: b64_group_def)

lemma b64_roundtrip_group:
  fixes a b c :: char
  defines "n \<equiv> 65536 * of_char a + 256 * of_char b + of_char c :: nat"
  shows "262144 * b64_val (b64_char (n div 262144)) + 4096 * b64_val (b64_char (n div 4096 mod 64))
         + 64 * b64_val (b64_char (n div 64 mod 64)) + b64_val (b64_char (n mod 64)) = n"
  using b64_digits(2) [OF char_of_bytes(4) [of a b c]] unfolding n_def b64_group_vals .

lemma b64_roundtrip3: "b64decode (b64encode (a # b # c # rest)) = a # b # c # b64decode (b64encode rest)"
  using b64_roundtrip_group [of a b c] char_of_bytes [of a b c] b64_digits(1) [OF char_of_bytes(4) [of a b c]]
  by (simp add: b64_char_not_pad b64_group_vals Let_def)

lemma b64_roundtrip2: "b64decode (b64encode [a, b]) = [a, b]"
proof -
  have e: "(65536 * of_char a + 256 * of_char b :: nat) = 64 * (1024 * of_char a + 4 * of_char b)" by simp
  have "(65536 * of_char a + 256 * of_char b :: nat) mod 64 = 0" unfolding e by simp
  then show ?thesis
    using b64_roundtrip_group [of a b "CHR 0x00"] char_of_bytes [of a b "CHR 0x00"]
          b64_digits(1) [OF char_of_bytes(4) [of a b "CHR 0x00"]]
    by (simp add: b64_char_not_pad b64_group_vals b64_val_pad b64_val_char Let_def)
qed

lemma b64_roundtrip1: "b64decode (b64encode [a]) = [a]"
proof -
  have e: "(65536 * of_char a :: nat) = 4096 * (16 * of_char a)" "(65536 * of_char a :: nat) = 64 * (1024 * of_char a)"
    by simp_all
  have "(65536 * of_char a :: nat) mod 64 = 0" "(65536 * of_char a :: nat) div 64 mod 64 = 0"
    by (simp_all only: e(2)) simp_all
  then show ?thesis
    using b64_roundtrip_group [of a "CHR 0x00" "CHR 0x00"] char_of_bytes [of a "CHR 0x00" "CHR 0x00"]
          b64_digits(1) [OF char_of_bytes(4) [of a "CHR 0x00" "CHR 0x00"]]
    by (simp add: b64_char_not_pad b64_group_vals b64_val_pad b64_val_char Let_def)
qed

lemma b64_roundtrip: "b64decode (b64encode s) = s"
  by (induction s rule: b64encode.induct) (simp_all only: b64_roundtrip3 b64_roundtrip2 b64_roundtrip1, simp_all)

section \<open>What the server reads\<close>

text \<open>C21: For every request the client sends through \<open>_request\<close> with a query, the URL
  is \<open>https://\<close>, the site, the path, \<open>?\<close> and an encoded query that decodes to
  exactly the parameters, in order, one pair per list element: no title or file name can
  break out of its parameter.\<close>

theorem request_url_query:
  assumes "http_of q = Some hc" "h_query hc \<noteq> []"
  shows "\<exists>enc. request_url site hc = ''https://'' @ site @ h_path hc @ ''?'' @ enc
           \<and> decode_query enc = query_pairs (h_query hc)"
proof -
  have "urlencode (h_query hc) \<noteq> []"
    using decode_urlencode [of "h_query hc"] http_of_query_pairs [OF assms] by (auto simp: decode_query_def)
  with assms(2) show ?thesis by (simp add: request_url_def decode_urlencode)
qed

text \<open>C22: The \<open>Authorization\<close> header is \<open>Basic\<close> followed by a base64 text that
  decodes to \<open>email:token\<close>, for every e-mail and token.\<close>

theorem auth_header_roundtrip:
  "\<exists>enc. auth_header email api_token = ''Basic '' @ enc \<and> b64decode enc = email @ '':'' @ api_token"
  by (simp add: auth_header_def b64_roundtrip)

theorem request_url_query_witness:
  "\<exists>enc. request_url ''example.atlassian.net'' (the (http_of (FindPage ''42'' ''Q&A = 1+1'')))
          = ''https://example.atlassian.net/wiki/api/v2/pages?'' @ enc
     \<and> decode_query enc = [(''space-id'', ''42''), (''status'', ''current''), (''title'', ''Q&A = 1+1''),
                           (''limit'', ''25'')]"
proof -
  let ?hc = "the (http_of (FindPage ''42'' ''Q&A = 1+1''))"
  have h: "http_of (FindPage ''42'' ''Q&A = 1+1'') = Some ?hc" by simp
  have q: "h_query ?hc \<noteq> []" by simp
  have p: "query_pairs (h_query ?hc) = [(''space-id'', ''42''), (''status'', ''current''),
     (''title'', ''Q&A = 1+1''), (''limit'', ''25'')]" by code_simp
  obtain enc where e: "request_url ''example.atlassian.net'' ?hc
      = ''https://'' @ ''example.atlassian.net'' @ h_path ?hc @ ''?'' @ enc"
      "decode_query enc = query_pairs (h_query ?hc)"
    using request_url_query [where site = "''example.atlassian.net''", OF h q] by blast
  have "h_path ?hc = ''/wiki/api/v2/pages''" by simp
  with e p show ?thesis by (intro exI [of _ enc]) simp
qed

end
