(* ===== verification/Json.thy ===== *)
theory Json
  imports Http
begin

text \<open>The JSON text of the requests and the wire-level \<open>_request\<close> of the skills copy
  (lines 477-511): \<open>json.dumps\<close> with Python's defaults, the data, URL and headers of the
  \<open>Request\<close>, the \<open>RuntimeError\<close> message of an \<open>HTTPError\<close> and the decoding of
  the answer; a JSON reader for the text \<open>json.dumps\<close> writes, and the proof that it
  reads back every value and every request body.\<close>

section \<open>json.dumps\<close>

text \<open>The lower-case hex digit of \<open>'\\u{0:04x}'\<close>.\<close>

definition hex_lower :: "nat \<Rightarrow> char" where
  "hex_lower n = (if n < 10 then char_of (48 + n) else char_of (87 + n))"

text \<open>One character of a JSON string as \<open>json.dumps\<close> writes it with
  \<open>ensure_ascii=True\<close>: quote and backslash escaped, the five control characters with
  a short escape, the other characters outside \<open>' '..'~'\<close> as \<open>\u00XX\<close>.\<close>

definition json_esc :: "char \<Rightarrow> string" where
  "json_esc c =
     (if c = DQ then [BSL, DQ]
      else if c = BSL then [BSL, BSL]
      else if c = NL then [BSL, CHR ''n'']
      else if c = CR then [BSL, CHR ''r'']
      else if c = CHR 0x09 then [BSL, CHR ''t'']
      else if c = CHR 0x08 then [BSL, CHR ''b'']
      else if c = CHR 0x0C then [BSL, CHR ''f'']
      else if 32 \<le> (of_char c :: nat) \<and> (of_char c :: nat) \<le> 126 then [c]
      else [BSL, CHR ''u'', CHR ''0'', CHR ''0'', hex_lower (of_char c div 16), hex_lower (of_char c mod 16)])"

definition json_quote :: "string \<Rightarrow> string" where
  "json_quote s = DQ # concat (map json_esc s) @ [DQ]"

fun json_dumps :: "json \<Rightarrow> string" where
  "json_dumps (JStr s) = json_quote s"
| "json_dumps (JInt n) = string_of_int n"
| "json_dumps (JObj kvs) =
     ''{'' @ py_join '', '' (map (\<lambda>kv. json_quote (fst kv) @ '': '' @ json_dumps (snd kv)) kvs) @ ''}''"
| "json_dumps (JArr vs) = ''['' @ py_join '', '' (map json_dumps vs) @ '']''"

section \<open>The request on the wire\<close>

text \<open>What \<open>_request\<close> hands to \<open>urlopen\<close>: \<open>Request(url, data=data, method=method,
  headers=headers)\<close>, with \<open>data = json.dumps(body).encode("utf-8")\<close> and the
  \<open>Content-Type\<close> header only when the method passes a body (lines 484-499); the site is
  the client's \<open>self.site\<close>.\<close>

record wire =
  w_url :: string
  w_data :: "string option"
  w_method :: string
  w_headers :: "(string \<times> string) list"

definition wire_of :: "string \<Rightarrow> string \<Rightarrow> string \<Rightarrow> http_call \<Rightarrow> wire" where
  "wire_of site email api_token hc =
     \<lparr>w_url = request_url site hc,
      w_data = map_option json_dumps (h_body hc),
      w_method = h_method hc,
      w_headers = [(''Authorization'', auth_header email api_token), (''Accept'', ''application/json'')]
                  @ (if h_body hc = None then [] else [(''Content-Type'', ''application/json'')])\<rparr>"

text \<open>How \<open>urlopen\<close> ends: the body of a 2xx answer, or an \<open>HTTPError\<close> with its status
  code and error body.\<close>

datatype answer = HttpOk string | HttpErr int string

text \<open>The message of the \<open>RuntimeError\<close> raised for an \<open>HTTPError\<close> (lines 502-506).\<close>

definition request_error :: "string \<Rightarrow> string \<Rightarrow> int \<Rightarrow> string \<Rightarrow> string" where
  "request_error meth pth code err =
     meth @ '' '' @ pth @ '' failed ('' @ string_of_int code @ ''): '' @ take 800 err"

text \<open>The value \<open>_request\<close> returns or the error it raises (lines 500-511): a blank body is
  \<open>{}\<close>, any other body goes through \<open>json.loads\<close>, given as \<open>loads\<close>, whose
  \<open>JSONDecodeError\<close> propagates.\<close>

definition request_result :: "(string \<Rightarrow> json option) \<Rightarrow> string \<Rightarrow> string \<Rightarrow> answer \<Rightarrow> string + json" where
  "request_result loads meth pth ans =
     (case ans of
        HttpErr code err \<Rightarrow> Inl (request_error meth pth code err)
      | HttpOk payload \<Rightarrow>
          if strip payload = [] then Inr (JObj [])
          else (case loads payload of None \<Rightarrow> Inl ''JSONDecodeError'' | Some j \<Rightarrow> Inr j))"

text \<open>The upload bypasses \<open>_request\<close> (lines 603-633): a POST of the multipart body to
  \<open>upload_url\<close>, with the boundary in the \<open>Content-Type\<close> and the
  \<open>X-Atlassian-Token\<close> header.\<close>

definition upload_wire ::
  "string \<Rightarrow> string \<Rightarrow> string \<Rightarrow> string \<Rightarrow> string \<Rightarrow> string option \<Rightarrow> string \<Rightarrow> string \<Rightarrow> string \<Rightarrow> wire" where
  "upload_wire site email api_token uuid_hex pid existing fname data content_type =
     \<lparr>w_url = upload_url site pid existing,
      w_data = Some (multipart_body uuid_hex (safe_filename fname) content_type data),
      w_method = ''POST'',
      w_headers = [(''Authorization'', auth_header email api_token), (''Accept'', ''application/json''),
                   (''Content-Type'', ''multipart/form-data; boundary=----CodexBoundary'' @ uuid_hex),
                   (''X-Atlassian-Token'', ''nocheck'')]\<rparr>"

text \<open>Python's truth value of a decoded JSON value, \<open>dict.get\<close> on a decoded object (the
  last of duplicate keys wins in \<open>json.loads\<close>), and \<open>value[0]\<close> on a true value.\<close>

fun json_truthy :: "json \<Rightarrow> bool" where
  "json_truthy (JStr s) = (s \<noteq> [])"
| "json_truthy (JInt n) = (n \<noteq> 0)"
| "json_truthy (JObj kvs) = (kvs \<noteq> [])"
| "json_truthy (JArr vs) = (vs \<noteq> [])"

definition json_get :: "(string \<times> json) list \<Rightarrow> string \<Rightarrow> json option" where
  "json_get kvs k = map_of (rev kvs) k"

fun json_index0 :: "json \<Rightarrow> string + json" where
  "json_index0 (JArr (v # vs)) = Inr v"
| "json_index0 (JStr (c # cs)) = Inr (JStr [c])"
| "json_index0 (JObj kvs) = Inl ''KeyError''"
| "json_index0 _ = Inl ''TypeError''"

text \<open>The answer of the upload (lines 634-650): the \<open>RuntimeError\<close> of an
  \<open>HTTPError\<close>; otherwise \<open>json.loads(payload)\<close> with no blank-body case, the object
  itself when it has a true \<open>id\<close>, else the first of its true \<open>results\<close>; \<open>.get\<close>
  on a value that is not an object raises \<open>AttributeError\<close>.\<close>

definition upload_error :: "int \<Rightarrow> string \<Rightarrow> string" where
  "upload_error code err = ''POST attachment upload failed ('' @ string_of_int code @ ''): '' @ take 800 err"

definition upload_result :: "(string \<Rightarrow> json option) \<Rightarrow> answer \<Rightarrow> string + json" where
  "upload_result loads ans =
     (case ans of
        HttpErr code err \<Rightarrow> Inl (upload_error code err)
      | HttpOk payload \<Rightarrow>
          (case loads payload of
             None \<Rightarrow> Inl ''JSONDecodeError''
           | Some (JObj kvs) \<Rightarrow>
               if (case json_get kvs ''id'' of Some v \<Rightarrow> json_truthy v | None \<Rightarrow> False) then Inr (JObj kvs)
               else (let results = (case json_get kvs ''results'' of Some v \<Rightarrow> v | None \<Rightarrow> JArr []) in
                     if \<not> json_truthy results
                     then Inl ''Attachment upload succeeded but no attachment result was returned.''
                     else json_index0 results)
           | Some _ \<Rightarrow> Inl ''AttributeError''))"

section \<open>Reading the payload back\<close>

text \<open>The server's JSON reader, for the layout \<open>json.dumps\<close> writes (separators
  \<open>", "\<close> and \<open>": "\<close>). A reader returns the value and the rest of the input; the
  fuel bounds the nesting depth, and \<open>json_parse\<close> gives it the length of the input.\<close>

definition unescape :: "char \<Rightarrow> char option" where
  "unescape e =
     (if e = DQ then Some DQ else if e = BSL then Some BSL else if e = CHR ''/'' then Some (CHR ''/'')
      else if e = CHR ''n'' then Some NL else if e = CHR ''r'' then Some CR
      else if e = CHR ''t'' then Some (CHR 0x09) else if e = CHR ''b'' then Some (CHR 0x08)
      else if e = CHR ''f'' then Some (CHR 0x0C) else None)"

definition hex4 :: "string \<Rightarrow> nat" where
  "hex4 hs = foldl (\<lambda>a h. 16 * a + the (hex_val h)) 0 hs"

definition cons_fst :: "char \<Rightarrow> (string \<times> string) option \<Rightarrow> (string \<times> string) option" where
  "cons_fst c r = map_option (\<lambda>(x, rest). (c # x, rest)) r"

fun parse_str :: "string \<Rightarrow> (string \<times> string) option" where
  "parse_str [] = None"
| "parse_str (c # r) =
     (if c = DQ then Some ([], r)
      else if c = BSL then
        (if r \<noteq> [] \<and> hd r = CHR ''u'' \<and> 5 \<le> length r \<and> list_all (\<lambda>h. hex_val h \<noteq> None) (take 4 (tl r))
         then (if hex4 (take 4 (tl r)) < 256 then cons_fst (char_of (hex4 (take 4 (tl r)))) (parse_str (drop 5 r))
               else None)
         else if r \<noteq> [] \<and> unescape (hd r) \<noteq> None then cons_fst (the (unescape (hd r))) (parse_str (tl r))
         else None)
      else cons_fst c (parse_str r))"

definition parse_int :: "string \<Rightarrow> (json \<times> string) option" where
  "parse_int s =
     (let neg = (s \<noteq> [] \<and> hd s = CHR ''-''); s1 = (if neg then tl s else s); ds = takeWhile is_digit s1
      in if ds = [] then None
         else Some (JInt (if neg then - int (read_nat ds) else int (read_nat ds)), dropWhile is_digit s1))"

fun jparse :: "nat \<Rightarrow> string \<Rightarrow> (json \<times> string) option"
and jparse_elems :: "nat \<Rightarrow> string \<Rightarrow> json list \<Rightarrow> (json \<times> string) option"
and jparse_members :: "nat \<Rightarrow> string \<Rightarrow> (string \<times> json) list \<Rightarrow> (json \<times> string) option" where
  "jparse 0 s = None"
| "jparse (Suc n) [] = None"
| "jparse (Suc n) (c # r) =
     (if c = DQ then map_option (\<lambda>(x, r'). (JStr x, r')) (parse_str r)
      else if c = CHR ''['' then (if take 1 r = '']'' then Some (JArr [], drop 1 r) else jparse_elems n r [])
      else if c = CHR ''{'' then (if take 1 r = ''}'' then Some (JObj [], drop 1 r) else jparse_members n r [])
      else parse_int (c # r))"
| "jparse_elems 0 s acc = None"
| "jparse_elems (Suc n) s acc =
     (case jparse n s of
        None \<Rightarrow> None
      | Some (v, r) \<Rightarrow>
          if take 2 r = '', '' then jparse_elems n (drop 2 r) (acc @ [v])
          else if take 1 r = '']'' then Some (JArr (acc @ [v]), drop 1 r)
          else None)"
| "jparse_members 0 s acc = None"
| "jparse_members (Suc n) [] acc = None"
| "jparse_members (Suc n) (c # r) acc =
     (if c \<noteq> DQ then None
      else case parse_str r of
        None \<Rightarrow> None
      | Some (k, r1) \<Rightarrow>
          if take 2 r1 \<noteq> '': '' then None
          else case jparse n (drop 2 r1) of
            None \<Rightarrow> None
          | Some (v, r2) \<Rightarrow>
              if take 2 r2 = '', '' then jparse_members n (drop 2 r2) (acc @ [(k, v)])
              else if take 1 r2 = ''}'' then Some (JObj (acc @ [(k, v)]), drop 1 r2)
              else None)"

definition json_parse :: "string \<Rightarrow> json option" where
  "json_parse s = (case jparse (Suc (length s)) s of Some (j, []) \<Rightarrow> Some j | _ \<Rightarrow> None)"

section \<open>Lemmas\<close>


lemma hex_val_lower: "k < 16 \<Longrightarrow> hex_val (hex_lower k) = Some k"
  by (simp add: hex_lower_def of_char_of Let_def)

lemma parse_str_u:
  assumes "(k :: nat) < 256"
  shows "parse_str (BSL # CHR ''u'' # CHR ''0'' # CHR ''0'' # hex_lower (k div 16) # hex_lower (k mod 16) # r)
         = cons_fst (char_of k) (parse_str r)"
proof -
  have "k div 16 < 16" using assms by (intro less_mult_imp_div_less) simp
  moreover have "k mod 16 < 16" by simp
  ultimately show ?thesis
    using assms by (simp add: hex_val_lower hex4_def del: hex_val.simps) (simp add: hex_val.simps)
qed

lemma parse_str_esc: "parse_str (json_esc c @ r) = cons_fst c (parse_str r)"
proof -
  have u: "parse_str ([BSL, CHR ''u'', CHR ''0'', CHR ''0'', hex_lower (of_char c div 16), hex_lower (of_char c mod 16)] @ r)
      = cons_fst c (parse_str r)"
    using parse_str_u [OF nat_of_char_less_256 [of c], of r] by simp
  show ?thesis
    unfolding json_esc_def using u by (simp add: unescape_def)
qed

lemma parse_str_quote: "parse_str (concat (map json_esc s) @ DQ # r) = Some (s, r)"
  by (induction s) (simp_all add: parse_str_esc cons_fst_def)

lemma digits_split:
  "\<forall>c\<in>set ds. is_digit c \<Longrightarrow> \<not> (r \<noteq> [] \<and> is_digit (hd r)) \<Longrightarrow>
   takeWhile is_digit (ds @ r) = ds \<and> dropWhile is_digit (ds @ r) = r"
  by (cases r) (simp_all add: takeWhile_append2 dropWhile_append2)

lemma minus_not_digit: "\<not> is_digit (CHR ''-'')"
  by (simp add: is_digit_def)

lemma parse_int_string:
  assumes "\<not> (r \<noteq> [] \<and> is_digit (hd r))"
  shows "parse_int (string_of_int n @ r) = Some (JInt n, r)"
proof -
  let ?d = "string_of_nat (nat \<bar>n\<bar>)"
  have d: "\<forall>c\<in>set ?d. is_digit c" by (auto intro: string_of_nat_digits)
  have ne: "?d \<noteq> []" by (rule string_of_nat_nonempty)
  have hd: "hd ?d \<noteq> CHR ''-''" using d hd_in_set [OF ne] minus_not_digit by metis
  note sp = digits_split [OF d assms]
  show ?thesis
  proof (cases "n < 0")
    case True
    then have "string_of_int n = CHR ''-'' # ?d" by (simp add: string_of_int_def)
    with True sp ne show ?thesis by (simp add: parse_int_def read_nat_string_of_nat)
  next
    case False
    then have "string_of_int n = ?d" by (simp add: string_of_int_def)
    with False sp ne hd show ?thesis by (simp add: parse_int_def read_nat_string_of_nat)
  qed
qed

lemma string_of_int_Cons: "\<exists>c cs. string_of_int n = c # cs \<and> (c = CHR ''-'' \<or> is_digit c)"
proof -
  have ne: "string_of_nat (nat \<bar>n\<bar>) \<noteq> []" by (rule string_of_nat_nonempty)
  then obtain c cs where e: "string_of_nat (nat \<bar>n\<bar>) = c # cs" by (cases "string_of_nat (nat \<bar>n\<bar>)") auto
  then have "is_digit c" using string_of_nat_digits [of c "nat \<bar>n\<bar>"] by simp
  with e show ?thesis by (auto simp: string_of_int_def)
qed

lemma digit_not_bracket: "is_digit c \<Longrightarrow> c \<noteq> DQ \<and> c \<noteq> CHR ''['' \<and> c \<noteq> CHR ''{''"
  by (auto simp: is_digit_def)

lemma jparse_int: "\<not> (r \<noteq> [] \<and> is_digit (hd r)) \<Longrightarrow> jparse (Suc m) (string_of_int n @ r) = Some (JInt n, r)"
proof -
  assume r: "\<not> (r \<noteq> [] \<and> is_digit (hd r))"
  obtain c cs where e: "string_of_int n = c # cs" "c = CHR ''-'' \<or> is_digit c" using string_of_int_Cons by blast
  then have "c \<noteq> DQ \<and> c \<noteq> CHR ''['' \<and> c \<noteq> CHR ''{''" using digit_not_bracket by auto
  then have "jparse (Suc m) (string_of_int n @ r) = parse_int (string_of_int n @ r)" using e(1) by simp
  with parse_int_string [OF r] show ?thesis by simp
qed

lemma json_dumps_Cons: "\<exists>c cs. json_dumps j = c # cs \<and> c \<noteq> CHR '']'' \<and> \<not> is_space c"
proof (cases j)
  case (JInt n)
  with string_of_int_Cons [of n] show ?thesis by (auto simp: is_digit_def is_space_def Let_def)
qed (auto simp: json_quote_def is_space_def)

lemma jparse_elems_dumps:
  assumes "\<forall>v\<in>set vs. \<forall>n r. size v < n \<longrightarrow> \<not> (r \<noteq> [] \<and> is_digit (hd r)) \<longrightarrow> jparse n (json_dumps v @ r) = Some (v, r)"
    and "vs \<noteq> []" "size_list size vs < m"
  shows "jparse_elems m (py_join '', '' (map json_dumps vs) @ CHR '']'' # r) acc = Some (JArr (acc @ vs), r)"
  using assms
proof (induction vs arbitrary: m acc)
  case (Cons v vs)
  then obtain m' where m: "m = Suc m'" "size v < m'" "size_list size vs < m'" by (cases m) auto
  show ?case
  proof (cases "vs = []")
    case True
    have "jparse m' (json_dumps v @ CHR '']'' # r) = Some (v, CHR '']'' # r)"
      using Cons.prems(1) m(2) by (simp add: is_digit_def)
    with True m(1) show ?thesis by simp
  next
    case False
    have "jparse m' (json_dumps v @ '', '' @ py_join '', '' (map json_dumps vs) @ CHR '']'' # r)
        = Some (v, '', '' @ py_join '', '' (map json_dumps vs) @ CHR '']'' # r)"
      using Cons.prems(1) m(2) by (simp add: is_digit_def)
    with Cons.IH [OF _ False m(3)] Cons.prems(1) False m(1) show ?thesis
      by (simp add: py_join_Cons_nonempty)
  qed
qed simp

lemma py_join_Cons_prefix: "\<exists>t. py_join sep (x # xs) = x @ t"
  by (cases xs) (auto simp: py_join_Cons_nonempty)

lemma jparse_members_dumps:
  assumes "\<forall>kv\<in>set kvs. \<forall>n r. size (snd kv) < n \<longrightarrow> \<not> (r \<noteq> [] \<and> is_digit (hd r))
             \<longrightarrow> jparse n (json_dumps (snd kv) @ r) = Some (snd kv, r)"
    and "kvs \<noteq> []" "size_list (size_prod (\<lambda>_. 0) size) kvs < m"
  shows "jparse_members m (py_join '', '' (map (\<lambda>kv. json_quote (fst kv) @ '': '' @ json_dumps (snd kv)) kvs)
           @ CHR ''}'' # r) acc = Some (JObj (acc @ kvs), r)"
  using assms
proof (induction kvs arbitrary: m acc)
  case (Cons kv kvs)
  obtain k v where kv: "kv = (k, v)" by fastforce
  with Cons.prems obtain m' where m: "m = Suc m'" "size v < m'"
    "size_list (size_prod (\<lambda>_. 0) size) kvs < m'" by (cases m) auto
  have val: "jparse m' (json_dumps v @ r') = Some (v, r')" if "r' = [] \<or> hd r' \<in> {CHR '','', CHR ''}''}" for r'
    using Cons.prems(1) kv m(2) that by (auto simp: is_digit_def)
  show ?case
  proof (cases "kvs = []")
    case True
    with val [of "CHR ''}'' # r"] kv m(1) show ?thesis by (simp add: json_quote_def parse_str_quote)
  next
    case False
    with val [of "'', '' @ py_join '', '' (map (\<lambda>kv. json_quote (fst kv) @ '': '' @ json_dumps (snd kv)) kvs)
                  @ CHR ''}'' # r"]
         Cons.IH [OF _ False m(3)] Cons.prems(1) kv m(1) show ?thesis
      by (simp add: py_join_Cons_nonempty json_quote_def parse_str_quote)
  qed
qed simp

lemma jparse_dumps: "size j < n \<Longrightarrow> \<not> (r \<noteq> [] \<and> is_digit (hd r)) \<Longrightarrow> jparse n (json_dumps j @ r) = Some (j, r)"
proof (induction j arbitrary: n r)
  case (JStr s)
  then obtain m where "n = Suc m" by (cases n) auto
  then show ?case by (simp add: json_quote_def parse_str_quote)
next
  case (JInt i)
  then obtain m where "n = Suc m" by (cases n) auto
  with JInt.prems(2) show ?case by (simp add: jparse_int)
next
  case (JObj kvs)
  then obtain m where m: "n = Suc m" "size_list (size_prod (\<lambda>_. 0) size) kvs < m" by (cases n) auto
  have ih: "\<forall>kv\<in>set kvs. \<forall>n r. size (snd kv) < n \<longrightarrow> \<not> (r \<noteq> [] \<and> is_digit (hd r))
             \<longrightarrow> jparse n (json_dumps (snd kv) @ r) = Some (snd kv, r)"
    using JObj.IH by (metis prod.collapse snds.intros)
  show ?case
  proof (cases "kvs = []")
    case True
    with m show ?thesis by simp
  next
    case False
    then obtain kv kvs' where kvs: "kvs = kv # kvs'" by (cases kvs) auto
    obtain t where t: "py_join '', '' (map (\<lambda>kv. json_quote (fst kv) @ '': '' @ json_dumps (snd kv)) kvs)
        = (json_quote (fst kv) @ '': '' @ json_dumps (snd kv)) @ t"
      using py_join_Cons_prefix [of "'', ''" "json_quote (fst kv) @ '': '' @ json_dumps (snd kv)"] kvs
      by (simp del: append.simps) blast
    from jparse_members_dumps [OF ih False m(2), of r "[]"] m(1) t show ?thesis
      by (simp add: json_quote_def)
  qed
next
  case (JArr vs)
  then obtain m where m: "n = Suc m" "size_list size vs < m" by (cases n) auto
  have ih: "\<forall>v\<in>set vs. \<forall>n r. size v < n \<longrightarrow> \<not> (r \<noteq> [] \<and> is_digit (hd r)) \<longrightarrow> jparse n (json_dumps v @ r) = Some (v, r)"
    using JArr.IH by blast
  show ?case
  proof (cases "vs = []")
    case True
    with m show ?thesis by simp
  next
    case False
    then obtain v vs' where vs: "vs = v # vs'" by (cases vs) auto
    obtain c cs where c: "json_dumps v = c # cs" "c \<noteq> CHR '']''" using json_dumps_Cons by blast
    obtain t where t: "py_join '', '' (map json_dumps vs) = json_dumps v @ t"
      using py_join_Cons_prefix [of "'', ''" "json_dumps v"] vs by (simp del: append.simps) blast
    from jparse_elems_dumps [OF ih False m(2), of r "[]"] m(1) t c show ?thesis by simp
  qed
qed

lemma length_py_join: "sum_list (map length xs) \<le> length (py_join sep xs)"
  by (induction sep xs rule: py_join.induct) auto

lemma size_list_le_sum: "\<forall>x\<in>set xs. f x < g x \<Longrightarrow> size_list f xs \<le> sum_list (map g xs)"
  by (induction xs) auto

lemma json_size_less: "size j < length (json_dumps j)"
proof (induction j)
  case (JObj kvs)
  have "\<forall>kv\<in>set kvs. size_prod (\<lambda>_. 0) size kv < length (json_quote (fst kv) @ '': '' @ json_dumps (snd kv))"
    using JObj.IH by (force simp: json_quote_def intro: snds.intros)
  then have "size_list (size_prod (\<lambda>_. 0) size) kvs
      \<le> sum_list (map length (map (\<lambda>kv. json_quote (fst kv) @ '': '' @ json_dumps (snd kv)) kvs))"
    by (simp add: size_list_le_sum comp_def)
  from order_trans [OF this length_py_join] show ?case by (simp add: le_imp_less_Suc)
next
  case (JArr vs)
  then have "size_list size vs \<le> sum_list (map length (map json_dumps vs))"
    by (simp add: size_list_le_sum comp_def)
  from order_trans [OF this length_py_join] show ?case by (simp add: le_imp_less_Suc)
next
  case (JInt n)
  from string_of_int_Cons [of n] show ?case by auto
qed (simp add: json_quote_def)

lemma json_parse_dumps: "json_parse (json_dumps j) = Some j"
  using jparse_dumps [of j "Suc (length (json_dumps j))" "[]"] json_size_less [of j]
  by (simp add: json_parse_def)

lemma strip_Cons_nonempty: "\<not> is_space c \<Longrightarrow> strip (c # cs) \<noteq> []"
  by (auto simp: strip_def lstrip_def rstrip_def)

lemma json_parse_blank: "strip s = [] \<Longrightarrow> json_parse s = None"
proof (cases s)
  case (Cons c r)
  assume "strip s = []"
  with Cons strip_Cons_nonempty [of c r] have "is_space c" by blast
  then have "c \<noteq> DQ \<and> c \<noteq> CHR ''['' \<and> c \<noteq> CHR ''{'' \<and> c \<noteq> CHR ''-'' \<and> \<not> is_digit c"
    by (auto simp: is_space_def is_digit_def Let_def)
  with Cons show ?thesis by (simp add: json_parse_def parse_int_def)
qed (simp add: json_parse_def)

section \<open>Properties\<close>

text \<open>C23: Every request body reaches the server intact: the data \<open>_request\<close> sends is
  \<open>json.dumps\<close> of the method's payload, which reads back as exactly that payload (strings
  with quotes, backslashes and control characters, nested objects and lists, negative
  numbers included), and the \<open>Content-Type: application/json\<close> header is present exactly
  when a body is sent.\<close>

theorem request_body_roundtrip:
  "map_option json_parse (w_data (wire_of site email api_token hc)) = map_option Some (h_body hc)
   \<and> ((''Content-Type'', ''application/json'') \<in> set (w_headers (wire_of site email api_token hc)))
     = (h_body hc \<noteq> None)"
  by (cases "h_body hc") (simp_all add: wire_of_def json_parse_dumps)

text \<open>C26: A 2xx answer with a blank body is the empty object \<open>{}\<close> for \<open>_request\<close>, but the
  upload, which reads its answer without that check, raises \<open>JSONDecodeError\<close> on it.\<close>

theorem blank_answer_request_vs_upload:
  assumes "strip payload = []"
  shows "request_result json_parse meth pth (HttpOk payload) = Inr (JObj [])
         \<and> upload_result json_parse (HttpOk payload) = Inl ''JSONDecodeError''"
  using assms json_parse_blank [OF assms] by (simp add: request_result_def upload_result_def)

theorem blank_answer_request_vs_upload_witness:
  "request_result json_parse ''GET'' ''/wiki/api/v2/pages'' (HttpOk '' '') = Inr (JObj [])
   \<and> upload_result json_parse (HttpOk '' '') = Inl ''JSONDecodeError''"
  by (rule blank_answer_request_vs_upload) (simp add: strip_def lstrip_def rstrip_def is_space_def)

end
