(* ===== verification/Renderers.thy ===== *)
theory Renderers
  imports Publish Http
begin

text \<open>The two Mermaid renderers the program calls, as far as the program decides what
  they receive: the \<open>mermaid.ink\<close> request of \<open>render_mermaid_svg\<close> (lines 51-60),
  whose path is the URL-safe base64 text of the source without its padding, and the
  \<open>mmdc\<close> subprocess of \<open>render_mermaid_svg_local\<close> (lines 153-172). The network and
  the subprocess stay parameters; \<open>program_renderers\<close> builds from them the
  \<open>renderers\<close> record of the Publish theory, so that the renderer chain runs on them.\<close>

section \<open>mermaid.ink\<close>

text \<open>\<open>base64.urlsafe_b64encode\<close>: the standard encoding with \<open>+\<close> and \<open>/\<close> replaced
  by \<open>-\<close> and \<open>_\<close>.\<close>

definition urlsafe_char :: "char \<Rightarrow> char" where
  "urlsafe_char c = (if c = CHR ''+'' then CHR ''-'' else if c = CHR ''/'' then CHR ''_'' else c)"

definition urlsafe_b64encode :: "string \<Rightarrow> string" where
  "urlsafe_b64encode s = map urlsafe_char (b64encode s)"

text \<open>\<open>encoded = ....decode("ascii").rstrip("=")\<close> and
  \<open>url = f"https://mermaid.ink/svg/{encoded}"\<close> (lines 52-53), with the headers of the
  \<open>Request\<close> (line 54).\<close>

definition mermaid_ink_url :: "string \<Rightarrow> string" where
  "mermaid_ink_url src = ''https://mermaid.ink/svg/'' @ rstrip_chars ''='' (urlsafe_b64encode src)"

definition mermaid_ink_request :: "string \<Rightarrow> string \<times> (string \<times> string) list" where
  "mermaid_ink_request src =
     (mermaid_ink_url src, [(''User-Agent'', ''Mozilla/5.0''), (''Accept'', ''image/svg+xml'')])"

text \<open>How the service reads the path back: the URL-safe characters mapped to the
  standard ones, the padding restored to a multiple of four, then base64-decoded.\<close>

definition urlsafe_inv :: "char \<Rightarrow> char" where
  "urlsafe_inv c = (if c = CHR ''-'' then CHR ''+'' else if c = CHR ''_'' then CHR ''/'' else c)"

definition urlsafe_b64decode :: "string \<Rightarrow> string" where
  "urlsafe_b64decode enc =
     b64decode (map urlsafe_inv enc @ replicate ((4 - length enc mod 4) mod 4) (CHR ''=''))"

text \<open>A character that stands for itself in a URL path segment.\<close>

definition path_char :: "char \<Rightarrow> bool" where
  "path_char c \<longleftrightarrow> is_upper c \<or> is_lower c \<or> is_digit c \<or> c = CHR ''-'' \<or> c = CHR ''_''"

section \<open>mmdc\<close>

text \<open>\<open>render_mermaid_svg_local\<close>: \<open>shutil.which("mmdc")\<close> is \<open>which\<close> (\<open>None\<close> or an
  empty path: no renderer); \<open>run\<close> is the subprocess run on the argument vector with
  \<open>diagram.mmd\<close> holding the source in the temporary directory \<open>td\<close>; it answers the
  return code and the bytes of \<open>diagram.svg\<close> when that file exists, or \<open>None\<close> when
  an exception is raised (the timeout of 45 s included), which the code turns into
  \<open>None\<close>.\<close>

definition render_mermaid_svg_local ::
  "string option \<Rightarrow> string \<Rightarrow> (string list \<Rightarrow> string \<Rightarrow> (int \<times> string option) option) \<Rightarrow> string \<Rightarrow> string option" where
  "render_mermaid_svg_local which td run src =
     (case which of
        None \<Rightarrow> None
      | Some exe \<Rightarrow>
          if exe = [] then None
          else (case run [exe, ''-i'', td @ ''/diagram.mmd'', ''-o'', td @ ''/diagram.svg''] src of
                  None \<Rightarrow> None
                | Some (rc, out) \<Rightarrow> if rc \<noteq> 0 then None else out))"

text \<open>The renderers of a run of the program: pandoc and the \<open>markdown\<close> package as given,
  the local renderer above, and the body \<open>fetch\<close> answers for the \<open>mermaid.ink\<close>
  request (\<open>None\<close> when \<open>urlopen\<close> raises).\<close>

definition program_renderers ::
  "(string \<Rightarrow> string option) \<Rightarrow> (string \<Rightarrow> string option) \<Rightarrow> string option \<Rightarrow> string
   \<Rightarrow> (string list \<Rightarrow> string \<Rightarrow> (int \<times> string option) option)
   \<Rightarrow> (string \<times> (string \<times> string) list \<Rightarrow> string option) \<Rightarrow> renderers" where
  "program_renderers pd md which td run fetch =
     \<lparr>pandoc = pd, markdown_lib = md, mmdc = render_mermaid_svg_local which td run,
      mermaid_ink = (\<lambda>src. fetch (mermaid_ink_request src))\<rparr>"

section \<open>Lemmas\<close>

lemma char_eq_nat: "c = d \<longleftrightarrow> (of_char c :: nat) = of_char d"
  by (metis char_of_char)

lemma of_char_b64_char:
  "(of_char (b64_char k) :: nat) =
     (if k < 26 then 65 + k else if k < 52 then 71 + k else if k < 62 then k - 4 else if k = 62 then 43 else 47)"
  by (simp add: b64_char_def of_char_of)

lemma b64_char_special: "b64_char k \<noteq> CHR ''='' \<and> b64_char k \<noteq> CHR ''-'' \<and> b64_char k \<noteq> CHR ''_''"
  unfolding char_eq_nat [of "b64_char k"] of_char_b64_char by (simp split: if_splits) arith

lemma b64_path_char: "path_char (urlsafe_char (b64_char k))"
proof -
  let ?c = "b64_char k"
  note n = of_char_b64_char [of k]
  show ?thesis
  proof (cases "k < 62")
    case True
    then have "?c \<noteq> CHR ''+'' \<and> ?c \<noteq> CHR ''/''"
      unfolding char_eq_nat [of ?c] n by (simp split: if_splits) arith
    then have "urlsafe_char ?c = ?c" by (simp add: urlsafe_char_def)
    moreover have "is_upper ?c \<or> is_lower ?c \<or> is_digit ?c"
      using True unfolding is_upper_def is_lower_def is_digit_def Let_def n by (simp split: if_splits) arith
    ultimately show ?thesis unfolding path_char_def by metis
  next
    case False
    then have "?c = CHR ''+'' \<or> ?c = CHR ''/''" unfolding char_eq_nat [of ?c] n by auto
    then show ?thesis by (auto simp: urlsafe_char_def path_char_def)
  qed
qed

lemma b64_shape:
  "\<exists>ks p. b64encode s = map b64_char ks @ replicate p (CHR ''='') \<and> p < 4 \<and> (length ks + p) mod 4 = 0"
proof (induction s rule: b64encode.induct)
  case (1 a b c rest)
  then obtain ks p where "b64encode rest = map b64_char ks @ replicate p (CHR ''='')" "p < 4"
    "(length ks + p) mod 4 = 0" by (auto simp del: b64encode.simps)
  then show ?case
    by (intro exI [of _ "[_, _, _, _] @ ks"] exI [of _ p]) (simp add: Let_def)
next
  case (2 a b)
  show ?case by (intro exI [of _ "[_, _, _]"] exI [of _ 1]) (simp add: Let_def)
next
  case (3 a)
  show ?case by (intro exI [of _ "[_, _]"] exI [of _ 2]) (simp add: Let_def numeral_2_eq_2)
qed simp

lemma rstrip_chars_pad:
  "\<forall>x\<in>set xs. x \<notin> set cs \<Longrightarrow> c \<in> set cs \<Longrightarrow> rstrip_chars cs (xs @ replicate p c) = xs"
  by (cases "rev xs") (auto simp: rstrip_chars_def dropWhile_append)

lemma pad_length: "(p :: nat) < 4 \<Longrightarrow> (l + p) mod 4 = 0 \<Longrightarrow> (4 - l mod 4) mod 4 = p"
proof -
  assume a: "p < 4" "(l + p) mod 4 = 0"
  have m: "(l mod 4 + p) mod 4 = 0" using a(2) by (simp add: mod_add_left_eq)
  have "l mod 4 \<in> {0, 1, 2, 3}" "p \<in> {0, 1, 2, 3}" using a(1) by auto
  with m show ?thesis by (auto simp: dvd_def; arith)
qed

lemma urlsafe_inv_char: "c \<noteq> CHR ''-'' \<Longrightarrow> c \<noteq> CHR ''_'' \<Longrightarrow> urlsafe_inv (urlsafe_char c) = c"
  by (simp add: urlsafe_inv_def urlsafe_char_def)

lemma urlsafe_b64_shape:
  obtains ks p where "b64encode s = map b64_char ks @ replicate p (CHR ''='')"
    and "rstrip_chars ''='' (urlsafe_b64encode s) = map (urlsafe_char \<circ> b64_char) ks"
    and "(4 - length ks mod 4) mod 4 = p"
proof -
  obtain ks p where e: "b64encode s = map b64_char ks @ replicate p (CHR ''='')" "p < 4"
    "(length ks + p) mod 4 = 0" using b64_shape [of s] by auto
  have u: "urlsafe_b64encode s = map (urlsafe_char \<circ> b64_char) ks @ replicate p (CHR ''='')"
    by (simp add: urlsafe_b64encode_def e(1) urlsafe_char_def)
  have "urlsafe_char (b64_char k) \<noteq> CHR ''=''" for k
    using b64_char_special [of k] by (simp add: urlsafe_char_def)
  then have "\<forall>x\<in>set (map (urlsafe_char \<circ> b64_char) ks). x \<notin> set ''=''" by auto
  from rstrip_chars_pad [OF this, of "CHR ''=''" p] u
  have "rstrip_chars ''='' (urlsafe_b64encode s) = map (urlsafe_char \<circ> b64_char) ks" by simp
  moreover have "(4 - length ks mod 4) mod 4 = p" using pad_length [OF e(2,3)] .
  ultimately show thesis using that e(1) by blast
qed

lemma urlsafe_b64_roundtrip: "urlsafe_b64decode (rstrip_chars ''='' (urlsafe_b64encode s)) = s"
proof -
  obtain ks p where e: "b64encode s = map b64_char ks @ replicate p (CHR ''='')"
    and r: "rstrip_chars ''='' (urlsafe_b64encode s) = map (urlsafe_char \<circ> b64_char) ks"
    and p: "(4 - length ks mod 4) mod 4 = p" by (rule urlsafe_b64_shape)
  have m: "urlsafe_inv (urlsafe_char (b64_char k)) = b64_char k" for k
    using b64_char_special [of k] by (simp add: urlsafe_inv_char)
  show ?thesis using r p b64_roundtrip [of s] by (simp add: urlsafe_b64decode_def e comp_def m)
qed

section \<open>Properties\<close>

text \<open>C24: The \<open>mermaid.ink\<close> URL of a diagram is \<open>https://mermaid.ink/svg/\<close> followed
  by a single path segment of letters, digits, \<open>-\<close> and \<open>_\<close> from which the service
  recovers exactly the diagram's source, although the code strips the base64 padding.\<close>

theorem mermaid_ink_url_roundtrip:
  "\<exists>enc. mermaid_ink_url src = ''https://mermaid.ink/svg/'' @ enc
         \<and> urlsafe_b64decode enc = src \<and> list_all path_char enc"
proof -
  obtain ks :: "nat list" and p :: nat
    where "rstrip_chars ''='' (urlsafe_b64encode src) = map (urlsafe_char \<circ> b64_char) ks"
    by (rule urlsafe_b64_shape)
  then have "list_all path_char (rstrip_chars ''='' (urlsafe_b64encode src))"
    by (simp add: list_all_iff b64_path_char)
  with urlsafe_b64_roundtrip [of src] show ?thesis
    by (intro exI [of _ "rstrip_chars ''='' (urlsafe_b64encode src)"]) (simp add: mermaid_ink_url_def)
qed

end
