(* ===== verification/Spec2Isabelle.thy ===== *)
theory Spec2Isabelle
  imports Legacy Line_Cursor Progress Json Renderers
begin

text \<open>
  Verification development for the Markdown-to-Confluence publisher: the script
  \<open>src/skills/confluence-publisher/scripts/confluence_publish.py\<close> (the skills copy,
  the main subject) and its earlier version \<open>src/scripts/confluence_publish.py\<close>.

  \<^bold>\<open>The program.\<close> \<open>main\<close> resolves its settings from the command line, the
  environment and a \<open>.env\<close> file, looks up the space, and publishes every Markdown file
  of a glob: \<open>parse_document\<close> reads the front matter, the title and the labels;
  \<open>markdown_to_html\<close> turns the body into Confluence storage markup (pandoc, the
  \<open>markdown\<close> package, or the built-in line converter \<open>simple_markdown_to_html\<close> with
  its tables, code macros and three Mermaid modes); \<open>publish_document\<close> finds the page
  by id or title and creates or updates it through \<open>ConfluenceClient\<close>, uploading
  rendered diagrams as attachments in attachment mode and adding the labels.

  \<^bold>\<open>Theories and what they model.\<close>
  \<^item> \<open>Prelude\<close>: the Python string primitives both copies use (\<open>strip\<close>,
    \<open>split\<close>, \<open>splitlines\<close>, \<open>join\<close>, \<open>html.escape\<close>, number formatting) and the
    list and string lemmas the components share.
  \<^item> \<open>Inline\<close>: \<open>render_plain_inline\<close> and \<open>render_inline\<close> (lines 274-288), the two
    lazy \<open>re.sub\<close> passes as scanners and the back-quote \<open>re.finditer\<close> loop.
  \<^item> \<open>Blocks\<close>: the table helpers (lines 191-272), \<open>emit_code_macro\<close>, the Mermaid
    macros and \<open>build_mermaid_image_name\<close>; an \<open>IndexError\<close> is the \<open>None\<close> of
    \<open>render_cells\<close>.
  \<^item> \<open>Converter\<close>: \<open>simple_markdown_to_html\<close> (lines 175-403) as a state record
    \<open>conv_state\<close> (the locals \<open>parts\<close>, \<open>in_ul\<close>, \<open>in_code_block\<close>, \<open>code_lang\<close>,
    \<open>code_lines\<close>, the image counter and the caller's plan list) and a step function
    \<open>conv_step\<close> per iteration of the \<open>while\<close> loop; \<open>conv_loop\<close> recurses on the
    remaining lines; \<open>conv_reach\<close> is the inductive set of reachable states;
    \<open>markdown_to_html\<close> takes the outputs of the external renderers as inputs.
    \<open>Line_Cursor\<close> adds the loop as the code writes it, an index \<open>i\<close> in a
    \<open>partial_function (option)\<close> \<open>conv_while\<close>, and the list-nesting invariant.
  \<^item> \<open>Document\<close>: \<open>parse_labels\<close>, \<open>merge_labels\<close>, \<open>parse_front_matter\<close>,
    \<open>derive_title\<close> (the MULTILINE heading search with its backtracking) and
    \<open>parse_document\<close> on the text read from a path.
  \<^item> \<open>Client\<close>: the methods of \<open>ConfluenceClient\<close> as computations of a client monad
    over an arbitrary server \<open>'w \<Rightarrow> request \<Rightarrow> ('w \<times> response) option\<close> (\<open>None\<close>
    is a non-2xx answer, raised as \<open>RuntimeError\<close>), logging every exchange; Hoare
    triples \<open>valid\<close> over the log. \<open>Http\<close> models what \<open>_request\<close> puts on the wire:
    the \<open>Authorization\<close> header, the method, path, query and JSON payload of each
    method, the URL with \<open>urlencode(query, doseq=True)\<close>, the multipart upload.
    \<open>Json\<close> completes the wire level: \<open>json.dumps\<close> of the payload, the \<open>Request\<close>
    handed to \<open>urlopen\<close> (\<open>wire_of\<close>, \<open>upload_wire\<close>), the \<open>RuntimeError\<close> message
    of an \<open>HTTPError\<close> and the decoding of the answer (\<open>request_result\<close> for
    \<open>_request\<close>, lines 477-513, \<open>upload_result\<close> for the upload, lines 634-650), with
    \<open>json.loads\<close> a parameter; a JSON reader \<open>json_parse\<close> stands for the server.
  \<^item> \<open>Publish\<close>: \<open>publish_document\<close> (lines 721-811) with its update and create
    branches, the diagram upload loop and the renderer fallback; specifications of the
    request log (the requests allowed, the version sent, the order of the writes as an
    automaton over phases). \<open>Progress\<close> proves that it completes against a server that
    answers. \<open>Wiki\<close> is a model of the remote service (not repository code) on
    which the witnesses of the properties run the publisher.
  \<^item> \<open>Renderers\<close>: what the program sends to the Mermaid renderers and how it reads
    their outcome: the \<open>mermaid.ink\<close> URL of \<open>render_mermaid_svg\<close> (URL-safe base64
    without padding, lines 51-60) and the \<open>mmdc\<close> run of \<open>render_mermaid_svg_local\<close>
    (lines 153-172); \<open>program_renderers\<close> builds the Publish theory's \<open>renderers\<close>
    record from them, the process and the service staying parameters.
  \<^item> \<open>Driver\<close>: \<open>load_dotenv\<close> (with the exception \<open>os.environ.setdefault\<close>
    raises for an empty name or a NUL character), \<open>env_bool\<close>, \<open>bool_arg\<close>, \<open>parse_positive_int\<close>
    (Python's \<open>int()\<close> included), the settings of \<open>main\<close> with their exit-2 checks,
    the file loop that counts failures and the exit code.
  \<^item> \<open>Legacy\<close>: the earlier copy's converter, \<open>markdown_to_html\<close>,
    \<open>publish_document\<close> and \<open>main\<close>; the helpers it shares verbatim with the skills
    copy are the definitions of the other theories.

  \<^bold>\<open>What is proved.\<close> Safety of the engine for every server and document (dry-run
  sends no write; every update carries the fetched version plus one; the writes come in
  the order uploads, update, labels or create, uploads, labels; the labels sent are the
  merged, case-insensitively distinct labels). The converter never fails and never
  returns an empty body, escapes every inline text, gives every table row the header's
  width, keeps its state invariants (no empty part, no fence inside a list, plans
  numbered from 1, list tags well nested and closed at the end), and its index loop
  terminates. Round trips: front matter, CDATA, the query string of every request, the
  base64 credential, \<open>parse_positive_int\<close>, the JSON body of every request (it reads
  back as the payload, and a JSON answer is returned as its value), the \<open>mermaid.ink\<close>
  URL (its path decodes to the diagram's source and is one URL-safe segment). The SVG
  uploaded for a diagram is never empty, whatever the renderers return. The exit code of
  \<open>main\<close> is characterised on every path, the exception of \<open>load_dotenv\<close> included.
  \<open>merge_labels\<close> is characterised completely (case-distinct, complete up to case, order
  kept, first casing wins). Refinements: the skills copy behaves as the earlier
  copy in code mode on documents without tables (converter, \<open>publish_document\<close> and
  \<open>main\<close>). Progress: against a server that answers, every diagram is uploaded and a
  publication ends with the page created or updated. Three findings are theorems: image
  names that collide for long titles, the exit status 1 of an uncaught exception (an
  unresolved space key, a \<open>.env\<close> line with an empty name), the upload's missing
  blank-answer check.

  \<^bold>\<open>Bounds and fuel.\<close> No loop of the code uses fuel: every one is a structural
  recursion or a \<open>function\<close> with a measure (\<open>conv_loop\<close> on the number of remaining
  lines, \<open>title_search\<close> on the length of the text), and \<open>conv_while\<close>, a
  \<open>partial_function\<close>, is proved to return for every input. Integers are unbounded as
  in Python; the width bounds [240, 4000] and the name length 180 are the code's own.
  The one fuel of the development bounds the nesting depth of the server-side JSON
  reader \<open>jparse\<close>; \<open>json_parse\<close> gives it the length of the text plus one, which is
  enough because the size of a value is below the length of its \<open>json.dumps\<close> text
  (\<open>json_size_less\<close>), so the round trip is proved as a result, not under a hypothesis.

  \<^bold>\<open>Not modelled.\<close> The network itself (\<open>urlopen\<close>, timeouts): the Client theory's
  server is abstract and answers with responses already decoded, and the wire level of
  \<open>Json\<close> stops at the \<open>Request\<close> and the answer; \<open>json.loads\<close> is a parameter
  there, and the JSON values have no \<open>null\<close>, booleans or floats, which the program
  never sends. The external tools (pandoc, the \<open>markdown\<close> package, the \<open>mmdc\<close>
  process, the mermaid.ink service): their outputs are inputs. \<open>argparse\<close>, globbing and sorting of paths,
  the file system and printing: the parsed arguments and the list of (path, text) pairs
  are inputs and the printed lines are not part of the result. Strings are lists of
  bytes: the UTF-8 encoding of non-ASCII text is not modelled. The earlier copy's
  helpers that are verbatim copies of the skills copy's are not modelled twice.
\<close>

end
